theory Spec2Isabelle
  imports Main "HOL-Library.Option_ord" "HOL-Library.Multiset"
begin

section \<open>JavaScript values and the parameters sent to the store\<close>

text \<open>
  A field of a JSON request body, after \<open>express.json()\<close> has parsed it and the handler
  has destructured it. The body is an object; a field it omits is \<open>JUndefined\<close>. Numbers
  are restricted to integers that JavaScript prints in full (below \<open>10^21\<close> in
  magnitude); nested objects and arrays are not modelled.
\<close>

datatype jsval = JUndefined | JNull | JBool bool | JNum int | JStr string

type_synonym body = "string \<rightharpoonup> jsval"

definition field :: "body \<Rightarrow> string \<Rightarrow> jsval" where
  "field b k = (case b k of None \<Rightarrow> JUndefined | Some v \<Rightarrow> v)"

fun truthy :: "jsval \<Rightarrow> bool" where
  "truthy JUndefined = False"
| "truthy JNull = False"
| "truthy (JBool b) = b"
| "truthy (JNum n) = (n \<noteq> 0)"
| "truthy (JStr s) = (s \<noteq> [])"

text \<open>The JavaScript operator \<open>a || b\<close>.\<close>

definition js_or :: "jsval \<Rightarrow> jsval \<Rightarrow> jsval" where
  "js_or a b = (if truthy a then a else b)"

fun digits :: "nat \<Rightarrow> string" where
  "digits n = (if n < 10 then [''0123456789'' ! n]
               else digits (n div 10) @ [''0123456789'' ! (n mod 10)])"

definition toString :: "int \<Rightarrow> string" where
  "toString n = (if n < 0 then CHR ''-'' # digits (nat (- n)) else digits (nat n))"

text \<open>
  What the \<open>pg\<close> client sends for a query parameter: \<open>undefined\<close> and \<open>null\<close> become
  SQL NULL (\<open>None\<close>), everything else is sent as text.
\<close>

fun prepareValue :: "jsval \<Rightarrow> string option" where
  "prepareValue JUndefined = None"
| "prepareValue JNull = None"
| "prepareValue (JBool b) = Some (if b then ''true'' else ''false'')"
| "prepareValue (JNum n) = Some (toString n)"
| "prepareValue (JStr s) = Some s"

section \<open>The store\<close>

type_synonym timestamp = int
type_synonym date = int

text \<open>
  The error object a rejected \<open>pool.query\<close> promise carries. The handlers only read its
  \<open>message\<close>; the constructor and its arguments stand for that message.
\<close>

datatype pg_error =
    ConnectionFailure string
  | UndefinedTable string
  | InvalidTextRepresentation string string
  | NotNullViolation string string
  | CheckViolation string string
  | ForeignKeyViolation string string
  | UniqueViolation string string
  | NumericValueOutOfRange string
  | SequenceLimit string
  | InvalidParameterValue string
  | ProtocolViolation

text \<open>
  The input functions of the store's column types, which turn the text of a parameter
  into a value of the type or reject it. They belong to PostgreSQL, not to this
  repository, and are a parameter of the model.
\<close>

record pg_input =
  int4_in :: "string \<Rightarrow> int option"
  int2_in :: "string \<Rightarrow> int option"
  date_in :: "string \<Rightarrow> date option"

definition bind_int4 :: "pg_input \<Rightarrow> jsval \<Rightarrow> pg_error + int option" where
  "bind_int4 pg v =
     (case prepareValue v of
        None \<Rightarrow> Inr None
      | Some s \<Rightarrow> (case int4_in pg s of
                    None \<Rightarrow> Inl (InvalidTextRepresentation ''integer'' s)
                  | Some n \<Rightarrow> Inr (Some n)))"

definition bind_int2 :: "pg_input \<Rightarrow> jsval \<Rightarrow> pg_error + int option" where
  "bind_int2 pg v =
     (case prepareValue v of
        None \<Rightarrow> Inr None
      | Some s \<Rightarrow> (case int2_in pg s of
                    None \<Rightarrow> Inl (InvalidTextRepresentation ''smallint'' s)
                  | Some n \<Rightarrow> Inr (Some n)))"

definition bind_date :: "pg_input \<Rightarrow> jsval \<Rightarrow> pg_error + date option" where
  "bind_date pg v =
     (case prepareValue v of
        None \<Rightarrow> Inr None
      | Some s \<Rightarrow> (case date_in pg s of
                    None \<Rightarrow> Inl (InvalidTextRepresentation ''date'' s)
                  | Some d \<Rightarrow> Inr (Some d)))"

subsection \<open>Rows of the five tables created by \<open>initTables\<close>\<close>

record battle_row =
  bi_id :: int
  bi_name :: "string option"
  bi_callsign :: "string option"
  bi_role :: "string option"
  bi_rank :: "string option"
  bi_specialty :: "string option"
  bi_ethnicity :: "string option"
  bi_dob :: "date option"
  bi_strikes_level :: "string option"
  bi_commendations_count :: "int option"
  bi_notes :: "string option"
  bi_avatar :: "string option"
  bi_status :: "string option"
  bi_created_at :: "timestamp option"

record commendation_row =
  co_id :: int
  co_battle_id :: "int option"
  co_level :: "int option"
  co_notes :: "string option"
  co_created_at :: "timestamp option"

record rank_change_row =
  rc_id :: int
  rc_battle_id :: "int option"
  rc_change_type :: "string option"
  rc_from_rank :: "string option"
  rc_to_rank :: "string option"
  rc_reason :: "string option"
  rc_created_at :: "timestamp option"

record catalog_row =
  ac_id :: int
  ac_code :: "string option"
  ac_name :: "string option"
  ac_description :: "string option"
  ac_icon_url :: "string option"

record award_row =
  aw_id :: int
  aw_battle_id :: "int option"
  aw_award_id :: "int option"
  aw_notes :: "string option"
  aw_granted_at :: "timestamp option"

text \<open>
  A table with an \<open>id SERIAL PRIMARY KEY\<close> column: its rows and the next value of the
  sequence behind the column. A table that has not been created is \<open>None\<close> in \<open>db\<close>.
\<close>

record 'r table =
  rows :: "'r list"
  next_id :: int

record db =
  battle_ids :: "battle_row table option"
  commendations :: "commendation_row table option"
  rank_changes :: "rank_change_row table option"
  awards_catalog :: "catalog_row table option"
  awards :: "award_row table option"

subsection \<open>The connection pool\<close>

text \<open>
  What can happen to the connection during a call of \<open>pool.query\<close>: it is lost before the
  statement reaches the store, or it is lost after the statement has run and
  committed, before the result arrives. Either way the promise is rejected with the
  error of the connection; in the second case the store has changed all the same.
\<close>

datatype fault = LostBeforeStatement pg_error | LostAfterCommit pg_error

text \<open>
  \<open>store\<close> is the database, \<open>clock\<close> what \<open>NOW()\<close> returns, \<open>faults\<close> what happens to the
  connection on each of the coming calls of \<open>pool.query\<close> (\<open>None\<close>: nothing, the call
  goes through), and \<open>thrown\<close> the errors \<open>pool.query\<close> has rejected with so far. An
  error of a client that sits idle in the pool, between calls, is not an outcome of a
  call: it is an event of the process, modelled with the process below.
\<close>

record 'd world =
  store :: 'd
  clock :: timestamp
  faults :: "fault option list"
  thrown :: "pg_error list"

type_synonym ('d, 'a) statement = "timestamp \<Rightarrow> 'd \<Rightarrow> (pg_error + 'a) \<times> 'd"

definition raise :: "pg_error \<Rightarrow> 'd world \<Rightarrow> (pg_error + 'a) \<times> 'd world" where
  "raise e w = (Inl e, w\<lparr>thrown := thrown w @ [e]\<rparr>)"

definition execute :: "('d, 'a) statement \<Rightarrow> 'd world \<Rightarrow> (pg_error + 'a) \<times> 'd world" where
  "execute q w =
     (case q (clock w) (store w) of
        (Inl e, d) \<Rightarrow> raise e (w\<lparr>store := d\<rparr>)
      | (Inr a, d) \<Rightarrow> (Inr a, w\<lparr>store := d\<rparr>))"

definition pool_query :: "('d, 'a) statement \<Rightarrow> 'd world \<Rightarrow> (pg_error + 'a) \<times> 'd world" where
  "pool_query q w =
     (case faults w of
        [] \<Rightarrow> execute q w
      | None # fs \<Rightarrow> execute q (w\<lparr>faults := fs\<rparr>)
      | Some (LostBeforeStatement e) # fs \<Rightarrow> raise e (w\<lparr>faults := fs\<rparr>)
      | Some (LostAfterCommit e) # fs \<Rightarrow>
          raise e (w\<lparr>faults := fs, store := snd (q (clock w) (store w))\<rparr>))"

subsection \<open>Statements on \<open>battle_ids\<close>\<close>

text \<open>
  Every statement first needs its tables to exist, then binds its parameters to the
  column types (a text that is not of the type is rejected there, before any row is
  looked at), then runs. Each call of \<open>pool.query\<close> is a transaction of its own.
\<close>

text \<open>\<open>nextval\<close> of the sequence of a \<open>SERIAL\<close> column. It is not undone when the
  statement fails later.\<close>

definition nextval :: "string \<Rightarrow> 'r table \<Rightarrow> pg_error + int \<times> 'r table" where
  "nextval seq t =
     (if 2147483647 < next_id t then Inl (SequenceLimit seq)
      else Inr (next_id t, t\<lparr>next_id := next_id t + 1\<rparr>))"

definition strikes_levels :: "string list" where
  "strikes_levels = [''0'', ''1'', ''2'', ''3'', ''exterminato'']"

text \<open>\<open>name TEXT NOT NULL\<close> and the \<open>CHECK\<close> on \<open>strikes_level\<close>, which NULL passes.\<close>

definition battle_ids_constraints :: "battle_row \<Rightarrow> pg_error option" where
  "battle_ids_constraints r =
     (if bi_name r = None then Some (NotNullViolation ''battle_ids'' ''name'')
      else case bi_strikes_level r of
             None \<Rightarrow> None
           | Some s \<Rightarrow> if s \<in> set strikes_levels then None
                       else Some (CheckViolation ''battle_ids'' ''strikes_level''))"

text \<open>\<open>SELECT * FROM battle_ids ORDER BY created_at DESC\<close>. In descending order NULL
  comes first; rows with equal keys keep their order in the table (the store leaves
  that order open).\<close>

definition order_by_desc :: "('r \<Rightarrow> int option) \<Rightarrow> 'r list \<Rightarrow> 'r list" where
  "order_by_desc f rs = sort_key (\<lambda>r. map_option uminus (f r)) rs"

definition select_battle_ids_order_by_created_at ::
  "(db, battle_row list) statement" where
  "select_battle_ids_order_by_created_at now d =
     (case battle_ids d of
        None \<Rightarrow> (Inl (UndefinedTable ''battle_ids''), d)
      | Some t \<Rightarrow> (Inr (order_by_desc bi_created_at (rows t)), d))"

text \<open>\<open>SELECT * FROM battle_ids WHERE id = $1\<close>\<close>

definition select_battle_ids_where_id ::
  "pg_input \<Rightarrow> jsval list \<Rightarrow> (db, battle_row list) statement" where
  "select_battle_ids_where_id pg ps now d =
     (case battle_ids d of
        None \<Rightarrow> (Inl (UndefinedTable ''battle_ids''), d)
      | Some t \<Rightarrow>
         (case ps of
            [ident] \<Rightarrow>
              (case bind_int4 pg ident of
                 Inl e \<Rightarrow> (Inl e, d)
               | Inr i \<Rightarrow> (Inr (filter (\<lambda>r. Some (bi_id r) = i) (rows t)), d))
          | _ \<Rightarrow> (Inl ProtocolViolation, d)))"

text \<open>\<open>INSERT INTO battle_ids (name, callsign, role, rank, specialty, ethnicity, dob,
  strikes_level, notes, avatar, status) VALUES ($1,...,$11) RETURNING *\<close>. The columns
  the statement does not name take their defaults: \<open>id\<close> from the sequence,
  \<open>commendations_count\<close> 0 and \<open>created_at\<close> \<open>NOW()\<close>.\<close>

definition insert_into_battle_ids ::
  "pg_input \<Rightarrow> jsval list \<Rightarrow> (db, battle_row list) statement" where
  "insert_into_battle_ids pg ps now d =
     (case battle_ids d of
        None \<Rightarrow> (Inl (UndefinedTable ''battle_ids''), d)
      | Some t \<Rightarrow>
         (case ps of
            [name, callsign, role, rank, specialty, ethnicity, dob, strikes_level,
             notes, avatar, status] \<Rightarrow>
              (case bind_date pg dob of
                 Inl e \<Rightarrow> (Inl e, d)
               | Inr dob' \<Rightarrow>
                  (case nextval ''battle_ids_id_seq'' t of
                     Inl e \<Rightarrow> (Inl e, d)
                   | Inr (i, t') \<Rightarrow>
                      (let r = \<lparr>bi_id = i, bi_name = prepareValue name,
                                bi_callsign = prepareValue callsign,
                                bi_role = prepareValue role, bi_rank = prepareValue rank,
                                bi_specialty = prepareValue specialty,
                                bi_ethnicity = prepareValue ethnicity, bi_dob = dob',
                                bi_strikes_level = prepareValue strikes_level,
                                bi_commendations_count = Some 0,
                                bi_notes = prepareValue notes,
                                bi_avatar = prepareValue avatar,
                                bi_status = prepareValue status,
                                bi_created_at = Some now\<rparr>
                       in case battle_ids_constraints r of
                            Some e \<Rightarrow> (Inl e, d\<lparr>battle_ids := Some t'\<rparr>)
                          | None \<Rightarrow>
                             if i \<in> set (map bi_id (rows t'))
                             then (Inl (UniqueViolation ''battle_ids'' ''id''),
                                   d\<lparr>battle_ids := Some t'\<rparr>)
                             else (Inr [r],
                                   d\<lparr>battle_ids := Some (t'\<lparr>rows := rows t' @ [r]\<rparr>)\<rparr>))))
          | _ \<Rightarrow> (Inl ProtocolViolation, d)))"

text \<open>\<open>UPDATE battle_ids SET name=$1, ..., status=$11 WHERE id=$12 RETURNING *\<close>\<close>

definition update_battle_ids ::
  "pg_input \<Rightarrow> jsval list \<Rightarrow> (db, battle_row list) statement" where
  "update_battle_ids pg ps now d =
     (case battle_ids d of
        None \<Rightarrow> (Inl (UndefinedTable ''battle_ids''), d)
      | Some t \<Rightarrow>
         (case ps of
            [name, callsign, role, rank, specialty, ethnicity, dob, strikes_level,
             notes, avatar, status, ident] \<Rightarrow>
              (case bind_date pg dob of
                 Inl e \<Rightarrow> (Inl e, d)
               | Inr dob' \<Rightarrow>
                  (case bind_int4 pg ident of
                     Inl e \<Rightarrow> (Inl e, d)
                   | Inr i \<Rightarrow>
                      (let hit = (\<lambda>r. Some (bi_id r) = i);
                           set_cols = (\<lambda>r. r\<lparr>bi_name := prepareValue name,
                                bi_callsign := prepareValue callsign,
                                bi_role := prepareValue role, bi_rank := prepareValue rank,
                                bi_specialty := prepareValue specialty,
                                bi_ethnicity := prepareValue ethnicity, bi_dob := dob',
                                bi_strikes_level := prepareValue strikes_level,
                                bi_notes := prepareValue notes,
                                bi_avatar := prepareValue avatar,
                                bi_status := prepareValue status\<rparr>);
                           new = map set_cols (filter hit (rows t))
                       in case List.map_filter battle_ids_constraints new of
                            e # _ \<Rightarrow> (Inl e, d)
                          | [] \<Rightarrow>
                             (Inr new,
                              d\<lparr>battle_ids := Some (t\<lparr>rows :=
                                  map (\<lambda>r. if hit r then set_cols r else r) (rows t)\<rparr>)\<rparr>))))
          | _ \<Rightarrow> (Inl ProtocolViolation, d)))"

text \<open>\<open>DELETE FROM battle_ids WHERE id = $1\<close>, with \<open>ON DELETE CASCADE\<close> of the three
  tables that reference \<open>battle_ids(id)\<close>.\<close>

definition cascade :: "('r \<Rightarrow> int option) \<Rightarrow> int list \<Rightarrow> 'r table \<Rightarrow> 'r table" where
  "cascade fk dead t =
     t\<lparr>rows := filter (\<lambda>r. case fk r of None \<Rightarrow> True | Some b \<Rightarrow> b \<notin> set dead) (rows t)\<rparr>"

definition delete_from_battle_ids ::
  "pg_input \<Rightarrow> jsval list \<Rightarrow> (db, unit) statement" where
  "delete_from_battle_ids pg ps now d =
     (case battle_ids d of
        None \<Rightarrow> (Inl (UndefinedTable ''battle_ids''), d)
      | Some t \<Rightarrow>
         (case ps of
            [ident] \<Rightarrow>
              (case bind_int4 pg ident of
                 Inl e \<Rightarrow> (Inl e, d)
               | Inr i \<Rightarrow>
                  (let hit = (\<lambda>r. Some (bi_id r) = i);
                       dead = map bi_id (filter hit (rows t))
                   in (Inr (),
                       d\<lparr>battle_ids := Some (t\<lparr>rows := filter (\<lambda>r. \<not> hit r) (rows t)\<rparr>),
                         commendations := map_option (cascade co_battle_id dead) (commendations d),
                         rank_changes := map_option (cascade rc_battle_id dead) (rank_changes d),
                         awards := map_option (cascade aw_battle_id dead) (awards d)\<rparr>)))
          | _ \<Rightarrow> (Inl ProtocolViolation, d)))"

text \<open>\<open>UPDATE battle_ids SET commendations_count = commendations_count + 1 WHERE id=$1\<close>.
  The column is a \<open>SMALLINT\<close>: a sum above 32767 is rejected.\<close>

definition update_commendations_count ::
  "pg_input \<Rightarrow> jsval list \<Rightarrow> (db, unit) statement" where
  "update_commendations_count pg ps now d =
     (case battle_ids d of
        None \<Rightarrow> (Inl (UndefinedTable ''battle_ids''), d)
      | Some t \<Rightarrow>
         (case ps of
            [ident] \<Rightarrow>
              (case bind_int4 pg ident of
                 Inl e \<Rightarrow> (Inl e, d)
               | Inr i \<Rightarrow>
                  (let hit = (\<lambda>r. Some (bi_id r) = i);
                       plus1 = (\<lambda>r. r\<lparr>bi_commendations_count :=
                                  map_option (\<lambda>c. c + 1) (bi_commendations_count r)\<rparr>)
                   in if list_ex (\<lambda>r. case bi_commendations_count r of
                                       None \<Rightarrow> False | Some c \<Rightarrow> 32767 < c + 1)
                           (filter hit (rows t))
                      then (Inl (NumericValueOutOfRange ''smallint''), d)
                      else (Inr (),
                            d\<lparr>battle_ids := Some (t\<lparr>rows :=
                                map (\<lambda>r. if hit r then plus1 r else r) (rows t)\<rparr>)\<rparr>)))
          | _ \<Rightarrow> (Inl ProtocolViolation, d)))"

subsection \<open>Statements on the dependent tables\<close>

definition references_battle_ids :: "db \<Rightarrow> int \<Rightarrow> bool" where
  "references_battle_ids d b =
     (case battle_ids d of None \<Rightarrow> False | Some t \<Rightarrow> b \<in> set (map bi_id (rows t)))"

definition references_awards_catalog :: "db \<Rightarrow> int \<Rightarrow> bool" where
  "references_awards_catalog d a =
     (case awards_catalog d of None \<Rightarrow> False | Some t \<Rightarrow> a \<in> set (map ac_id (rows t)))"

text \<open>\<open>INSERT INTO commendations (battle_id, level, notes) VALUES ($1,$2,$3)
  RETURNING *\<close>\<close>

definition insert_into_commendations ::
  "pg_input \<Rightarrow> jsval list \<Rightarrow> (db, commendation_row list) statement" where
  "insert_into_commendations pg ps now d =
     (case commendations d of
        None \<Rightarrow> (Inl (UndefinedTable ''commendations''), d)
      | Some t \<Rightarrow>
         (case ps of
            [battle_id, level, notes] \<Rightarrow>
              (case bind_int4 pg battle_id of
                 Inl e \<Rightarrow> (Inl e, d)
               | Inr b \<Rightarrow>
                  (case bind_int2 pg level of
                     Inl e \<Rightarrow> (Inl e, d)
                   | Inr l \<Rightarrow>
                      (case nextval ''commendations_id_seq'' t of
                         Inl e \<Rightarrow> (Inl e, d)
                       | Inr (i, t') \<Rightarrow>
                          (let r = \<lparr>co_id = i, co_battle_id = b, co_level = l,
                                    co_notes = prepareValue notes,
                                    co_created_at = Some now\<rparr>;
                               d' = d\<lparr>commendations := Some t'\<rparr>
                           in case (b, l) of
                                (None, _) \<Rightarrow>
                                  (Inl (NotNullViolation ''commendations'' ''battle_id''), d')
                              | (Some _, None) \<Rightarrow>
                                  (Inl (NotNullViolation ''commendations'' ''level''), d')
                              | (Some b', Some l') \<Rightarrow>
                                  if l' \<notin> {1, 2, 3}
                                  then (Inl (CheckViolation ''commendations'' ''level''), d')
                                  else if i \<in> set (map co_id (rows t'))
                                  then (Inl (UniqueViolation ''commendations'' ''id''), d')
                                  else if \<not> references_battle_ids d b'
                                  then (Inl (ForeignKeyViolation ''commendations''
                                               ''battle_id''), d')
                                  else (Inr [r],
                                        d\<lparr>commendations :=
                                            Some (t'\<lparr>rows := rows t' @ [r]\<rparr>)\<rparr>)))))
          | _ \<Rightarrow> (Inl ProtocolViolation, d)))"

text \<open>\<open>INSERT INTO rank_changes (battle_id, change_type, from_rank, to_rank, reason)
  VALUES ($1,$2,$3,$4,$5) RETURNING *\<close>\<close>

definition insert_into_rank_changes ::
  "pg_input \<Rightarrow> jsval list \<Rightarrow> (db, rank_change_row list) statement" where
  "insert_into_rank_changes pg ps now d =
     (case rank_changes d of
        None \<Rightarrow> (Inl (UndefinedTable ''rank_changes''), d)
      | Some t \<Rightarrow>
         (case ps of
            [battle_id, change_type, from_rank, to_rank, reason] \<Rightarrow>
              (case bind_int4 pg battle_id of
                 Inl e \<Rightarrow> (Inl e, d)
               | Inr b \<Rightarrow>
                  (case nextval ''rank_changes_id_seq'' t of
                     Inl e \<Rightarrow> (Inl e, d)
                   | Inr (i, t') \<Rightarrow>
                      (let r = \<lparr>rc_id = i, rc_battle_id = b,
                                rc_change_type = prepareValue change_type,
                                rc_from_rank = prepareValue from_rank,
                                rc_to_rank = prepareValue to_rank,
                                rc_reason = prepareValue reason,
                                rc_created_at = Some now\<rparr>;
                           d' = d\<lparr>rank_changes := Some t'\<rparr>
                       in case (b, prepareValue change_type) of
                            (None, _) \<Rightarrow>
                              (Inl (NotNullViolation ''rank_changes'' ''battle_id''), d')
                          | (Some _, None) \<Rightarrow>
                              (Inl (NotNullViolation ''rank_changes'' ''change_type''), d')
                          | (Some b', Some c) \<Rightarrow>
                              if c \<notin> {''promotion'', ''demotion''}
                              then (Inl (CheckViolation ''rank_changes'' ''change_type''), d')
                              else if i \<in> set (map rc_id (rows t'))
                              then (Inl (UniqueViolation ''rank_changes'' ''id''), d')
                              else if \<not> references_battle_ids d b'
                              then (Inl (ForeignKeyViolation ''rank_changes''
                                           ''battle_id''), d')
                              else (Inr [r],
                                    d\<lparr>rank_changes :=
                                        Some (t'\<lparr>rows := rows t' @ [r]\<rparr>)\<rparr>))))
          | _ \<Rightarrow> (Inl ProtocolViolation, d)))"

text \<open>\<open>SELECT * FROM awards_catalog ORDER BY id ASC\<close>\<close>

definition select_awards_catalog_order_by_id ::
  "(db, catalog_row list) statement" where
  "select_awards_catalog_order_by_id now d =
     (case awards_catalog d of
        None \<Rightarrow> (Inl (UndefinedTable ''awards_catalog''), d)
      | Some t \<Rightarrow> (Inr (sort_key ac_id (rows t)), d))"

text \<open>\<open>INSERT INTO awards_catalog (code, name, description, icon_url)
  VALUES ($1,$2,$3,$4) RETURNING *\<close>. \<open>code\<close> is \<open>UNIQUE\<close>, which NULL passes.\<close>

definition insert_into_awards_catalog ::
  "jsval list \<Rightarrow> (db, catalog_row list) statement" where
  "insert_into_awards_catalog ps now d =
     (case awards_catalog d of
        None \<Rightarrow> (Inl (UndefinedTable ''awards_catalog''), d)
      | Some t \<Rightarrow>
         (case ps of
            [code, name, description, icon_url] \<Rightarrow>
              (case nextval ''awards_catalog_id_seq'' t of
                 Inl e \<Rightarrow> (Inl e, d)
               | Inr (i, t') \<Rightarrow>
                  (let r = \<lparr>ac_id = i, ac_code = prepareValue code,
                            ac_name = prepareValue name,
                            ac_description = prepareValue description,
                            ac_icon_url = prepareValue icon_url\<rparr>;
                       d' = d\<lparr>awards_catalog := Some t'\<rparr>
                   in if ac_name r = None
                      then (Inl (NotNullViolation ''awards_catalog'' ''name''), d')
                      else if i \<in> set (map ac_id (rows t'))
                      then (Inl (UniqueViolation ''awards_catalog'' ''id''), d')
                      else if ac_code r \<noteq> None \<and> ac_code r \<in> set (map ac_code (rows t'))
                      then (Inl (UniqueViolation ''awards_catalog'' ''code''), d')
                      else (Inr [r],
                            d\<lparr>awards_catalog := Some (t'\<lparr>rows := rows t' @ [r]\<rparr>)\<rparr>)))
          | _ \<Rightarrow> (Inl ProtocolViolation, d)))"

text \<open>\<open>INSERT INTO awards (battle_id, award_id, notes) VALUES ($1,$2,$3) RETURNING *\<close>\<close>

definition insert_into_awards ::
  "pg_input \<Rightarrow> jsval list \<Rightarrow> (db, award_row list) statement" where
  "insert_into_awards pg ps now d =
     (case awards d of
        None \<Rightarrow> (Inl (UndefinedTable ''awards''), d)
      | Some t \<Rightarrow>
         (case ps of
            [battle_id, award_id, notes] \<Rightarrow>
              (case bind_int4 pg battle_id of
                 Inl e \<Rightarrow> (Inl e, d)
               | Inr b \<Rightarrow>
                  (case bind_int4 pg award_id of
                     Inl e \<Rightarrow> (Inl e, d)
                   | Inr a \<Rightarrow>
                      (case nextval ''awards_id_seq'' t of
                         Inl e \<Rightarrow> (Inl e, d)
                       | Inr (i, t') \<Rightarrow>
                          (let r = \<lparr>aw_id = i, aw_battle_id = b, aw_award_id = a,
                                    aw_notes = prepareValue notes,
                                    aw_granted_at = Some now\<rparr>;
                               d' = d\<lparr>awards := Some t'\<rparr>
                           in case (b, a) of
                                (None, _) \<Rightarrow>
                                  (Inl (NotNullViolation ''awards'' ''battle_id''), d')
                              | (Some _, None) \<Rightarrow>
                                  (Inl (NotNullViolation ''awards'' ''award_id''), d')
                              | (Some b', Some a') \<Rightarrow>
                                  if i \<in> set (map aw_id (rows t'))
                                  then (Inl (UniqueViolation ''awards'' ''id''), d')
                                  else if \<not> references_battle_ids d b'
                                  then (Inl (ForeignKeyViolation ''awards'' ''battle_id''), d')
                                  else if \<not> references_awards_catalog d a'
                                  then (Inl (ForeignKeyViolation ''awards'' ''award_id''), d')
                                  else (Inr [r],
                                        d\<lparr>awards := Some (t'\<lparr>rows := rows t' @ [r]\<rparr>)\<rparr>)))))
          | _ \<Rightarrow> (Inl ProtocolViolation, d)))"

text \<open>\<open>SELECT a.*, c.name AS award_name, c.icon_url FROM awards a
  JOIN awards_catalog c ON a.award_id = c.id WHERE a.battle_id = $1
  ORDER BY granted_at DESC\<close>\<close>

record award_with_catalog = award_row +
  award_name :: "string option"
  icon_url :: "string option"

definition join_catalog :: "award_row \<Rightarrow> catalog_row \<Rightarrow> award_with_catalog" where
  "join_catalog a c = award_row.extend a
     (award_with_catalog.fields (ac_name c) (ac_icon_url c))"

definition select_awards_join_catalog ::
  "pg_input \<Rightarrow> jsval list \<Rightarrow> (db, award_with_catalog list) statement" where
  "select_awards_join_catalog pg ps now d =
     (case awards d of
        None \<Rightarrow> (Inl (UndefinedTable ''awards''), d)
      | Some ta \<Rightarrow>
         (case awards_catalog d of
            None \<Rightarrow> (Inl (UndefinedTable ''awards_catalog''), d)
          | Some tc \<Rightarrow>
             (case ps of
                [battle_id] \<Rightarrow>
                  (case bind_int4 pg battle_id of
                     Inl e \<Rightarrow> (Inl e, d)
                   | Inr b \<Rightarrow>
                      (Inr (order_by_desc aw_granted_at
                              (concat (map (\<lambda>a. map (join_catalog a)
                                                  (filter (\<lambda>c. aw_award_id a = Some (ac_id c))
                                                     (rows tc)))
                                        (filter (\<lambda>a. aw_battle_id a \<noteq> None \<and> aw_battle_id a = b)
                                           (rows ta))))), d))
              | _ \<Rightarrow> (Inl ProtocolViolation, d))))"

text \<open>\<open>SELECT NOW()\<close>\<close>

definition select_now :: "(db, timestamp) statement" where
  "select_now now d = (Inr now, d)"

subsection \<open>\<open>CREATE TABLE IF NOT EXISTS\<close>\<close>

text \<open>A table that exists is left as it is. A new table is empty and its sequence
  starts at 1; the tables it references must exist.\<close>

definition empty_table :: "'r table" where
  "empty_table = \<lparr>rows = [], next_id = 1\<rparr>"

definition create_table_battle_ids :: "(db, unit) statement" where
  "create_table_battle_ids now d =
     (case battle_ids d of
        Some _ \<Rightarrow> (Inr (), d)
      | None \<Rightarrow> (Inr (), d\<lparr>battle_ids := Some empty_table\<rparr>))"

definition create_table_commendations :: "(db, unit) statement" where
  "create_table_commendations now d =
     (case commendations d of
        Some _ \<Rightarrow> (Inr (), d)
      | None \<Rightarrow>
         if battle_ids d = None then (Inl (UndefinedTable ''battle_ids''), d)
         else (Inr (), d\<lparr>commendations := Some empty_table\<rparr>))"

definition create_table_rank_changes :: "(db, unit) statement" where
  "create_table_rank_changes now d =
     (case rank_changes d of
        Some _ \<Rightarrow> (Inr (), d)
      | None \<Rightarrow>
         if battle_ids d = None then (Inl (UndefinedTable ''battle_ids''), d)
         else (Inr (), d\<lparr>rank_changes := Some empty_table\<rparr>))"

definition create_table_awards_catalog :: "(db, unit) statement" where
  "create_table_awards_catalog now d =
     (case awards_catalog d of
        Some _ \<Rightarrow> (Inr (), d)
      | None \<Rightarrow> (Inr (), d\<lparr>awards_catalog := Some empty_table\<rparr>))"

definition create_table_awards :: "(db, unit) statement" where
  "create_table_awards now d =
     (case awards d of
        Some _ \<Rightarrow> (Inr (), d)
      | None \<Rightarrow>
         if battle_ids d = None then (Inl (UndefinedTable ''battle_ids''), d)
         else if awards_catalog d = None then (Inl (UndefinedTable ''awards_catalog''), d)
         else (Inr (), d\<lparr>awards := Some empty_table\<rparr>))"

section \<open>The legacy store\<close>

text \<open>
  Modelled from the spec: the declaration of the table \<open>battle_ids\<close> of the legacy
  server, which the server does not create and the source does not contain. Its
  columns are those that the statements of the source name; \<open>id\<close> is the primary key
  (unique, not null, an \<open>integer\<close>), the other columns hold the parameter texts as they
  are sent.
\<close>

record legacy_row =
  lg_id :: int
  lg_name :: "string option"
  lg_callsign :: "string option"
  lg_role :: "string option"
  lg_status :: "string option"
  lg_strikes :: "string option"
  lg_avatar :: "string option"
  lg_notes :: "string option"

text \<open>A sequence object: the value the next \<open>nextval\<close> returns and its bounds.\<close>

record sequence =
  seq_next :: int
  seq_min :: int
  seq_max :: int

text \<open>\<open>lg_seq\<close> is the relation \<open>battle_ids_id_seq\<close> if it exists, \<open>lg_id_default\<close>
  says whether the default of column \<open>id\<close> is \<open>nextval('battle_ids_id_seq')\<close>.\<close>

record legacy_db =
  lg_rows :: "legacy_row list"
  lg_seq :: "sequence option"
  lg_id_default :: bool

section \<open>Responses\<close>

datatype row =
    BattleRow battle_row
  | CommendationRow commendation_row
  | RankChangeRow rank_change_row
  | CatalogRow catalog_row
  | AwardRow award_row
  | AwardWithCatalogRow award_with_catalog
  | LegacyRow legacy_row

datatype cors_error = CorsBlocked string

text \<open>
  The body of a response. \<open>JsonUndefined\<close> is what \<open>res.json(undefined)\<close> sends: an empty
  body. \<open>JsonError e\<close> is \<open>{ error: err.message }\<close>, \<open>JsonErrorText s\<close> is \<open>{ error: s }\<close>
  with a fixed text, \<open>JsonSuccess\<close> is \<open>{ success: true }\<close>. \<open>ErrorPage\<close> is the page of
  Express's default error handler.
\<close>

datatype res_body =
    JsonUndefined
  | JsonRow row
  | JsonRows "row list"
  | JsonSuccess
  | JsonError pg_error
  | JsonErrorText string
  | JsonHealthUp timestamp
  | JsonHealthDown pg_error
  | JsonRunning
  | ErrorPage cors_error

record response =
  res_status :: nat
  res_sent :: res_body

definition res_json :: "res_body \<Rightarrow> response" where
  "res_json j = \<lparr>res_status = 200, res_sent = j\<rparr>"

definition res_status_json :: "nat \<Rightarrow> res_body \<Rightarrow> response" where
  "res_status_json c j = \<lparr>res_status = c, res_sent = j\<rparr>"

text \<open>\<open>res.json(result.rows[0])\<close>: with no row, \<open>rows[0]\<close> is \<open>undefined\<close>.\<close>

definition rows0 :: "('r \<Rightarrow> row) \<Rightarrow> 'r list \<Rightarrow> res_body" where
  "rows0 mk rs = (case rs of [] \<Rightarrow> JsonUndefined | r # _ \<Rightarrow> JsonRow (mk r))"

section \<open>The server with the five tables\<close>

subsection \<open>\<open>initTables\<close>\<close>

text \<open>The five statements run in one \<open>try\<close> block: the first that fails ends the
  routine, the \<open>catch\<close> logs the error and returns.\<close>

definition initTables :: "db world \<Rightarrow> db world" where
  "initTables w =
     (case pool_query create_table_battle_ids w of
        (Inl err, w1) \<Rightarrow> w1
      | (Inr _, w1) \<Rightarrow>
     (case pool_query create_table_commendations w1 of
        (Inl err, w2) \<Rightarrow> w2
      | (Inr _, w2) \<Rightarrow>
     (case pool_query create_table_rank_changes w2 of
        (Inl err, w3) \<Rightarrow> w3
      | (Inr _, w3) \<Rightarrow>
     (case pool_query create_table_awards_catalog w3 of
        (Inl err, w4) \<Rightarrow> w4
      | (Inr _, w4) \<Rightarrow>
     (case pool_query create_table_awards w4 of
        (Inl err, w5) \<Rightarrow> w5
      | (Inr _, w5) \<Rightarrow> w5)))))"

subsection \<open>Handlers\<close>

text \<open>\<open>GET /\<close>\<close>

definition get_root :: "db world \<Rightarrow> response \<times> db world" where
  "get_root w =
     (case pool_query select_now w of
        (Inl err, w') \<Rightarrow> (res_json (JsonHealthDown err), w')
      | (Inr t, w') \<Rightarrow> (res_json (JsonHealthUp t), w'))"

text \<open>\<open>GET /api/battle\<close>\<close>

definition get_api_battle :: "db world \<Rightarrow> response \<times> db world" where
  "get_api_battle w =
     (case pool_query select_battle_ids_order_by_created_at w of
        (Inl err, w') \<Rightarrow> (res_status_json 500 (JsonError err), w')
      | (Inr rs, w') \<Rightarrow> (res_json (JsonRows (map BattleRow rs)), w'))"

text \<open>\<open>GET /api/battle/:id\<close>\<close>

definition get_api_battle_id :: "pg_input \<Rightarrow> string \<Rightarrow> db world \<Rightarrow> response \<times> db world" where
  "get_api_battle_id pg ident w =
     (case pool_query (select_battle_ids_where_id pg [JStr ident]) w of
        (Inl err, w') \<Rightarrow> (res_status_json 500 (JsonError err), w')
      | (Inr rs, w') \<Rightarrow> (res_json (rows0 BattleRow rs), w'))"

text \<open>\<open>POST /api/battle\<close>\<close>

definition post_api_battle :: "pg_input \<Rightarrow> body \<Rightarrow> db world \<Rightarrow> response \<times> db world" where
  "post_api_battle pg b w =
     (let name = field b ''name''; callsign = field b ''callsign''; role = field b ''role'';
          rank = field b ''rank''; specialty = field b ''specialty'';
          ethnicity = field b ''ethnicity''; dob = field b ''dob'';
          strikes_level = field b ''strikes_level''; notes = field b ''notes'';
          avatar = field b ''avatar''; status = field b ''status''
      in case pool_query (insert_into_battle_ids pg
                [name, callsign, role, rank, specialty, ethnicity, dob,
                 js_or strikes_level (JStr ''0''), notes, avatar,
                 js_or status (JStr ''active'')]) w of
           (Inl err, w') \<Rightarrow> (res_status_json 500 (JsonError err), w')
         | (Inr rs, w') \<Rightarrow> (res_json (rows0 BattleRow rs), w'))"

text \<open>\<open>PUT /api/battle/:id\<close>\<close>

definition put_api_battle_id ::
  "pg_input \<Rightarrow> string \<Rightarrow> body \<Rightarrow> db world \<Rightarrow> response \<times> db world" where
  "put_api_battle_id pg ident b w =
     (let name = field b ''name''; callsign = field b ''callsign''; role = field b ''role'';
          rank = field b ''rank''; specialty = field b ''specialty'';
          ethnicity = field b ''ethnicity''; dob = field b ''dob'';
          strikes_level = field b ''strikes_level''; notes = field b ''notes'';
          avatar = field b ''avatar''; status = field b ''status''
      in case pool_query (update_battle_ids pg
                [name, callsign, role, rank, specialty, ethnicity, dob, strikes_level,
                 notes, avatar, status, JStr ident]) w of
           (Inl err, w') \<Rightarrow> (res_status_json 500 (JsonError err), w')
         | (Inr rs, w') \<Rightarrow> (res_json (rows0 BattleRow rs), w'))"

text \<open>\<open>DELETE /api/battle/:id\<close>\<close>

definition delete_api_battle_id ::
  "pg_input \<Rightarrow> string \<Rightarrow> db world \<Rightarrow> response \<times> db world" where
  "delete_api_battle_id pg ident w =
     (case pool_query (delete_from_battle_ids pg [JStr ident]) w of
        (Inl err, w') \<Rightarrow> (res_status_json 500 (JsonError err), w')
      | (Inr _, w') \<Rightarrow> (res_json JsonSuccess, w'))"

text \<open>\<open>GET /api/awards/catalog\<close>\<close>

definition get_api_awards_catalog :: "db world \<Rightarrow> response \<times> db world" where
  "get_api_awards_catalog w =
     (case pool_query select_awards_catalog_order_by_id w of
        (Inl err, w') \<Rightarrow> (res_status_json 500 (JsonError err), w')
      | (Inr rs, w') \<Rightarrow> (res_json (JsonRows (map CatalogRow rs)), w'))"

text \<open>\<open>POST /api/awards/catalog\<close>\<close>

definition post_api_awards_catalog :: "body \<Rightarrow> db world \<Rightarrow> response \<times> db world" where
  "post_api_awards_catalog b w =
     (let code = field b ''code''; name = field b ''name'';
          description = field b ''description''; icon_url = field b ''icon_url''
      in case pool_query (insert_into_awards_catalog [code, name, description, icon_url]) w of
           (Inl err, w') \<Rightarrow> (res_status_json 500 (JsonError err), w')
         | (Inr rs, w') \<Rightarrow> (res_json (rows0 CatalogRow rs), w'))"

text \<open>\<open>POST /api/awards/:battle_id\<close>\<close>

definition post_api_awards ::
  "pg_input \<Rightarrow> string \<Rightarrow> body \<Rightarrow> db world \<Rightarrow> response \<times> db world" where
  "post_api_awards pg battle_id b w =
     (let award_id = field b ''award_id''; notes = field b ''notes''
      in case pool_query (insert_into_awards pg [JStr battle_id, award_id, notes]) w of
           (Inl err, w') \<Rightarrow> (res_status_json 500 (JsonError err), w')
         | (Inr rs, w') \<Rightarrow> (res_json (rows0 AwardRow rs), w'))"

text \<open>\<open>GET /api/awards/:battle_id\<close>\<close>

definition get_api_awards :: "pg_input \<Rightarrow> string \<Rightarrow> db world \<Rightarrow> response \<times> db world" where
  "get_api_awards pg battle_id w =
     (case pool_query (select_awards_join_catalog pg [JStr battle_id]) w of
        (Inl err, w') \<Rightarrow> (res_status_json 500 (JsonError err), w')
      | (Inr rs, w') \<Rightarrow> (res_json (JsonRows (map AwardWithCatalogRow rs)), w'))"

text \<open>\<open>POST /api/battle/:id/rank-change\<close>\<close>

definition post_api_battle_rank_change ::
  "pg_input \<Rightarrow> string \<Rightarrow> body \<Rightarrow> db world \<Rightarrow> response \<times> db world" where
  "post_api_battle_rank_change pg ident b w =
     (let change_type = field b ''change_type''; from_rank = field b ''from_rank'';
          to_rank = field b ''to_rank''; reason = field b ''reason''
      in case pool_query (insert_into_rank_changes pg
                [JStr ident, change_type, from_rank, to_rank, reason]) w of
           (Inl err, w') \<Rightarrow> (res_status_json 500 (JsonError err), w')
         | (Inr rs, w') \<Rightarrow> (res_json (rows0 RankChangeRow rs), w'))"

text \<open>\<open>POST /api/battle/:id/commendation\<close>: two calls of \<open>pool.query\<close> in one \<open>try\<close>.\<close>

definition post_api_battle_commendation ::
  "pg_input \<Rightarrow> string \<Rightarrow> body \<Rightarrow> db world \<Rightarrow> response \<times> db world" where
  "post_api_battle_commendation pg ident b w =
     (let level = field b ''level''; notes = field b ''notes''
      in case pool_query (insert_into_commendations pg [JStr ident, level, notes]) w of
           (Inl err, w1) \<Rightarrow> (res_status_json 500 (JsonError err), w1)
         | (Inr rs, w1) \<Rightarrow>
            (case pool_query (update_commendations_count pg [JStr ident]) w1 of
               (Inl err, w2) \<Rightarrow> (res_status_json 500 (JsonError err), w2)
             | (Inr _, w2) \<Rightarrow> (res_json (rows0 CommendationRow rs), w2)))"

subsection \<open>Routes\<close>

datatype request =
    GET_root
  | GET_battle
  | GET_battle_id string
  | POST_battle body
  | PUT_battle_id string body
  | DELETE_battle_id string
  | GET_awards_catalog
  | POST_awards_catalog body
  | POST_awards string body
  | GET_awards string
  | POST_rank_change string body
  | POST_commendation string body

fun handle :: "pg_input \<Rightarrow> request \<Rightarrow> db world \<Rightarrow> response \<times> db world" where
  "handle pg GET_root w = get_root w"
| "handle pg GET_battle w = get_api_battle w"
| "handle pg (GET_battle_id i) w = get_api_battle_id pg i w"
| "handle pg (POST_battle b) w = post_api_battle pg b w"
| "handle pg (PUT_battle_id i b) w = put_api_battle_id pg i b w"
| "handle pg (DELETE_battle_id i) w = delete_api_battle_id pg i w"
| "handle pg GET_awards_catalog w = get_api_awards_catalog w"
| "handle pg (POST_awards_catalog b) w = post_api_awards_catalog b w"
| "handle pg (POST_awards i b) w = post_api_awards pg i b w"
| "handle pg (GET_awards i) w = get_api_awards pg i w"
| "handle pg (POST_rank_change i b) w = post_api_battle_rank_change pg i b w"
| "handle pg (POST_commendation i b) w = post_api_battle_commendation pg i b w"

text \<open>Requests served one after the other.\<close>

fun serve_all :: "pg_input \<Rightarrow> request list \<Rightarrow> db world \<Rightarrow> response list \<times> db world" where
  "serve_all pg [] w = ([], w)"
| "serve_all pg (r # rs) w =
     (case handle pg r w of
        (res, w') \<Rightarrow> (case serve_all pg rs w' of (ress, w'') \<Rightarrow> (res # ress, w'')))"

subsection \<open>The cross-origin policy\<close>

text \<open>
  The tokens of the array literal that initializes \<open>allowedOrigins\<close>, as the source has
  them: between the second and the third string there is a line break and no comma.
\<close>

datatype token = LBRACK | RBRACK | COMMA | STRING string

definition allowedOrigins_literal :: "token list" where
  "allowedOrigins_literal =
     [LBRACK,
        STRING ''https://redroofcomp.up.railway.app'', COMMA,
        STRING ''http://localhost:3000'',
        STRING ''database4-production.up.railway.app'',
      RBRACK]"

text \<open>
  The grammar of an array literal over string literals: elements separated by commas,
  a comma with no element before it leaves a hole (\<open>None\<close>), a comma after the last
  element adds nothing. Two elements with no comma between them are a syntax error; a
  line break there does not help, since the semicolon that would be inserted is not
  allowed inside the brackets either.
\<close>

datatype syntax_error = UnexpectedToken token | UnexpectedEnd

fun element_list :: "token list \<Rightarrow> syntax_error + string option list" where
  "element_list [] = Inl UnexpectedEnd"
| "element_list (RBRACK # ts) = (case ts of [] \<Rightarrow> Inr [] | t # _ \<Rightarrow> Inl (UnexpectedToken t))"
| "element_list (COMMA # ts) =
     (case element_list ts of Inl e \<Rightarrow> Inl e | Inr xs \<Rightarrow> Inr (None # xs))"
| "element_list (LBRACK # ts) = Inl (UnexpectedToken LBRACK)"
| "element_list [STRING s] = Inl UnexpectedEnd"
| "element_list (STRING s # RBRACK # ts) =
     (case ts of [] \<Rightarrow> Inr [Some s] | t # _ \<Rightarrow> Inl (UnexpectedToken t))"
| "element_list (STRING s # COMMA # ts) =
     (case element_list ts of Inl e \<Rightarrow> Inl e | Inr xs \<Rightarrow> Inr (Some s # xs))"
| "element_list (STRING s # t # ts) = Inl (UnexpectedToken t)"

definition array_literal :: "token list \<Rightarrow> syntax_error + string option list" where
  "array_literal ts =
     (case ts of
        [] \<Rightarrow> Inl UnexpectedEnd
      | LBRACK # us \<Rightarrow> element_list us
      | t # _ \<Rightarrow> Inl (UnexpectedToken t))"

text \<open>The \<open>origin\<close> function of the options, over the array that \<open>allowedOrigins\<close> holds:
  \<open>origin\<close> is the request's \<open>Origin\<close> header, \<open>None\<close> when the request has none. \<open>!origin\<close>
  holds for no header and for an empty one.\<close>

definition origin :: "string option list \<Rightarrow> string option \<Rightarrow> cors_error + bool" where
  "origin allowedOrigins orig =
     (case orig of
        None \<Rightarrow> Inr True
      | Some s \<Rightarrow> if s = [] \<or> Some s \<in> set allowedOrigins then Inr True
                  else Inl (CorsBlocked s))"

record cors_headers =
  access_control_allow_origin :: "string option"
  access_control_allow_credentials :: bool

text \<open>The middleware chain of a request: \<open>cors\<close> with \<open>credentials: true\<close>, then the
  route. An error of the \<open>origin\<close> function goes to \<open>next(err)\<close>, which skips every
  route and ends in Express's error handler. For an allowed request \<open>cors\<close> reflects
  the request's origin, when it has one that is not empty, and allows credentials.\<close>

definition reflect_origin :: "string option \<Rightarrow> string option" where
  "reflect_origin orig =
     (case orig of None \<Rightarrow> None | Some s \<Rightarrow> if s = [] then None else Some s)"

definition app ::
  "pg_input \<Rightarrow> string option list \<Rightarrow> string option \<Rightarrow> request \<Rightarrow> db world
     \<Rightarrow> (cors_headers option \<times> response) \<times> db world" where
  "app pg allowedOrigins orig req w =
     (case origin allowedOrigins orig of
        Inl err \<Rightarrow> ((None, \<lparr>res_status = 500, res_sent = ErrorPage err\<rparr>), w)
      | Inr _ \<Rightarrow>
         (case handle pg req w of
            (res, w') \<Rightarrow>
              ((Some \<lparr>access_control_allow_origin = reflect_origin orig,
                      access_control_allow_credentials = True\<rparr>, res), w')))"

text \<open>
  Loading the module. Node parses the whole file before it runs any of it: with a
  syntax error in the file nothing runs, no table is created and no port is opened.
  Otherwise the application answers requests with the array the literal denotes.
\<close>

definition load ::
  "pg_input \<Rightarrow> syntax_error + (string option \<Rightarrow> request \<Rightarrow> db world
     \<Rightarrow> (cors_headers option \<times> response) \<times> db world)" where
  "load pg =
     (case array_literal allowedOrigins_literal of
        Inl e \<Rightarrow> Inl e
      | Inr allowedOrigins \<Rightarrow> Inr (app pg allowedOrigins))"

section \<open>The legacy server\<close>

subsection \<open>Statements\<close>

text \<open>\<open>SELECT * FROM battle_ids ORDER BY id DESC\<close>\<close>

definition legacy_select_order_by_id_desc :: "(legacy_db, legacy_row list) statement" where
  "legacy_select_order_by_id_desc now d = (Inr (sort_key (\<lambda>r. - lg_id r) (lg_rows d)), d)"

text \<open>The default of column \<open>id\<close> on an insert that does not name the column.\<close>

definition legacy_id_default :: "legacy_db \<Rightarrow> pg_error + int \<times> legacy_db" where
  "legacy_id_default d =
     (if \<not> lg_id_default d then Inl (NotNullViolation ''battle_ids'' ''id'')
      else case lg_seq d of
             None \<Rightarrow> Inl (UndefinedTable ''battle_ids_id_seq'')
           | Some s \<Rightarrow>
              if seq_max s < seq_next s then Inl (SequenceLimit ''battle_ids_id_seq'')
              else Inr (seq_next s, d\<lparr>lg_seq := Some (s\<lparr>seq_next := seq_next s + 1\<rparr>)\<rparr>))"

text \<open>\<open>INSERT INTO battle_ids (name, callsign, role, status, strikes, avatar, notes)
  VALUES ($1,...,$7) RETURNING *\<close>\<close>

definition legacy_insert :: "jsval list \<Rightarrow> (legacy_db, legacy_row list) statement" where
  "legacy_insert ps now d =
     (case ps of
        [name, callsign, role, status, strikes, avatar, notes] \<Rightarrow>
          (case legacy_id_default d of
             Inl e \<Rightarrow> (Inl e, d)
           | Inr (i, d') \<Rightarrow>
              (let r = \<lparr>lg_id = i, lg_name = prepareValue name,
                        lg_callsign = prepareValue callsign, lg_role = prepareValue role,
                        lg_status = prepareValue status, lg_strikes = prepareValue strikes,
                        lg_avatar = prepareValue avatar, lg_notes = prepareValue notes\<rparr>
               in if i \<in> set (map lg_id (lg_rows d'))
                  then (Inl (UniqueViolation ''battle_ids'' ''id''), d')
                  else (Inr [r], d'\<lparr>lg_rows := lg_rows d' @ [r]\<rparr>)))
      | _ \<Rightarrow> (Inl ProtocolViolation, d))"

text \<open>\<open>UPDATE battle_ids SET name=$1, callsign=$2, role=$3, status=$4, strikes=$5,
  avatar=$6, notes=$7 WHERE id=$8 RETURNING *\<close>\<close>

definition legacy_update ::
  "pg_input \<Rightarrow> jsval list \<Rightarrow> (legacy_db, legacy_row list) statement" where
  "legacy_update pg ps now d =
     (case ps of
        [name, callsign, role, status, strikes, avatar, notes, ident] \<Rightarrow>
          (case bind_int4 pg ident of
             Inl e \<Rightarrow> (Inl e, d)
           | Inr i \<Rightarrow>
              (let hit = (\<lambda>r. Some (lg_id r) = i);
                   set_cols = (\<lambda>r. r\<lparr>lg_name := prepareValue name,
                        lg_callsign := prepareValue callsign, lg_role := prepareValue role,
                        lg_status := prepareValue status, lg_strikes := prepareValue strikes,
                        lg_avatar := prepareValue avatar, lg_notes := prepareValue notes\<rparr>)
               in (Inr (map set_cols (filter hit (lg_rows d))),
                   d\<lparr>lg_rows := map (\<lambda>r. if hit r then set_cols r else r) (lg_rows d)\<rparr>)))
      | _ \<Rightarrow> (Inl ProtocolViolation, d))"

text \<open>\<open>DELETE FROM battle_ids WHERE id=$1\<close>\<close>

definition legacy_delete :: "pg_input \<Rightarrow> jsval list \<Rightarrow> (legacy_db, unit) statement" where
  "legacy_delete pg ps now d =
     (case ps of
        [ident] \<Rightarrow>
          (case bind_int4 pg ident of
             Inl e \<Rightarrow> (Inl e, d)
           | Inr i \<Rightarrow> (Inr (), d\<lparr>lg_rows := filter (\<lambda>r. Some (lg_id r) \<noteq> i) (lg_rows d)\<rparr>))
      | _ \<Rightarrow> (Inl ProtocolViolation, d))"

subsection \<open>\<open>ensureIdSequence\<close>\<close>

text \<open>The aggregate \<open>MAX\<close>, NULL over no rows, and \<open>COALESCE\<close>.\<close>

definition sql_max :: "int list \<Rightarrow> int option" where
  "sql_max xs = (case xs of [] \<Rightarrow> None | x # ys \<Rightarrow> Some (fold max ys x))"

definition coalesce :: "int option \<Rightarrow> int \<Rightarrow> int" where
  "coalesce v d = (case v of None \<Rightarrow> d | Some x \<Rightarrow> x)"

text \<open>
  The \<open>DO\<close> block, one statement and so one transaction. \<open>max_id\<close> is an \<open>integer\<close>: a sum
  above 2147483647 is rejected. \<open>CREATE SEQUENCE ... START n\<close> makes a sequence with
  the bounds 1 and 9223372036854775807 and rejects a start outside them;
  \<open>ALTER SEQUENCE ... RESTART WITH n\<close> keeps the bounds of the sequence and rejects a
  value outside them.
\<close>

definition do_block :: "(legacy_db, unit) statement" where
  "do_block now d =
     (let m = coalesce (sql_max (map lg_id (lg_rows d))) 0
      in if 2147483647 < m + 1 then (Inl (NumericValueOutOfRange ''integer''), d)
         else
           (let max_id = m + 1
            in case lg_seq d of
                 None \<Rightarrow>
                   if max_id < 1 then (Inl (InvalidParameterValue ''START''), d)
                   else (Inr (),
                         d\<lparr>lg_seq := Some \<lparr>seq_next = max_id, seq_min = 1,
                                            seq_max = 9223372036854775807\<rparr>,
                           lg_id_default := True\<rparr>)
               | Some s \<Rightarrow>
                   if max_id < seq_min s \<or> seq_max s < max_id
                   then (Inl (InvalidParameterValue ''RESTART''), d)
                   else (Inr (), d\<lparr>lg_seq := Some (s\<lparr>seq_next := max_id\<rparr>)\<rparr>)))"

text \<open>The \<open>catch\<close> logs the error; either way the routine returns.\<close>

definition ensureIdSequence :: "legacy_db world \<Rightarrow> legacy_db world" where
  "ensureIdSequence w =
     (case pool_query do_block w of
        (Inl err, w') \<Rightarrow> w'
      | (Inr _, w') \<Rightarrow> w')"

text \<open>The id the next insert that leaves \<open>id\<close> to its default gets.\<close>

definition next_generated_id :: "legacy_db \<Rightarrow> int option" where
  "next_generated_id d =
     (case legacy_id_default d of Inl e \<Rightarrow> None | Inr (i, d') \<Rightarrow> Some i)"

subsection \<open>Handlers\<close>

definition Chyba_pri_nacitani_dat :: string where
  "Chyba_pri_nacitani_dat =
     ''Chyba p'' @ [CHR 0xC5, CHR 0x99] @ ''i na'' @ [CHR 0xC4, CHR 0x8D, CHR 0xC3, CHR 0xAD]
       @ ''t'' @ [CHR 0xC3, CHR 0xA1] @ ''n'' @ [CHR 0xC3, CHR 0xAD] @ '' dat''"

definition Chyba_pri_ukladani_operativce :: string where
  "Chyba_pri_ukladani_operativce =
     ''Chyba p'' @ [CHR 0xC5, CHR 0x99] @ ''i ukl'' @ [CHR 0xC3, CHR 0xA1] @ ''d''
       @ [CHR 0xC3, CHR 0xA1] @ ''n'' @ [CHR 0xC3, CHR 0xAD] @ '' operativce''"

definition Chyba_pri_uprave_operativce :: string where
  "Chyba_pri_uprave_operativce =
     ''Chyba p'' @ [CHR 0xC5, CHR 0x99] @ ''i '' @ [CHR 0xC3, CHR 0xBA] @ ''prav''
       @ [CHR 0xC4, CHR 0x9B] @ '' operativce''"

definition Chyba_pri_mazani_operativce :: string where
  "Chyba_pri_mazani_operativce =
     ''Chyba p'' @ [CHR 0xC5, CHR 0x99] @ ''i maz'' @ [CHR 0xC3, CHR 0xA1] @ ''n''
       @ [CHR 0xC3, CHR 0xAD] @ '' operativce''"

text \<open>\<open>GET /\<close> does not call the store.\<close>

definition legacy_get_root :: "legacy_db world \<Rightarrow> response \<times> legacy_db world" where
  "legacy_get_root w = (res_json JsonRunning, w)"

text \<open>\<open>GET /api/battle\<close>\<close>

definition legacy_get_api_battle :: "legacy_db world \<Rightarrow> response \<times> legacy_db world" where
  "legacy_get_api_battle w =
     (case pool_query legacy_select_order_by_id_desc w of
        (Inl err, w') \<Rightarrow> (res_status_json 500 (JsonErrorText Chyba_pri_nacitani_dat), w')
      | (Inr rs, w') \<Rightarrow> (res_json (JsonRows (map LegacyRow rs)), w'))"

text \<open>\<open>POST /api/battle\<close>\<close>

definition legacy_post_api_battle ::
  "body \<Rightarrow> legacy_db world \<Rightarrow> response \<times> legacy_db world" where
  "legacy_post_api_battle b w =
     (let name = field b ''name''; callsign = field b ''callsign''; role = field b ''role'';
          status = field b ''status''; strikes = field b ''strikes'';
          avatar = field b ''avatar''; notes = field b ''notes''
      in case pool_query (legacy_insert
                [name, callsign, role, status, js_or strikes (JNum 0), avatar, notes]) w of
           (Inl err, w') \<Rightarrow>
             (res_status_json 500 (JsonErrorText Chyba_pri_ukladani_operativce), w')
         | (Inr rs, w') \<Rightarrow> (res_json (rows0 LegacyRow rs), w'))"

text \<open>\<open>PUT /api/battle/:id\<close>\<close>

definition legacy_put_api_battle_id ::
  "pg_input \<Rightarrow> string \<Rightarrow> body \<Rightarrow> legacy_db world \<Rightarrow> response \<times> legacy_db world" where
  "legacy_put_api_battle_id pg ident b w =
     (let name = field b ''name''; callsign = field b ''callsign''; role = field b ''role'';
          status = field b ''status''; strikes = field b ''strikes'';
          avatar = field b ''avatar''; notes = field b ''notes''
      in case pool_query (legacy_update pg
                [name, callsign, role, status, strikes, avatar, notes, JStr ident]) w of
           (Inl err, w') \<Rightarrow>
             (res_status_json 500 (JsonErrorText Chyba_pri_uprave_operativce), w')
         | (Inr rs, w') \<Rightarrow> (res_json (rows0 LegacyRow rs), w'))"

text \<open>\<open>DELETE /api/battle/:id\<close>\<close>

definition legacy_delete_api_battle_id ::
  "pg_input \<Rightarrow> string \<Rightarrow> legacy_db world \<Rightarrow> response \<times> legacy_db world" where
  "legacy_delete_api_battle_id pg ident w =
     (case pool_query (legacy_delete pg [JStr ident]) w of
        (Inl err, w') \<Rightarrow>
          (res_status_json 500 (JsonErrorText Chyba_pri_mazani_operativce), w')
      | (Inr _, w') \<Rightarrow> (res_json JsonSuccess, w'))"

datatype legacy_request =
    L_GET_root
  | L_GET_battle
  | L_POST_battle body
  | L_PUT_battle_id string body
  | L_DELETE_battle_id string

fun legacy_handle ::
  "pg_input \<Rightarrow> legacy_request \<Rightarrow> legacy_db world \<Rightarrow> response \<times> legacy_db world" where
  "legacy_handle pg L_GET_root w = legacy_get_root w"
| "legacy_handle pg L_GET_battle w = legacy_get_api_battle w"
| "legacy_handle pg (L_POST_battle b) w = legacy_post_api_battle b w"
| "legacy_handle pg (L_PUT_battle_id i b) w = legacy_put_api_battle_id pg i b w"
| "legacy_handle pg (L_DELETE_battle_id i) w = legacy_delete_api_battle_id pg i w"

subsection \<open>Startup and the event loop\<close>

text \<open>
  The module's top level runs to its end before any callback: \<open>ensureIdSequence()\<close> is
  called without \<open>await\<close>, so the call sends the \<open>DO\<close> block to the pool and returns a
  pending promise; the last statement, \<open>app.listen\<close>, opens the port. After that the
  event loop takes the events as they come: the completion of the pending query and
  incoming requests. A statement takes effect on the store at the event that runs it.
\<close>

datatype action = RepairStarted | Listening | RepairFinished | Served legacy_request

record process =
  proc_world :: "legacy_db world"
  repair_pending :: bool
  listening :: bool
  history :: "action list"

definition call_ensureIdSequence :: "process \<Rightarrow> process" where
  "call_ensureIdSequence p =
     p\<lparr>repair_pending := True, history := history p @ [RepairStarted]\<rparr>"

definition app_listen :: "process \<Rightarrow> process" where
  "app_listen p = p\<lparr>listening := True, history := history p @ [Listening]\<rparr>"

definition startup :: "legacy_db world \<Rightarrow> process" where
  "startup w =
     app_listen (call_ensureIdSequence
       \<lparr>proc_world = w, repair_pending = False, listening = False, history = []\<rparr>)"

datatype event = QueryCompletes | Incoming legacy_request

fun step :: "pg_input \<Rightarrow> event \<Rightarrow> process \<Rightarrow> process" where
  "step pg QueryCompletes p =
     (if repair_pending p
      then p\<lparr>proc_world := ensureIdSequence (proc_world p), repair_pending := False,
             history := history p @ [RepairFinished]\<rparr>
      else p)"
| "step pg (Incoming r) p =
     (if listening p
      then p\<lparr>proc_world := snd (legacy_handle pg r (proc_world p)),
             history := history p @ [Served r]\<rparr>
      else p)"

definition run :: "pg_input \<Rightarrow> event list \<Rightarrow> process \<Rightarrow> process" where
  "run pg es p = fold (step pg) es p"

text \<open>No request is served before the repair has finished.\<close>

fun repaired_before_served :: "action list \<Rightarrow> bool" where
  "repaired_before_served [] = True"
| "repaired_before_served (RepairFinished # h) = True"
| "repaired_before_served (Served r # h) = False"
| "repaired_before_served (a # h) = repaired_before_served h"

section \<open>The process and the idle clients of the pool\<close>

text \<open>
  A call of \<open>pool.query\<close> that is rejected inside a handler is caught by the \<open>try\<close> block
  of the handler and goes no further. Between calls the clients of the pool sit idle;
  when one of them loses its connection the pool emits an \<open>error\<close> event. Neither server
  registers a listener for it (no \<open>pool.on('error', ...)\<close>), so the event is thrown as
  an uncaught exception and the process exits: from then on no request is answered.
  \<open>uncaught\<close> is the error the process has exited with, \<open>answers\<close> the responses sent so
  far. This is the process once it listens, seen from its requests; the startup above
  follows the pending repair instead.
\<close>

datatype 'r occurrence = Request 'r | IdleClientError pg_error

record 'd server =
  srv_world :: "'d world"
  uncaught :: "pg_error option"
  answers :: "response list"

definition listen :: "'d world \<Rightarrow> 'd server" where
  "listen w = \<lparr>srv_world = w, uncaught = None, answers = []\<rparr>"

fun occur ::
  "('r \<Rightarrow> 'd world \<Rightarrow> response \<times> 'd world) \<Rightarrow> 'r occurrence \<Rightarrow> 'd server \<Rightarrow> 'd server" where
  "occur h (Request r) s =
     (case uncaught s of
        Some e \<Rightarrow> s
      | None \<Rightarrow>
         (case h r (srv_world s) of
            (res, w') \<Rightarrow> s\<lparr>srv_world := w', answers := answers s @ [res]\<rparr>))"
| "occur h (IdleClientError e) s =
     (case uncaught s of
        Some e' \<Rightarrow> s
      | None \<Rightarrow> s\<lparr>uncaught := Some e\<rparr>)"

definition serve ::
  "('r \<Rightarrow> 'd world \<Rightarrow> response \<times> 'd world) \<Rightarrow> 'r occurrence list \<Rightarrow> 'd server \<Rightarrow> 'd server" where
  "serve h os s = fold (occur h) os s"

section \<open>Specification-side definitions and example states\<close>

text \<open>None of the next \<open>k\<close> calls of \<open>pool.query\<close> is rejected by the connection.\<close>

definition no_faults :: "nat \<Rightarrow> 'd world \<Rightarrow> bool" where
  "no_faults k w = list_all (\<lambda>f. f = None) (take k (faults w))"

text \<open>The specification's \<open>next = max(existing id) + 1\<close>, 1 for an empty table.\<close>

definition spec_next :: "int list \<Rightarrow> int" where
  "spec_next ids = (if ids = [] then 1 else Max (set ids) + 1)"

text \<open>A legacy store holding rows with the given ids, with no connection faults ahead.\<close>

definition legacy_world :: "int list \<Rightarrow> sequence option \<Rightarrow> bool \<Rightarrow> legacy_db world" where
  "legacy_world ids s dflt =
     \<lparr>store = \<lparr>lg_rows = map (\<lambda>i. \<lparr>lg_id = i, lg_name = Some ''n'', lg_callsign = None,
                  lg_role = None, lg_status = None, lg_strikes = Some ''0'', lg_avatar = None,
                  lg_notes = None\<rparr>) ids,
               lg_seq = s, lg_id_default = dflt\<rparr>,
      clock = 0, faults = [], thrown = []\<rparr>"

text \<open>All five tables exist.\<close>

definition initialized :: "db \<Rightarrow> bool" where
  "initialized d =
     (battle_ids d \<noteq> None \<and> commendations d \<noteq> None \<and> rank_changes d \<noteq> None
      \<and> awards_catalog d \<noteq> None \<and> awards d \<noteq> None)"

definition empty_db :: db where
  "empty_db = \<lparr>battle_ids = None, commendations = None, rank_changes = None,
               awards_catalog = None, awards = None\<rparr>"

definition fresh_world :: "'d \<Rightarrow> 'd world" where
  "fresh_world d = \<lparr>store = d, clock = 0, faults = [], thrown = []\<rparr>"

text \<open>The store with each missing table added, empty.\<close>

definition or_empty :: "'r table option \<Rightarrow> 'r table option" where
  "or_empty t = (case t of None \<Rightarrow> Some empty_table | Some x \<Rightarrow> Some x)"

definition with_all_tables :: "db \<Rightarrow> db" where
  "with_all_tables d =
     \<lparr>battle_ids = or_empty (battle_ids d), commendations = or_empty (commendations d),
      rank_changes = or_empty (rank_changes d), awards_catalog = or_empty (awards_catalog d),
      awards = or_empty (awards d)\<rparr>"

text \<open>Descending order of a nullable column: NULL first, then from the greatest down.\<close>

definition desc_nulls_first :: "int option \<Rightarrow> int option \<Rightarrow> bool" where
  "desc_nulls_first x y =
     (case x of None \<Rightarrow> True | Some a \<Rightarrow> (case y of None \<Rightarrow> False | Some b \<Rightarrow> b \<le> a))"

text \<open>The grants of operative \<open>n\<close>, and the schema's constraints that the listing of the
  grants relies on: catalog ids are unique (primary key) and every grant names a
  catalog entry (\<open>award_id\<close> is \<open>NOT NULL\<close> and references \<open>awards_catalog(id)\<close>).\<close>

definition grants_of :: "int \<Rightarrow> award_row list \<Rightarrow> award_row list" where
  "grants_of n as = filter (\<lambda>a. aw_battle_id a = Some n) as"

definition catalog_resolves :: "catalog_row list \<Rightarrow> award_row list \<Rightarrow> bool" where
  "catalog_resolves cs as =
     (distinct (map ac_id cs)
      \<and> list_all (\<lambda>a. list_ex (\<lambda>c. aw_award_id a = Some (ac_id c)) cs) as)"

subsection \<open>An instance of the input functions and a store for the examples\<close>

text \<open>Decimal integers within the range of the type, and dates written \<open>YYYY-MM-DD\<close>,
  numbered \<open>YYYYMMDD\<close>.\<close>

definition digit_of :: "char \<Rightarrow> nat option" where
  "digit_of c = map_of (zip ''0123456789'' [0, 1, 2, 3, 4, 5, 6, 7, 8, 9]) c"

fun nat_in :: "string \<Rightarrow> nat \<Rightarrow> nat option" where
  "nat_in [] acc = Some acc"
| "nat_in (c # cs) acc =
     (case digit_of c of None \<Rightarrow> None | Some d \<Rightarrow> nat_in cs (10 * acc + d))"

definition decimal_in :: "int \<Rightarrow> int \<Rightarrow> string \<Rightarrow> int option" where
  "decimal_in lo hi s =
     (case (case s of
              [] \<Rightarrow> None
            | c # cs \<Rightarrow> if c = CHR ''-''
                        then (if cs = [] then None else map_option (\<lambda>n. - int n) (nat_in cs 0))
                        else map_option int (nat_in s 0)) of
        None \<Rightarrow> None
      | Some n \<Rightarrow> if lo \<le> n \<and> n \<le> hi then Some n else None)"

definition iso_date_in :: "string \<Rightarrow> date option" where
  "iso_date_in s =
     (if length s = 10 \<and> s ! 4 = CHR ''-'' \<and> s ! 7 = CHR ''-''
      then (case (nat_in (take 4 s) 0, nat_in (take 2 (drop 5 s)) 0, nat_in (drop 8 s) 0) of
              (Some y, Some m, Some d) \<Rightarrow>
                if 1 \<le> m \<and> m \<le> 12 \<and> 1 \<le> d \<and> d \<le> 31
                then Some (int (y * 10000 + m * 100 + d)) else None
            | _ \<Rightarrow> None)
      else None)"

definition pg_decimal :: pg_input where
  "pg_decimal = \<lparr>int4_in = decimal_in (- 2147483648) 2147483647,
                 int2_in = decimal_in (- 32768) 32767,
                 date_in = iso_date_in\<rparr>"

definition operative :: "int \<Rightarrow> string \<Rightarrow> int \<Rightarrow> timestamp \<Rightarrow> battle_row" where
  "operative i nm c ts =
     \<lparr>bi_id = i, bi_name = Some nm, bi_callsign = None, bi_role = None, bi_rank = None,
      bi_specialty = None, bi_ethnicity = None, bi_dob = None, bi_strikes_level = Some ''0'',
      bi_commendations_count = Some c, bi_notes = None, bi_avatar = None,
      bi_status = Some ''active'', bi_created_at = Some ts\<rparr>"

definition medal :: "int \<Rightarrow> string \<Rightarrow> catalog_row" where
  "medal i nm = \<lparr>ac_id = i, ac_code = None, ac_name = Some nm, ac_description = None,
                 ac_icon_url = None\<rparr>"

definition grant :: "int \<Rightarrow> int \<Rightarrow> int \<Rightarrow> timestamp \<Rightarrow> award_row" where
  "grant i b a ts = \<lparr>aw_id = i, aw_battle_id = Some b, aw_award_id = Some a, aw_notes = None,
                     aw_granted_at = Some ts\<rparr>"

definition example_db :: db where
  "example_db =
     \<lparr>battle_ids = Some \<lparr>rows = [operative 1 ''Ana'' 0 10, operative 2 ''Ben'' 0 20],
                         next_id = 3\<rparr>,
      commendations = Some empty_table,
      rank_changes = Some empty_table,
      awards_catalog = Some \<lparr>rows = [medal 2 ''Star'', medal 1 ''Cross''], next_id = 3\<rparr>,
      awards = Some \<lparr>rows = [grant 1 1 2 5, grant 2 1 1 9, grant 3 2 1 7], next_id = 4\<rparr>\<rparr>"

definition example_world :: "db world" where
  "example_world = \<lparr>store = example_db, clock = 30, faults = [], thrown = []\<rparr>"

text \<open>The two stores hold the same rows in every table (sequences may differ).\<close>

definition same_rows :: "db \<Rightarrow> db \<Rightarrow> bool" where
  "same_rows d d' =
     (map_option rows (battle_ids d) = map_option rows (battle_ids d')
      \<and> map_option rows (commendations d) = map_option rows (commendations d')
      \<and> map_option rows (rank_changes d) = map_option rows (rank_changes d')
      \<and> map_option rows (awards_catalog d) = map_option rows (awards_catalog d')
      \<and> map_option rows (awards d) = map_option rows (awards d'))"

text \<open>The connection will be lost after the commit of the next call of \<open>pool.query\<close>.\<close>

definition commit_lost :: "'d world \<Rightarrow> bool" where
  "commit_lost w =
     (case faults w of
        Some (LostAfterCommit e) # fs \<Rightarrow> True
      | _ \<Rightarrow> False)"

text \<open>The example world with the connection lost after the commit of the next call.\<close>

definition severed_world :: "db world" where
  "severed_world =
     example_world\<lparr>faults := [Some (LostAfterCommit (ConnectionFailure ''ECONNRESET''))]\<rparr>"

text \<open>The fixed text of the legacy handler's error response.\<close>

fun legacy_message :: "legacy_request \<Rightarrow> string" where
  "legacy_message L_GET_root = []"
| "legacy_message L_GET_battle = Chyba_pri_nacitani_dat"
| "legacy_message (L_POST_battle b) = Chyba_pri_ukladani_operativce"
| "legacy_message (L_PUT_battle_id i b) = Chyba_pri_uprave_operativce"
| "legacy_message (L_DELETE_battle_id i) = Chyba_pri_mazani_operativce"

definition is_commendation :: "request \<Rightarrow> bool" where
  "is_commendation r = (case r of POST_commendation i b \<Rightarrow> True | _ \<Rightarrow> False)"

text \<open>The example world with the connection lost for the next call.\<close>

definition offline_world :: "db world" where
  "offline_world =
     example_world\<lparr>faults := [Some (LostBeforeStatement (ConnectionFailure ''ECONNREFUSED''))]\<rparr>"

definition offline_legacy_world :: "legacy_db world" where
  "offline_legacy_world =
     (legacy_world [3, 7, 2] None False)\<lparr>faults :=
        [Some (LostBeforeStatement (ConnectionFailure ''ECONNREFUSED''))]\<rparr>"

text \<open>The example world with the connection lost for the second call from now, and the
  example world with the commendations count of operative 1 at the top of \<open>SMALLINT\<close>.\<close>

definition flaky_world :: "db world" where
  "flaky_world =
     example_world\<lparr>faults := [None, Some (LostBeforeStatement (ConnectionFailure ''ECONNRESET''))]\<rparr>"

text \<open>The example world with the connection lost after the commit of the second call
  from now.\<close>

definition torn_world :: "db world" where
  "torn_world =
     example_world\<lparr>faults := [None, Some (LostAfterCommit (ConnectionFailure ''ECONNRESET''))]\<rparr>"

definition veteran_db :: db where
  "veteran_db = example_db\<lparr>battle_ids :=
     Some \<lparr>rows = [operative 1 ''Ana'' 32767 10, operative 2 ''Ben'' 0 20], next_id = 3\<rparr>\<rparr>"

definition veteran_world :: "db world" where
  "veteran_world = \<lparr>store = veteran_db, clock = 30, faults = [], thrown = []\<rparr>"

definition commendation :: "int \<Rightarrow> int \<Rightarrow> int \<Rightarrow> timestamp \<Rightarrow> commendation_row" where
  "commendation i b l ts = \<lparr>co_id = i, co_battle_id = Some b, co_level = Some l,
                            co_notes = None, co_created_at = Some ts\<rparr>"










text \<open>A commendation body with level 2.\<close>

definition level2 :: body where
  "level2 = [''level'' \<mapsto> JNum 2]"

text \<open>
  The constraints of the schema that relate rows: the primary keys are unique, every
  commendation, rank change and award references an operative that exists, and every
  award references a catalog entry that exists. A table that has not been created
  holds no rows.
\<close>

definition keys :: "('r \<Rightarrow> int) \<Rightarrow> 'r table option \<Rightarrow> int list" where
  "keys k t = (case t of None \<Rightarrow> [] | Some x \<Rightarrow> map k (rows x))"

definition refs_ok :: "('r \<Rightarrow> int option) \<Rightarrow> 'r table option \<Rightarrow> int list \<Rightarrow> bool" where
  "refs_ok fk t ids =
     (case t of
        None \<Rightarrow> True
      | Some x \<Rightarrow> list_all (\<lambda>r. case fk r of None \<Rightarrow> False | Some b \<Rightarrow> b \<in> set ids) (rows x))"

definition consistent :: "db \<Rightarrow> bool" where
  "consistent d =
     (distinct (keys bi_id (battle_ids d)) \<and> distinct (keys co_id (commendations d))
      \<and> distinct (keys rc_id (rank_changes d)) \<and> distinct (keys ac_id (awards_catalog d))
      \<and> distinct (keys aw_id (awards d))
      \<and> refs_ok co_battle_id (commendations d) (keys bi_id (battle_ids d))
      \<and> refs_ok rc_battle_id (rank_changes d) (keys bi_id (battle_ids d))
      \<and> refs_ok aw_battle_id (awards d) (keys bi_id (battle_ids d))
      \<and> refs_ok aw_award_id (awards d) (keys ac_id (awards_catalog d)))"

text \<open>The rows of a dependent table that reference operative \<open>n\<close>.\<close>

definition owned_by :: "('r \<Rightarrow> int option) \<Rightarrow> int \<Rightarrow> 'r table option \<Rightarrow> 'r list" where
  "owned_by fk n t = (case t of None \<Rightarrow> [] | Some x \<Rightarrow> filter (\<lambda>r. fk r = Some n) (rows x))"

section \<open>Auxiliary facts\<close>

lemma fold_max_Max: "fold max xs (x::int) = Max (set (x # xs))"
  by (simp only: Max.set_eq_fold)

lemma coalesce_sql_max: "coalesce (sql_max ids) 0 + 1 = spec_next ids"
  by (cases ids)
    (simp_all only: sql_max_def coalesce_def spec_next_def fold_max_Max list.case option.case,
     simp_all)

lemma pool_query_no_faults:
  "no_faults (Suc k) w \<Longrightarrow> pool_query q w = execute q (w\<lparr>faults := tl (faults w)\<rparr>)"
  by (cases w)
    (auto simp: no_faults_def pool_query_def split: list.splits option.splits fault.splits)

lemma no_faults_tl: "no_faults (Suc k) w \<Longrightarrow> no_faults k (w\<lparr>faults := tl (faults w)\<rparr>)"
  by (cases "faults w") (auto simp: no_faults_def)

lemma no_faults_store [simp]: "no_faults k (w\<lparr>store := d\<rparr>) = no_faults k w"
  by (simp add: no_faults_def)

lemma pool_query_Inr:
  "pool_query q w = (Inr a, w1) \<Longrightarrow> q (clock w) (store w) = (Inr a, store w1) \<and> clock w1 = clock w"
  by (auto simp: pool_query_def execute_def raise_def
      split: list.splits option.splits fault.splits prod.splits sum.splits)

text \<open>One call that is not rejected by the connection and whose statement succeeds.\<close>

lemma pool_query_ok:
  assumes "no_faults (Suc k) w" and "q (clock w) (store w) = (Inr a, d)"
  shows "pool_query q w = (Inr a, w\<lparr>faults := tl (faults w), store := d\<rparr>)"
    and "no_faults k (w\<lparr>faults := tl (faults w), store := d\<rparr>)"
  using assms no_faults_tl[OF assms(1)]
  by (simp_all add: pool_query_no_faults execute_def)

section \<open>The sequence repair\<close>

text \<open>
  C1, as the code has it. When the connection does not reject the call and
  \<open>next = max(existing id) + 1\<close> (1 for an empty table) is a value the generator can take
  (an \<open>integer\<close>; at least 1 for a new sequence, within the bounds of a sequence that
  already exists), \<open>ensureIdSequence\<close> leaves the rows alone, raises nothing, and sets
  the generator to \<open>next\<close>: where the sequence does not exist it is created starting at
  \<open>next\<close> and bound as the default of \<open>id\<close>, where it exists it is restarted at \<open>next\<close>
  and nothing else is done. So the next generated id is \<open>next\<close> where the sequence was created and where the
  sequence that was restarted is the default of \<open>id\<close>; where it is not, the repair
  succeeds and the next insert still generates no id. The examples of the
  specification, ids 3, 7, 2 giving 8 and the empty table giving 1, follow for both
  branches.
\<close>

theorem ensureIdSequence_next_generated_id:
  assumes "no_faults 1 w"
    and "n = spec_next (map lg_id (lg_rows (store w)))"
    and "n \<le> 2147483647"
    and "case lg_seq (store w) of None \<Rightarrow> 1 \<le> n
         | Some s \<Rightarrow> seq_min s \<le> n \<and> n \<le> seq_max s"
  shows "next_generated_id (store (ensureIdSequence w))
           = (if lg_seq (store w) = None \<or> lg_id_default (store w) then Some n else None)
       \<and> lg_rows (store (ensureIdSequence w)) = lg_rows (store w)
       \<and> thrown (ensureIdSequence w) = thrown w
       \<and> (case lg_seq (store w) of
            None \<Rightarrow> lg_seq (store (ensureIdSequence w))
                      = Some \<lparr>seq_next = n, seq_min = 1, seq_max = 9223372036854775807\<rparr>
                    \<and> lg_id_default (store (ensureIdSequence w))
          | Some s \<Rightarrow> lg_seq (store (ensureIdSequence w)) = Some (s\<lparr>seq_next := n\<rparr>)
                    \<and> lg_id_default (store (ensureIdSequence w)) = lg_id_default (store w))"
proof -
  obtain fs where q: "pool_query do_block w = execute do_block (w\<lparr>faults := fs\<rparr>)"
    using pool_query_no_faults[of 0 w do_block] assms(1) by simp
  have m: "coalesce (sql_max (map lg_id (lg_rows (store w)))) 0 + 1 = n"
    using assms(2) by (simp add: coalesce_sql_max)
  show ?thesis
  proof (cases "lg_seq (store w)")
    case None
    with assms(3,4) m show ?thesis
      by (simp add: ensureIdSequence_def q execute_def do_block_def Let_def
            next_generated_id_def legacy_id_default_def)
  next
    case (Some s)
    with assms(3,4) m show ?thesis
      by (simp add: ensureIdSequence_def q execute_def do_block_def Let_def
            next_generated_id_def legacy_id_default_def)
  qed
qed

theorem ensureIdSequence_examples:
  "next_generated_id (store (ensureIdSequence (legacy_world [3, 7, 2] None False))) = Some 8
 \<and> next_generated_id (store (ensureIdSequence (legacy_world [] None False))) = Some 1
 \<and> next_generated_id (store (ensureIdSequence (legacy_world [3, 7, 2]
      (Some \<lparr>seq_next = 3, seq_min = 1, seq_max = 2147483647\<rparr>) True))) = Some 8
 \<and> next_generated_id (store (ensureIdSequence (legacy_world []
      (Some \<lparr>seq_next = 3, seq_min = 1, seq_max = 2147483647\<rparr>) True))) = Some 1"
  using ensureIdSequence_next_generated_id [of "legacy_world [3, 7, 2] None False" 8]
    ensureIdSequence_next_generated_id [of "legacy_world [] None False" 1]
    ensureIdSequence_next_generated_id [of "legacy_world [3, 7, 2]
      (Some \<lparr>seq_next = 3, seq_min = 1, seq_max = 2147483647\<rparr>) True" 8]
    ensureIdSequence_next_generated_id [of "legacy_world []
      (Some \<lparr>seq_next = 3, seq_min = 1, seq_max = 2147483647\<rparr>) True" 1]
  by (simp add: legacy_world_def no_faults_def spec_next_def)

text \<open>
  C1 as stated fails in the branch where the sequence exists, for the ids 3, 7, 2 of
  the specification: with a sequence that is not the default of \<open>id\<close>, the repair raises
  nothing and restarts the sequence at 8, and the next insert generates no id. It also
  fails where \<open>next\<close> is no value of the generator: with the id 2147483647 in the table
  the sum overflows the \<open>integer\<close>, with the only id -5 a new sequence cannot start at
  -4, and with a sequence whose maximum is 5 the restart at 8 is rejected; the routine
  logs the error and the generator is as it was.
\<close>

theorem ensureIdSequence_restart_does_not_bind:
  "thrown (ensureIdSequence (legacy_world [3, 7, 2]
      (Some \<lparr>seq_next = 3, seq_min = 1, seq_max = 2147483647\<rparr>) False)) = []
 \<and> lg_seq (store (ensureIdSequence (legacy_world [3, 7, 2]
      (Some \<lparr>seq_next = 3, seq_min = 1, seq_max = 2147483647\<rparr>) False)))
     = Some \<lparr>seq_next = 8, seq_min = 1, seq_max = 2147483647\<rparr>
 \<and> next_generated_id (store (ensureIdSequence (legacy_world [3, 7, 2]
      (Some \<lparr>seq_next = 3, seq_min = 1, seq_max = 2147483647\<rparr>) False))) = None
 \<and> thrown (ensureIdSequence (legacy_world [2147483647] None False))
     = [NumericValueOutOfRange ''integer'']
 \<and> next_generated_id (store (ensureIdSequence (legacy_world [2147483647] None False))) = None
 \<and> thrown (ensureIdSequence (legacy_world [- 5] None False)) = [InvalidParameterValue ''START'']
 \<and> next_generated_id (store (ensureIdSequence (legacy_world [- 5] None False))) = None
 \<and> thrown (ensureIdSequence (legacy_world [3, 7, 2]
      (Some \<lparr>seq_next = 3, seq_min = 1, seq_max = 5\<rparr>) True))
     = [InvalidParameterValue ''RESTART'']
 \<and> next_generated_id (store (ensureIdSequence (legacy_world [3, 7, 2]
      (Some \<lparr>seq_next = 3, seq_min = 1, seq_max = 5\<rparr>) True))) = Some 3"
  by (simp add: ensureIdSequence_def pool_query_def execute_def raise_def do_block_def
      sql_max_def coalesce_def next_generated_id_def legacy_id_default_def legacy_world_def
      Let_def)

section \<open>The bootstrap routine is idempotent\<close>

lemma initTables_no_faults:
  assumes "no_faults 5 w"
  shows "initTables w = w\<lparr>faults := drop 5 (faults w), store := with_all_tables (store w)\<rparr>"
proof -
  obtain b c r a g where d: "store w = \<lparr>battle_ids = b, commendations = c, rank_changes = r,
      awards_catalog = a, awards = g\<rparr>"
    by (cases "store w") auto
  have n: "no_faults (Suc 4) w" using assms by (simp add: eval_nat_numeral)
  define w1 where "w1 = w\<lparr>faults := tl (faults w), store := (store w)\<lparr>battle_ids := or_empty b\<rparr>\<rparr>"
  define w2 where "w2 = w1\<lparr>faults := tl (faults w1), store := (store w1)\<lparr>commendations := or_empty c\<rparr>\<rparr>"
  define w3 where "w3 = w2\<lparr>faults := tl (faults w2), store := (store w2)\<lparr>rank_changes := or_empty r\<rparr>\<rparr>"
  define w4 where "w4 = w3\<lparr>faults := tl (faults w3), store := (store w3)\<lparr>awards_catalog := or_empty a\<rparr>\<rparr>"
  define w5 where "w5 = w4\<lparr>faults := tl (faults w4), store := (store w4)\<lparr>awards := or_empty g\<rparr>\<rparr>"
  have q1: "pool_query create_table_battle_ids w = (Inr (), w1)" "no_faults (Suc 3) w1"
    using pool_query_ok[OF n, of create_table_battle_ids "()" "(store w)\<lparr>battle_ids := or_empty b\<rparr>"] d
    by (simp_all add: create_table_battle_ids_def w1_def eval_nat_numeral or_empty_def split: option.splits)
  have q2: "pool_query create_table_commendations w1 = (Inr (), w2)" "no_faults (Suc 2) w2"
    using pool_query_ok[OF q1(2), of create_table_commendations "()" "(store w1)\<lparr>commendations := or_empty c\<rparr>"] d
    by (simp_all add: create_table_commendations_def w1_def w2_def eval_nat_numeral or_empty_def split: option.splits)
  have q3: "pool_query create_table_rank_changes w2 = (Inr (), w3)" "no_faults (Suc 1) w3"
    using pool_query_ok[OF q2(2), of create_table_rank_changes "()" "(store w2)\<lparr>rank_changes := or_empty r\<rparr>"] d
    by (simp_all add: create_table_rank_changes_def w1_def w2_def w3_def eval_nat_numeral or_empty_def split: option.splits)
  have q4: "pool_query create_table_awards_catalog w3 = (Inr (), w4)" "no_faults (Suc 0) w4"
    using pool_query_ok[OF q3(2), of create_table_awards_catalog "()" "(store w3)\<lparr>awards_catalog := or_empty a\<rparr>"] d
    by (simp_all add: create_table_awards_catalog_def w1_def w2_def w3_def w4_def eval_nat_numeral or_empty_def split: option.splits)
  have q5: "pool_query create_table_awards w4 = (Inr (), w5)"
    using pool_query_ok[OF q4(2), of create_table_awards "()" "(store w4)\<lparr>awards := or_empty g\<rparr>"] d
    by (simp_all add: create_table_awards_def w1_def w2_def w3_def w4_def w5_def eval_nat_numeral or_empty_def split: option.splits)
  have "w5 = w\<lparr>faults := drop 5 (faults w), store := with_all_tables (store w)\<rparr>"
    by (simp add: w1_def w2_def w3_def w4_def w5_def with_all_tables_def d drop_Suc eval_nat_numeral tl_drop)
  then show ?thesis
    by (simp add: initTables_def q1 q2 q3 q4 q5)
qed

lemma with_all_tables_idem: "with_all_tables (with_all_tables d) = with_all_tables d"
  by (simp add: with_all_tables_def or_empty_def split: option.splits)

lemma with_all_tables_initialized: "initialized d \<Longrightarrow> with_all_tables d = d"
  by (cases d) (auto simp: with_all_tables_def or_empty_def initialized_def)

lemma initialized_with_all_tables: "initialized (with_all_tables d)"
  by (simp add: with_all_tables_def or_empty_def initialized_def split: option.splits)

lemma no_faults_drop:
  "no_faults (j + k) w \<Longrightarrow> no_faults k (w\<lparr>faults := drop j (faults w), store := d\<rparr>)"
  by (simp add: no_faults_def take_add)

lemma no_faults_add: "no_faults (j + k) w \<Longrightarrow> no_faults j w"
  by (simp add: no_faults_def take_add)

lemma do_block_again: "do_block t d = (r, d') \<Longrightarrow> do_block t' d' = (r, d')"
  by (cases d; cases "lg_seq d")
    (auto simp: do_block_def Let_def split: if_splits)

lemma store_ensureIdSequence:
  "no_faults (Suc k) w \<Longrightarrow> store (ensureIdSequence w) = snd (do_block (clock w) (store w))"
  by (simp add: ensureIdSequence_def pool_query_no_faults execute_def raise_def
      split: prod.splits sum.splits)

lemma faults_ensureIdSequence:
  "no_faults (Suc k) w \<Longrightarrow> no_faults k (ensureIdSequence w)"
  using no_faults_tl[of k w]
  by (simp add: ensureIdSequence_def pool_query_no_faults execute_def raise_def no_faults_def
      split: prod.splits sum.splits)

lemma ensureIdSequence_twice:
  assumes "no_faults 2 w"
  shows "store (ensureIdSequence (ensureIdSequence w)) = store (ensureIdSequence w)"
proof -
  have n: "no_faults (Suc 1) w" using assms by (simp add: eval_nat_numeral)
  obtain r d where q: "do_block (clock w) (store w) = (r, d)" by fastforce
  have 1: "store (ensureIdSequence w) = d"
    using store_ensureIdSequence[OF n] q by simp
  have "no_faults (Suc 0) (ensureIdSequence w)"
    using faults_ensureIdSequence[OF n] by simp
  from store_ensureIdSequence[OF this] do_block_again[OF q] 1
  show ?thesis by simp
qed

text \<open>
  C6. While the connection rejects no call: \<open>initTables\<close> on a store that has all five
  tables changes nothing in the store and raises nothing, also when run twice in
  succession; on any store, a second run right after the first changes nothing and
  raises nothing; and \<open>ensureIdSequence\<close> run twice in a row leaves the store, and so the
  generator, as the first run left it.
\<close>

theorem bootstrap_idempotent:
  "(no_faults 5 w \<and> initialized (store w) \<longrightarrow>
      store (initTables w) = store w \<and> thrown (initTables w) = thrown w)
 \<and> (no_faults 10 w \<and> initialized (store w) \<longrightarrow>
      store (initTables (initTables w)) = store w
      \<and> thrown (initTables (initTables w)) = thrown w)
 \<and> (no_faults 10 w \<longrightarrow>
      store (initTables (initTables w)) = store (initTables w)
      \<and> thrown (initTables (initTables w)) = thrown w
      \<and> initialized (store (initTables w)))
 \<and> (no_faults 2 v \<longrightarrow>
      store (ensureIdSequence (ensureIdSequence v)) = store (ensureIdSequence v))"
proof -
  have five: "no_faults 5 (initTables w)" "no_faults 5 w" if "no_faults 10 w"
  proof -
    show 5: "no_faults 5 w"
      using that no_faults_add[of 5 5 w] by simp
    show "no_faults 5 (initTables w)"
      using that no_faults_drop[of 5 5 w "with_all_tables (store w)"]
      by (simp add: initTables_no_faults[OF 5])
  qed
  have twice: "initTables (initTables w) =
      (initTables w)\<lparr>faults := drop 5 (faults (initTables w)),
                     store := with_all_tables (store (initTables w))\<rparr>" if "no_faults 10 w"
    using five(1)[OF that] by (rule initTables_no_faults)
  have once: "initTables w = w\<lparr>faults := drop 5 (faults w), store := with_all_tables (store w)\<rparr>"
    if "no_faults 5 w"
    using that by (rule initTables_no_faults)
  show ?thesis
  proof (intro conjI impI)
    assume a: "no_faults 5 w \<and> initialized (store w)"
    then show "store (initTables w) = store w" "thrown (initTables w) = thrown w"
      using once by (simp_all add: with_all_tables_initialized)
  next
    assume a: "no_faults 10 w \<and> initialized (store w)"
    then show "store (initTables (initTables w)) = store w"
      "thrown (initTables (initTables w)) = thrown w"
      using twice once[OF five(2)] by (simp_all add: with_all_tables_initialized)
  next
    assume a: "no_faults 10 w"
    then show "store (initTables (initTables w)) = store (initTables w)"
      "thrown (initTables (initTables w)) = thrown w"
      "initialized (store (initTables w))"
      using twice once[OF five(2)]
      by (simp_all add: with_all_tables_idem initialized_with_all_tables)
  next
    assume "no_faults 2 v"
    then show "store (ensureIdSequence (ensureIdSequence v)) = store (ensureIdSequence v)"
      by (rule ensureIdSequence_twice)
  qed
qed

theorem bootstrap_idempotent_witness:
  "no_faults 10 (fresh_world (with_all_tables empty_db))
 \<and> initialized (store (fresh_world (with_all_tables empty_db)))
 \<and> store (initTables (initTables (fresh_world (with_all_tables empty_db))))
     = with_all_tables empty_db
 \<and> thrown (initTables (initTables (fresh_world (with_all_tables empty_db)))) = []
 \<and> store (initTables (initTables (fresh_world empty_db))) = store (initTables (fresh_world empty_db))
 \<and> no_faults 2 (legacy_world [3, 7, 2] None False)
 \<and> store (ensureIdSequence (ensureIdSequence (legacy_world [3, 7, 2] None False)))
     = store (ensureIdSequence (legacy_world [3, 7, 2] None False))"
  using bootstrap_idempotent [of "fresh_world (with_all_tables empty_db)"
      "legacy_world [3, 7, 2] None False"]
    bootstrap_idempotent [of "fresh_world empty_db" "legacy_world [3, 7, 2] None False"]
  by (simp add: fresh_world_def legacy_world_def no_faults_def initialized_with_all_tables)

section \<open>Listings\<close>

lemma order_by_desc_sorted:
  "sorted_wrt (\<lambda>a b. desc_nulls_first (f a) (f b)) (order_by_desc f rs)"
proof -
  have "sorted (map (\<lambda>r. map_option uminus (f r)) (order_by_desc f rs))"
    unfolding order_by_desc_def by (rule sorted_sort_key)
  then have "sorted_wrt (\<lambda>a b. map_option uminus (f a) \<le> map_option uminus (f b))
      (order_by_desc f rs)"
    by (simp add: sorted_map)
  then show ?thesis
    by (rule sorted_wrt_mono_rel[rotated])
      (auto simp: desc_nulls_first_def split: option.splits)
qed

lemma order_by_desc_mset: "mset (order_by_desc f rs) = mset rs"
  by (simp add: order_by_desc_def)

lemma filter_unique:
  assumes "distinct (map ac_id cs)" and "c \<in> set cs"
  shows "filter (\<lambda>c'. ac_id c' = ac_id c) cs = [c]"
  using assms
proof (induction cs)
  case Nil
  then show ?case by simp
next
  case (Cons x xs)
  show ?case
  proof (cases "x = c")
    case True
    then have "filter (\<lambda>c'. ac_id c' = ac_id c) xs = []"
      using Cons.prems(1) by (auto simp: filter_empty_conv) (metis image_eqI)
    with True show ?thesis by simp
  next
    case False
    then have "ac_id x \<noteq> ac_id c" using Cons.prems by auto
    with False Cons show ?thesis by simp
  qed
qed

lemma truncate_join: "award_row.truncate (join_catalog a c) = a"
  by (simp add: join_catalog_def award_row.truncate_def award_row.extend_def)

lemma join_resolved:
  assumes "catalog_resolves cs as"
  shows "map award_row.truncate
           (concat (map (\<lambda>a. map (join_catalog a)
                               (filter (\<lambda>c. aw_award_id a = Some (ac_id c)) cs)) as)) = as"
  using assms
proof (induction as)
  case Nil
  then show ?case by simp
next
  case (Cons a as)
  from Cons.prems obtain c where c: "c \<in> set cs" "aw_award_id a = Some (ac_id c)"
    and d: "distinct (map ac_id cs)"
    by (auto simp: catalog_resolves_def list_ex_iff)
  have "filter (\<lambda>c'. aw_award_id a = Some (ac_id c')) cs = filter (\<lambda>c'. ac_id c' = ac_id c) cs"
    using c(2) by (auto intro: filter_cong)
  also have "\<dots> = [c]" using d c(1) by (rule filter_unique)
  finally have one: "filter (\<lambda>c'. aw_award_id a = Some (ac_id c')) cs = [c]" .
  have "catalog_resolves cs as" using Cons.prems by (simp add: catalog_resolves_def)
  with Cons.IH one show ?case by (simp add: truncate_join)
qed

lemma catalog_resolves_filter:
  "catalog_resolves cs as \<Longrightarrow> catalog_resolves cs (filter P as)"
  by (auto simp: catalog_resolves_def list_all_iff)


text \<open>
  C4. When the call reaches the store and the tables exist, the list of operatives is
  answered with all rows of \<open>battle_ids\<close> in descending order of \<open>created_at\<close> (NULL
  first), in the legacy server with all rows in descending order of \<open>id\<close>; the catalog
  list with all catalog rows in ascending order of \<open>id\<close>; and the list of grants of
  operative \<open>n\<close> with exactly the grants of \<open>n\<close>, each joined with its catalog entry, in
  descending order of \<open>granted_at\<close> (NULL first).
\<close>

theorem listings_ordered:
  "(no_faults 1 w \<and> battle_ids (store w) = Some t \<longrightarrow>
      (\<exists>rs. fst (get_api_battle w) = \<lparr>res_status = 200, res_sent = JsonRows (map BattleRow rs)\<rparr>
         \<and> mset rs = mset (rows t)
         \<and> sorted_wrt (\<lambda>a b. desc_nulls_first (bi_created_at a) (bi_created_at b)) rs))
 \<and> (no_faults 1 v \<longrightarrow>
      (\<exists>rs. fst (legacy_get_api_battle v)
            = \<lparr>res_status = 200, res_sent = JsonRows (map LegacyRow rs)\<rparr>
         \<and> mset rs = mset (lg_rows (store v))
         \<and> sorted_wrt (\<lambda>a b. lg_id b \<le> lg_id a) rs))
 \<and> (no_faults 1 w \<and> awards_catalog (store w) = Some tc \<longrightarrow>
      (\<exists>rs. fst (get_api_awards_catalog w)
            = \<lparr>res_status = 200, res_sent = JsonRows (map CatalogRow rs)\<rparr>
         \<and> mset rs = mset (rows tc)
         \<and> sorted_wrt (\<lambda>a b. ac_id a \<le> ac_id b) rs))
 \<and> (no_faults 1 w \<and> awards (store w) = Some ta \<and> awards_catalog (store w) = Some tc
      \<and> catalog_resolves (rows tc) (rows ta) \<and> int4_in pg x = Some n \<longrightarrow>
      (\<exists>rs. fst (get_api_awards pg x w)
            = \<lparr>res_status = 200, res_sent = JsonRows (map AwardWithCatalogRow rs)\<rparr>
         \<and> mset (map award_row.truncate rs) = mset (grants_of n (rows ta))
         \<and> sorted_wrt (\<lambda>a b. desc_nulls_first (aw_granted_at a) (aw_granted_at b)) rs))"
proof (intro conjI impI)
  assume a: "no_faults 1 w \<and> battle_ids (store w) = Some t"
  then have "no_faults (Suc 0) w" by simp
  from pool_query_ok(1)[OF this, of select_battle_ids_order_by_created_at
      "order_by_desc bi_created_at (rows t)" "store w"] a
  have "fst (get_api_battle w)
      = \<lparr>res_status = 200, res_sent = JsonRows (map BattleRow (order_by_desc bi_created_at (rows t)))\<rparr>"
    by (simp add: get_api_battle_def select_battle_ids_order_by_created_at_def res_json_def)
  then show "\<exists>rs. fst (get_api_battle w) = \<lparr>res_status = 200, res_sent = JsonRows (map BattleRow rs)\<rparr>
         \<and> mset rs = mset (rows t)
         \<and> sorted_wrt (\<lambda>a b. desc_nulls_first (bi_created_at a) (bi_created_at b)) rs"
    using order_by_desc_sorted order_by_desc_mset by blast
next
  assume a: "no_faults 1 v"
  then have "no_faults (Suc 0) v" by simp
  from pool_query_ok(1)[OF this, of legacy_select_order_by_id_desc
      "sort_key (\<lambda>r. - lg_id r) (lg_rows (store v))" "store v"]
  have "fst (legacy_get_api_battle v)
      = \<lparr>res_status = 200, res_sent = JsonRows (map LegacyRow (sort_key (\<lambda>r. - lg_id r) (lg_rows (store v))))\<rparr>"
    by (simp add: legacy_get_api_battle_def legacy_select_order_by_id_desc_def res_json_def)
  moreover have "sorted_wrt (\<lambda>a b. lg_id b \<le> lg_id a) (sort_key (\<lambda>r. - lg_id r) (lg_rows (store v)))"
    using sorted_sort_key[of "\<lambda>r. - lg_id r" "lg_rows (store v)"] by (simp add: sorted_map)
  ultimately show "\<exists>rs. fst (legacy_get_api_battle v)
            = \<lparr>res_status = 200, res_sent = JsonRows (map LegacyRow rs)\<rparr>
         \<and> mset rs = mset (lg_rows (store v))
         \<and> sorted_wrt (\<lambda>a b. lg_id b \<le> lg_id a) rs"
    by (metis mset_sort)
next
  assume a: "no_faults 1 w \<and> awards_catalog (store w) = Some tc"
  then have "no_faults (Suc 0) w" by simp
  from pool_query_ok(1)[OF this, of select_awards_catalog_order_by_id
      "sort_key ac_id (rows tc)" "store w"] a
  have "fst (get_api_awards_catalog w)
      = \<lparr>res_status = 200, res_sent = JsonRows (map CatalogRow (sort_key ac_id (rows tc)))\<rparr>"
    by (simp add: get_api_awards_catalog_def select_awards_catalog_order_by_id_def res_json_def)
  moreover have "sorted_wrt (\<lambda>a b. ac_id a \<le> ac_id b) (sort_key ac_id (rows tc))"
    using sorted_sort_key[of ac_id "rows tc"] by (simp add: sorted_map)
  ultimately show "\<exists>rs. fst (get_api_awards_catalog w)
            = \<lparr>res_status = 200, res_sent = JsonRows (map CatalogRow rs)\<rparr>
         \<and> mset rs = mset (rows tc)
         \<and> sorted_wrt (\<lambda>a b. ac_id a \<le> ac_id b) rs"
    by (metis mset_sort)
next
  assume a: "no_faults 1 w \<and> awards (store w) = Some ta \<and> awards_catalog (store w) = Some tc
      \<and> catalog_resolves (rows tc) (rows ta) \<and> int4_in pg x = Some n"
  then have nf: "no_faults (Suc 0) w" by simp
  define js where "js = concat (map (\<lambda>a. map (join_catalog a)
        (filter (\<lambda>c. aw_award_id a = Some (ac_id c)) (rows tc))) (grants_of n (rows ta)))"
  have sel: "select_awards_join_catalog pg [JStr x] (clock w) (store w)
      = (Inr (order_by_desc aw_granted_at js), store w)"
    using a by (simp add: select_awards_join_catalog_def bind_int4_def js_def grants_of_def
        cong: rev_conj_cong)
  from pool_query_ok(1)[OF nf, of "select_awards_join_catalog pg [JStr x]"
      "order_by_desc aw_granted_at js" "store w"] sel
  have "fst (get_api_awards pg x w)
      = \<lparr>res_status = 200, res_sent = JsonRows (map AwardWithCatalogRow (order_by_desc aw_granted_at js))\<rparr>"
    by (simp add: get_api_awards_def res_json_def)
  moreover have "map award_row.truncate js = grants_of n (rows ta)"
    unfolding js_def using a
    by (intro join_resolved) (simp add: grants_of_def catalog_resolves_filter)
  then have "mset (map award_row.truncate (order_by_desc aw_granted_at js)) = mset (grants_of n (rows ta))"
    by (metis mset_map order_by_desc_mset)
  ultimately show "\<exists>rs. fst (get_api_awards pg x w)
            = \<lparr>res_status = 200, res_sent = JsonRows (map AwardWithCatalogRow rs)\<rparr>
         \<and> mset (map award_row.truncate rs) = mset (grants_of n (rows ta))
         \<and> sorted_wrt (\<lambda>a b. desc_nulls_first (aw_granted_at a) (aw_granted_at b)) rs"
    using order_by_desc_sorted by blast
qed


lemma int4_in_1: "int4_in pg_decimal ''1'' = Some 1"
  by (simp add: pg_decimal_def decimal_in_def digit_of_def)

lemma no_faults_example_world: "no_faults k example_world"
  by (simp add: no_faults_def example_world_def)

lemma no_faults_legacy_world: "no_faults k (legacy_world ids s dflt)"
  by (simp add: no_faults_def legacy_world_def)

theorem listings_ordered_witness:
  "no_faults 1 example_world
 \<and> no_faults 1 (legacy_world [3, 7, 2] None False)
 \<and> catalog_resolves [medal 2 ''Star'', medal 1 ''Cross'']
      [grant 1 1 2 5, grant 2 1 1 9, grant 3 2 1 7]
 \<and> int4_in pg_decimal ''1'' = Some 1
 \<and> fst (get_api_battle example_world)
     = \<lparr>res_status = 200,
        res_sent = JsonRows [BattleRow (operative 2 ''Ben'' 0 20),
                             BattleRow (operative 1 ''Ana'' 0 10)]\<rparr>
 \<and> fst (get_api_awards_catalog example_world)
     = \<lparr>res_status = 200,
        res_sent = JsonRows [CatalogRow (medal 1 ''Cross''), CatalogRow (medal 2 ''Star'')]\<rparr>
 \<and> fst (get_api_awards pg_decimal ''1'' example_world)
     = \<lparr>res_status = 200,
        res_sent = JsonRows
          [AwardWithCatalogRow (join_catalog (grant 2 1 1 9) (medal 1 ''Cross'')),
           AwardWithCatalogRow (join_catalog (grant 1 1 2 5) (medal 2 ''Star''))]\<rparr>
 \<and> (\<exists>rs. fst (legacy_get_api_battle (legacy_world [3, 7, 2] None False))
            = \<lparr>res_status = 200, res_sent = JsonRows (map LegacyRow rs)\<rparr>
          \<and> mset rs = mset (lg_rows (store (legacy_world [3, 7, 2] None False)))
          \<and> sorted_wrt (\<lambda>a b. lg_id b \<le> lg_id a) rs)"
proof -
  have h: "no_faults 1 example_world" "no_faults 1 (legacy_world [3, 7, 2] None False)"
    "int4_in pg_decimal ''1'' = Some 1"
    by (simp_all add: no_faults_example_world no_faults_legacy_world int4_in_1)
  have c: "catalog_resolves [medal 2 ''Star'', medal 1 ''Cross'']
      [grant 1 1 2 5, grant 2 1 1 9, grant 3 2 1 7]"
    by (simp add: catalog_resolves_def medal_def grant_def)
  have e1: "fst (get_api_battle example_world)
     = \<lparr>res_status = 200,
        res_sent = JsonRows [BattleRow (operative 2 ''Ben'' 0 20),
                             BattleRow (operative 1 ''Ana'' 0 10)]\<rparr>"
    by (simp add: get_api_battle_def pool_query_def execute_def res_json_def
        select_battle_ids_order_by_created_at_def order_by_desc_def
        example_world_def example_db_def operative_def)
  have e2: "fst (get_api_awards_catalog example_world)
     = \<lparr>res_status = 200,
        res_sent = JsonRows [CatalogRow (medal 1 ''Cross''), CatalogRow (medal 2 ''Star'')]\<rparr>"
    by (simp add: get_api_awards_catalog_def pool_query_def execute_def res_json_def
        select_awards_catalog_order_by_id_def
        example_world_def example_db_def medal_def)
  have e3: "fst (get_api_awards pg_decimal ''1'' example_world)
     = \<lparr>res_status = 200,
        res_sent = JsonRows
          [AwardWithCatalogRow (join_catalog (grant 2 1 1 9) (medal 1 ''Cross'')),
           AwardWithCatalogRow (join_catalog (grant 1 1 2 5) (medal 2 ''Star''))]\<rparr>"
    by (simp add: get_api_awards_def pool_query_def execute_def res_json_def
        select_awards_join_catalog_def order_by_desc_def bind_int4_def int4_in_1
        example_world_def example_db_def medal_def grant_def join_catalog_def
          award_row.extend_def)
  from listings_ordered [of example_world
      "\<lparr>rows = [operative 1 ''Ana'' 0 10, operative 2 ''Ben'' 0 20], next_id = 3\<rparr>"
      "legacy_world [3, 7, 2] None False"
      "\<lparr>rows = [medal 2 ''Star'', medal 1 ''Cross''], next_id = 3\<rparr>"
      "\<lparr>rows = [grant 1 1 2 5, grant 2 1 1 9, grant 3 2 1 7], next_id = 4\<rparr>"
      pg_decimal "''1''" 1] h(2)
  have l: "\<exists>rs. fst (legacy_get_api_battle (legacy_world [3, 7, 2] None False))
            = \<lparr>res_status = 200, res_sent = JsonRows (map LegacyRow rs)\<rparr>
          \<and> mset rs = mset (lg_rows (store (legacy_world [3, 7, 2] None False)))
          \<and> sorted_wrt (\<lambda>a b. lg_id b \<le> lg_id a) rs"
    by blast
  from h c e1 e2 e3 l show ?thesis by blast
qed

section \<open>The cross-origin policy\<close>

text \<open>
  What the \<open>origin\<close> function does with the array it is given: a request whose \<open>Origin\<close> is
  not empty and not in the array is answered by the error handler, no route runs and
  the world is unchanged; a request whose \<open>Origin\<close> is in the array goes on to its route,
  and the answer reflects the origin and allows credentials.
\<close>

lemma origin_over_any_array:
  "(orig = Some s \<and> s \<noteq> [] \<and> Some s \<notin> set allowed \<longrightarrow>
      app pg allowed orig req w
        = ((None, \<lparr>res_status = 500, res_sent = ErrorPage (CorsBlocked s)\<rparr>), w))
 \<and> (orig = Some s \<and> Some s \<in> set allowed \<longrightarrow>
      app pg allowed orig req w
        = ((Some \<lparr>access_control_allow_origin = reflect_origin orig,
                  access_control_allow_credentials = True\<rparr>,
            fst (handle pg req w)), snd (handle pg req w)))"
  by (auto simp: app_def origin_def split: prod.splits)

text \<open>
  C9. The literal that initializes \<open>allowedOrigins\<close> is not an array literal: after
  \<open>"http://localhost:3000"\<close> the next token is a string where a comma or the closing
  bracket must follow. The module has a syntax error, so it is not loaded and no request
  is answered, from an allowed origin or any other. With the comma in place the literal
  denotes the three origins, and a request from \<open>http://localhost:3000\<close> goes on to its
  route with credentials allowed while one from another origin is rejected before any
  route.
\<close>

theorem allowedOrigins_is_a_syntax_error:
  "array_literal allowedOrigins_literal
     = Inl (UnexpectedToken (STRING ''database4-production.up.railway.app''))
 \<and> load pg_decimal = Inl (UnexpectedToken (STRING ''database4-production.up.railway.app''))
 \<and> array_literal
      [LBRACK, STRING ''https://redroofcomp.up.railway.app'', COMMA,
       STRING ''http://localhost:3000'', COMMA,
       STRING ''database4-production.up.railway.app'', RBRACK]
     = Inr [Some ''https://redroofcomp.up.railway.app'', Some ''http://localhost:3000'',
            Some ''database4-production.up.railway.app'']
 \<and> app pg_decimal
      [Some ''https://redroofcomp.up.railway.app'', Some ''http://localhost:3000'',
       Some ''database4-production.up.railway.app'']
      (Some ''http://localhost:3000'') GET_battle example_world
     = ((Some \<lparr>access_control_allow_origin = Some ''http://localhost:3000'',
               access_control_allow_credentials = True\<rparr>,
         fst (handle pg_decimal GET_battle example_world)),
        snd (handle pg_decimal GET_battle example_world))
 \<and> app pg_decimal
      [Some ''https://redroofcomp.up.railway.app'', Some ''http://localhost:3000'',
       Some ''database4-production.up.railway.app'']
      (Some ''https://evil.example'') GET_battle example_world
     = ((None, \<lparr>res_status = 500, res_sent = ErrorPage (CorsBlocked ''https://evil.example'')\<rparr>),
        example_world)"
  by (simp add: array_literal_def allowedOrigins_literal_def load_def app_def origin_def
      reflect_origin_def split: prod.splits)

section \<open>Startup of the legacy server\<close>

lemma run_Cons: "run pg (e # es) p = run pg es (step pg e p)"
  by (simp add: run_def)

lemma run_history:
  "listening p \<Longrightarrow>
   \<exists>hs. history (run pg es p) = history p @ hs
      \<and> RepairStarted \<notin> set hs
      \<and> count_list hs RepairFinished = (if repair_pending p \<and> QueryCompletes \<in> set es then 1 else 0)"
proof (induction es arbitrary: p)
  case Nil
  then show ?case by (simp add: run_def)
next
  case (Cons e es)
  show ?case
  proof (cases e)
    case QueryCompletes
    show ?thesis
    proof (cases "repair_pending p")
      case True
      from Cons.IH[of "step pg e p"] Cons.prems QueryCompletes True
      obtain hs where "history (run pg es (step pg e p)) = (history p @ [RepairFinished]) @ hs"
        "RepairStarted \<notin> set hs" "count_list hs RepairFinished = 0"
        by auto
      then show ?thesis using True QueryCompletes
        by (intro exI[of _ "RepairFinished # hs"]) (simp add: run_Cons)
    next
      case False
      with Cons.IH[of p] Cons.prems QueryCompletes show ?thesis
        by (simp add: run_Cons)
    qed
  next
    case (Incoming r)
    from Cons.IH[of "step pg e p"] Cons.prems Incoming
    obtain hs where "history (run pg es (step pg e p)) = (history p @ [Served r]) @ hs"
      "RepairStarted \<notin> set hs"
      "count_list hs RepairFinished = (if repair_pending p \<and> QueryCompletes \<in> set es then 1 else 0)"
      by auto
    then show ?thesis using Incoming
      by (intro exI[of _ "Served r # hs"]) (simp add: run_Cons)
  qed
qed

text \<open>
  C7, as the code has it. Whatever events follow the startup, the repair is started
  exactly once, at startup and before the server listens, and it finishes at the first
  completion event if there is one; it is not awaited, so a request that comes in first
  is served before the repair has finished.
\<close>

theorem repair_started_once_not_awaited:
  "count_list (history (run pg es (startup w))) RepairStarted = 1
 \<and> take 2 (history (run pg es (startup w))) = [RepairStarted, Listening]
 \<and> count_list (history (run pg es (startup w))) RepairFinished
     = (if QueryCompletes \<in> set es then 1 else 0)
 \<and> (\<forall>r es'. es = Incoming r # es' \<longrightarrow>
       take 3 (history (run pg es (startup w))) = [RepairStarted, Listening, Served r]
       \<and> \<not> repaired_before_served (history (run pg es (startup w))))"
proof -
  have l: "listening (startup w)" "repair_pending (startup w)"
    "history (startup w) = [RepairStarted, Listening]"
    by (simp_all add: startup_def app_listen_def call_ensureIdSequence_def)
  from run_history[OF l(1), of pg es] l(2,3)
  obtain hs where hs: "history (run pg es (startup w)) = [RepairStarted, Listening] @ hs"
    "RepairStarted \<notin> set hs"
    "count_list hs RepairFinished = (if QueryCompletes \<in> set es then 1 else 0)"
    by auto
  have "take 3 (history (run pg es (startup w))) = [RepairStarted, Listening, Served r]
       \<and> \<not> repaired_before_served (history (run pg es (startup w)))"
    if "es = Incoming r # es'" for r es'
  proof -
    define p' where "p' = step pg (Incoming r) (startup w)"
    have p': "listening p'" "history p' = [RepairStarted, Listening, Served r]"
      using l by (simp_all add: p'_def)
    from run_history[OF p'(1), of pg es']
    obtain hs' where "history (run pg es' p') = history p' @ hs'"
      by blast
    then have "history (run pg es (startup w)) = [RepairStarted, Listening, Served r] @ hs'"
      using p'(2) by (simp add: that run_Cons p'_def)
    then show ?thesis by simp
  qed
  with hs show ?thesis by (simp add: count_list_0_iff)
qed

theorem repair_started_once_not_awaited_witness:
  "history (run pg_decimal [QueryCompletes, Incoming L_GET_battle]
      (startup (legacy_world [3, 7, 2] None False)))
     = [RepairStarted, Listening, RepairFinished, Served L_GET_battle]
 \<and> count_list (history (run pg_decimal [QueryCompletes, Incoming L_GET_battle]
      (startup (legacy_world [3, 7, 2] None False)))) RepairStarted = 1
 \<and> take 3 (history (run pg_decimal [Incoming L_GET_battle, QueryCompletes]
      (startup (legacy_world [3, 7, 2] None False))))
     = [RepairStarted, Listening, Served L_GET_battle]"
  using repair_started_once_not_awaited [of pg_decimal "[QueryCompletes, Incoming L_GET_battle]"
      "legacy_world [3, 7, 2] None False"]
    repair_started_once_not_awaited [of pg_decimal "[Incoming L_GET_battle, QueryCompletes]"
      "legacy_world [3, 7, 2] None False"]
  by (simp add: run_def startup_def app_listen_def call_ensureIdSequence_def)

text \<open>
  C7 as stated fails: after startup, a request that arrives before the pending query
  completes is served while the repair has not finished.
\<close>

theorem request_served_before_repair_finished:
  "\<not> repaired_before_served (history (run pg_decimal [Incoming L_GET_battle]
      (startup (legacy_world [3, 7, 2] None False))))"
  by (simp add: run_def startup_def app_listen_def call_ensureIdSequence_def)

section \<open>Failures of the store\<close>

lemma pool_query_thrown:
  "pool_query q w = (r, w') \<Longrightarrow>
   (case r of Inl e \<Rightarrow> thrown w' = thrown w @ [e] | Inr a \<Rightarrow> thrown w' = thrown w)"
  by (auto simp: pool_query_def execute_def raise_def
      split: list.splits option.splits fault.splits prod.splits sum.splits)

text \<open>A statement that changes no rows when it fails does so through \<open>pool.query\<close> too,
  unless the connection is lost after the commit.\<close>

lemma pool_query_failed_rows:
  assumes "pool_query q w = (Inl e, w')"
    and "\<And>t d e d'. q t d = (Inl e, d') \<Longrightarrow> same_rows d d'"
  shows "commit_lost w \<or> same_rows (store w) (store w')"
proof -
  have refl: "same_rows d d" for d by (simp add: same_rows_def)
  show ?thesis
    using assms(1) assms(2)[of "clock w" "store w"] refl[of "store w"]
    by (auto simp: pool_query_def execute_def raise_def commit_lost_def
        split: list.splits option.splits fault.splits prod.splits sum.splits)
qed

lemma failed_select_battle_ids_order_by_created_at:
  "select_battle_ids_order_by_created_at t d = (Inl e, d') \<Longrightarrow> same_rows d d'"
  by (auto simp: select_battle_ids_order_by_created_at_def same_rows_def split: option.splits)

lemma failed_select_battle_ids_where_id:
  "select_battle_ids_where_id pg ps t d = (Inl e, d') \<Longrightarrow> same_rows d d'"
  by (auto simp: select_battle_ids_where_id_def same_rows_def
      split: option.splits list.splits sum.splits)

lemma failed_insert_into_battle_ids:
  "insert_into_battle_ids pg ps t d = (Inl e, d') \<Longrightarrow> same_rows d d'"
  by (auto simp: insert_into_battle_ids_def same_rows_def nextval_def Let_def
      split: option.splits list.splits sum.splits if_splits)

lemma failed_update_battle_ids:
  "update_battle_ids pg ps t d = (Inl e, d') \<Longrightarrow> same_rows d d'"
  by (auto simp: update_battle_ids_def same_rows_def Let_def
      split: option.splits list.splits sum.splits if_splits)

lemma failed_delete_from_battle_ids:
  "delete_from_battle_ids pg ps t d = (Inl e, d') \<Longrightarrow> same_rows d d'"
  by (auto simp: delete_from_battle_ids_def same_rows_def Let_def
      split: option.splits list.splits sum.splits if_splits)

lemma failed_select_awards_catalog_order_by_id:
  "select_awards_catalog_order_by_id t d = (Inl e, d') \<Longrightarrow> same_rows d d'"
  by (auto simp: select_awards_catalog_order_by_id_def same_rows_def split: option.splits)

lemma failed_insert_into_awards_catalog:
  "insert_into_awards_catalog ps t d = (Inl e, d') \<Longrightarrow> same_rows d d'"
  by (auto simp: insert_into_awards_catalog_def same_rows_def nextval_def Let_def
      split: option.splits list.splits sum.splits if_splits)

lemma failed_insert_into_awards:
  "insert_into_awards pg ps t d = (Inl e, d') \<Longrightarrow> same_rows d d'"
  by (auto simp: insert_into_awards_def same_rows_def nextval_def Let_def
      split: option.splits list.splits sum.splits if_splits)

lemma failed_select_awards_join_catalog:
  "select_awards_join_catalog pg ps t d = (Inl e, d') \<Longrightarrow> same_rows d d'"
  by (auto simp: select_awards_join_catalog_def same_rows_def
      split: option.splits list.splits sum.splits)

lemma failed_insert_into_rank_changes:
  "insert_into_rank_changes pg ps t d = (Inl e, d') \<Longrightarrow> same_rows d d'"
  by (auto simp: insert_into_rank_changes_def same_rows_def nextval_def Let_def
      split: option.splits list.splits sum.splits if_splits)

lemma failed_insert_into_commendations:
  "insert_into_commendations pg ps t d = (Inl e, d') \<Longrightarrow> same_rows d d'"
  by (auto simp: insert_into_commendations_def same_rows_def nextval_def Let_def
      split: option.splits list.splits sum.splits if_splits)


lemma failed_legacy_select: "legacy_select_order_by_id_desc t d = (Inl e, d') \<Longrightarrow> lg_rows d' = lg_rows d"
  by (simp add: legacy_select_order_by_id_desc_def)

lemma failed_legacy_insert: "legacy_insert ps t d = (Inl e, d') \<Longrightarrow> lg_rows d' = lg_rows d"
  by (auto simp: legacy_insert_def legacy_id_default_def Let_def
      split: option.splits list.splits sum.splits if_splits)

lemma failed_legacy_update: "legacy_update pg ps t d = (Inl e, d') \<Longrightarrow> lg_rows d' = lg_rows d"
  by (auto simp: legacy_update_def Let_def split: option.splits list.splits sum.splits if_splits)

lemma failed_legacy_delete: "legacy_delete pg ps t d = (Inl e, d') \<Longrightarrow> lg_rows d' = lg_rows d"
  by (auto simp: legacy_delete_def Let_def split: option.splits list.splits sum.splits if_splits)

lemma pool_query_failed_lg_rows:
  assumes "pool_query q w = (Inl e, w')"
    and "\<And>t d e d'. q t d = (Inl e, d') \<Longrightarrow> lg_rows d' = lg_rows d"
  shows "commit_lost w \<or> lg_rows (store w') = lg_rows (store w)"
  using assms(1) assms(2)[of "clock w" "store w"]
  by (auto simp: pool_query_def execute_def raise_def commit_lost_def
      split: list.splits option.splits fault.splits prod.splits sum.splits)

text \<open>The shape of every handler with one call of \<open>pool.query\<close>.\<close>

lemma one_query_handler:
  assumes "(case pool_query q w of
              (Inl err, w1) \<Rightarrow> (res_status_json 500 (JsonError err), w1)
            | (Inr v, w1) \<Rightarrow> (res_json (f v), w1)) = (res, w')"
    and "\<And>t d e d'. q t d = (Inl e, d') \<Longrightarrow> same_rows d d'"
  shows "(thrown w' = thrown w \<and> res_status res = 200)
       \<or> (\<exists>e. thrown w' = thrown w @ [e]
              \<and> res = \<lparr>res_status = 500, res_sent = JsonError e\<rparr>
              \<and> (commit_lost w \<or> same_rows (store w) (store w')))"
proof -
  obtain r w1 where q: "pool_query q w = (r, w1)" by fastforce
  show ?thesis
  proof (cases r)
    case (Inl e)
    with q assms(1) have "res = \<lparr>res_status = 500, res_sent = JsonError e\<rparr>" "w' = w1"
      by (simp_all add: res_status_json_def)
    moreover from pool_query_thrown[OF q] Inl have "thrown w1 = thrown w @ [e]" by simp
    moreover have "pool_query q w = (Inl e, w1)" using q Inl by simp
    then have "commit_lost w \<or> same_rows (store w) (store w1)"
      by (rule pool_query_failed_rows) (rule assms(2))
    ultimately show ?thesis by blast
  next
    case (Inr v)
    with q assms(1) have "res_status res = 200" "w' = w1"
      by (auto simp: res_json_def)
    moreover from pool_query_thrown[OF q] Inr have "thrown w1 = thrown w" by simp
    ultimately show ?thesis by blast
  qed
qed

lemma one_query_legacy_handler:
  assumes "(case pool_query q w of
              (Inl err, w1) \<Rightarrow> (res_status_json 500 (JsonErrorText m), w1)
            | (Inr v, w1) \<Rightarrow> (res_json (f v), w1)) = (res, w')"
    and "\<And>t d e d'. q t d = (Inl e, d') \<Longrightarrow> lg_rows d' = lg_rows d"
  shows "(thrown w' = thrown w \<and> res_status res = 200)
       \<or> (\<exists>e. thrown w' = thrown w @ [e]
              \<and> res = \<lparr>res_status = 500, res_sent = JsonErrorText m\<rparr>
              \<and> (commit_lost w \<or> lg_rows (store w') = lg_rows (store w)))"
proof -
  obtain r w1 where q: "pool_query q w = (r, w1)" by fastforce
  show ?thesis
  proof (cases r)
    case (Inl e)
    with q assms(1) have "res = \<lparr>res_status = 500, res_sent = JsonErrorText m\<rparr>" "w' = w1"
      by (simp_all add: res_status_json_def)
    moreover from pool_query_thrown[OF q] Inl have "thrown w1 = thrown w @ [e]" by simp
    moreover have "pool_query q w = (Inl e, w1)" using q Inl by simp
    then have "commit_lost w \<or> lg_rows (store w1) = lg_rows (store w)"
      by (rule pool_query_failed_lg_rows) (rule assms(2))
    ultimately show ?thesis by blast
  next
    case (Inr v)
    with q assms(1) have "res_status res = 200" "w' = w1"
      by (auto simp: res_json_def)
    moreover from pool_query_thrown[OF q] Inr have "thrown w1 = thrown w" by simp
    ultimately show ?thesis by blast
  qed
qed

lemma commendation_handler:
  assumes "post_api_battle_commendation pg i b w = (res, w')"
  shows "(thrown w' = thrown w \<and> res_status res = 200)
       \<or> (\<exists>e. thrown w' = thrown w @ [e] \<and> res = \<lparr>res_status = 500, res_sent = JsonError e\<rparr>)"
proof -
  obtain r1 w1 where q1: "pool_query (insert_into_commendations pg
      [JStr i, field b ''level'', field b ''notes'']) w = (r1, w1)" by fastforce
  obtain r2 w2 where q2: "pool_query (update_commendations_count pg [JStr i]) w1 = (r2, w2)"
    by fastforce
  show ?thesis
  proof (cases r1)
    case (Inl e)
    with q1 assms pool_query_thrown[OF q1] show ?thesis
      by (simp add: post_api_battle_commendation_def Let_def res_status_json_def)
  next
    case r1: (Inr rs)
    show ?thesis
    proof (cases r2)
      case (Inl e)
      with r1 q1 q2 assms pool_query_thrown[OF q1] pool_query_thrown[OF q2] show ?thesis
        by (simp add: post_api_battle_commendation_def Let_def res_status_json_def)
    next
      case (Inr u)
      with r1 q1 q2 assms pool_query_thrown[OF q1] pool_query_thrown[OF q2] show ?thesis
        by (auto simp: post_api_battle_commendation_def Let_def res_json_def)
    qed
  qed
qed

lemma health_check:
  assumes "handle pg GET_root w = (res, w')"
  shows "res_status res = 200
       \<and> ((thrown w' = thrown w \<and> res_sent res = JsonHealthUp (clock w))
          \<or> (\<exists>e. thrown w' = thrown w @ [e] \<and> res_sent res = JsonHealthDown e))"
proof -
  obtain r w1 where q: "pool_query select_now w = (r, w1)" by fastforce
  show ?thesis
  proof (cases r)
    case (Inl e)
    with q assms pool_query_thrown[OF q] show ?thesis
      by (auto simp: get_root_def res_json_def)
  next
    case (Inr t)
    from pool_query_Inr[OF q[unfolded Inr]] have "t = clock w"
      by (simp add: select_now_def)
    with Inr q assms pool_query_thrown[OF q] show ?thesis
      by (auto simp: get_root_def res_json_def)
  qed
qed

lemma occur_Request:
  "uncaught s = None \<Longrightarrow>
   occur h (Request r) s
     = s\<lparr>srv_world := snd (h r (srv_world s)), answers := answers s @ [fst (h r (srv_world s))]\<rparr>"
  by (simp split: prod.splits)

lemma serve_exited: "uncaught s = Some e \<Longrightarrow> serve h os s = s"
proof (induction os)
  case Nil
  then show ?case by (simp add: serve_def)
next
  case (Cons a os)
  then show ?case by (cases a) (simp_all add: serve_def)
qed

lemma serve_requests:
  "uncaught s = None \<Longrightarrow>
   uncaught (serve h (map Request rs) s) = None
   \<and> length (answers (serve h (map Request rs) s)) = length (answers s) + length rs"
proof (induction rs arbitrary: s)
  case Nil
  then show ?case by (simp add: serve_def)
next
  case (Cons r rs)
  have "serve h (map Request (r # rs)) s = serve h (map Request rs) (occur h (Request r) s)"
    by (simp add: serve_def)
  moreover have "uncaught (occur h (Request r) s) = None"
    "length (answers (occur h (Request r) s)) = Suc (length (answers s))"
    using Cons.prems by (simp_all split: prod.splits)
  ultimately show ?case using Cons.IH[of "occur h (Request r) s"] by simp
qed

lemma serve_IdleClientError:
  assumes "uncaught s = None"
  shows "serve h (IdleClientError x # os) s = s\<lparr>uncaught := Some x\<rparr>"
proof -
  have "serve h (IdleClientError x # os) s = serve h os (s\<lparr>uncaught := Some x\<rparr>)"
    using assms by (simp add: serve_def)
  also have "\<dots> = s\<lparr>uncaught := Some x\<rparr>"
    by (rule serve_exited[of _ x]) simp
  finally show ?thesis .
qed

text \<open>
  C8, as the code has it. Every handler but the health check answers either with status
  200, and then no call of \<open>pool.query\<close> was rejected, or, when a call was rejected with
  an error \<open>e\<close>, with status 500 and the body \<open>{ error: e.message }\<close> (in the legacy
  server: with the handler's fixed text). The health check answers with status 200
  either way, with \<open>db: false\<close> and the message when its call was rejected. A failed
  request other than the commendation grant leaves the rows of every table as they
  were (a sequence may have moved), unless the connection was lost after the commit. A
  request, failed or not, does not end the process: it is answered by its handler and
  the next one is served. An error of an idle client of the pool ends the process,
  after which nothing is answered.
\<close>

theorem store_failure_is_500:
  "(r \<noteq> GET_root \<and> handle pg r w = (res, w') \<longrightarrow>
      (thrown w' = thrown w \<and> res_status res = 200)
      \<or> (\<exists>e. thrown w' = thrown w @ [e]
             \<and> res = \<lparr>res_status = 500, res_sent = JsonError e\<rparr>
             \<and> (is_commendation r \<or> commit_lost w \<or> same_rows (store w) (store w'))))
 \<and> (handle pg GET_root w = (res, w') \<longrightarrow>
      res_status res = 200
      \<and> ((thrown w' = thrown w \<and> res_sent res = JsonHealthUp (clock w))
         \<or> (\<exists>e. thrown w' = thrown w @ [e] \<and> res_sent res = JsonHealthDown e)))
 \<and> (legacy_handle pg lr v = (lres, v') \<longrightarrow>
      (thrown v' = thrown v \<and> res_status lres = 200)
      \<or> (\<exists>e. thrown v' = thrown v @ [e]
             \<and> lres = \<lparr>res_status = 500, res_sent = JsonErrorText (legacy_message lr)\<rparr>
             \<and> (commit_lost v \<or> lg_rows (store v') = lg_rows (store v))))
 \<and> (uncaught s = None \<longrightarrow>
      occur (handle pg) (Request r) s
        = s\<lparr>srv_world := snd (handle pg r (srv_world s)),
            answers := answers s @ [fst (handle pg r (srv_world s))]\<rparr>
      \<and> uncaught (serve (handle pg) (map Request rs) s) = None
      \<and> length (answers (serve (handle pg) (map Request rs) s)) = length (answers s) + length rs
      \<and> serve (handle pg) (IdleClientError x # os) s = s\<lparr>uncaught := Some x\<rparr>)
 \<and> (uncaught ls = None \<longrightarrow>
      occur (legacy_handle pg) (Request lr) ls
        = ls\<lparr>srv_world := snd (legacy_handle pg lr (srv_world ls)),
             answers := answers ls @ [fst (legacy_handle pg lr (srv_world ls))]\<rparr>
      \<and> uncaught (serve (legacy_handle pg) (map Request lrs) ls) = None
      \<and> length (answers (serve (legacy_handle pg) (map Request lrs) ls))
          = length (answers ls) + length lrs
      \<and> serve (legacy_handle pg) (IdleClientError x # los) ls = ls\<lparr>uncaught := Some x\<rparr>)"
proof (intro conjI impI)
  assume a: "r \<noteq> GET_root \<and> handle pg r w = (res, w')"
  have *: "(thrown w' = thrown w \<and> res_status res = 200)
      \<or> (\<exists>e. thrown w' = thrown w @ [e]
             \<and> res = \<lparr>res_status = 500, res_sent = JsonError e\<rparr>
             \<and> (commit_lost w \<or> same_rows (store w) (store w')))" if "\<not> is_commendation r"
  proof (cases r)
    case GET_root
    with a show ?thesis by simp
  next
    case GET_battle
    with a show ?thesis
      by (intro one_query_handler[OF _ failed_select_battle_ids_order_by_created_at])
        (simp add: get_api_battle_def)
  next
    case (GET_battle_id i)
    with a show ?thesis
      by (intro one_query_handler[OF _ failed_select_battle_ids_where_id])
        (simp add: get_api_battle_id_def)
  next
    case (POST_battle b)
    with a show ?thesis
      by (intro one_query_handler[OF _ failed_insert_into_battle_ids])
        (simp add: post_api_battle_def Let_def)
  next
    case (PUT_battle_id i b)
    with a show ?thesis
      by (intro one_query_handler[OF _ failed_update_battle_ids])
        (simp add: put_api_battle_id_def Let_def)
  next
    case (DELETE_battle_id i)
    with a show ?thesis
      by (intro one_query_handler[OF _ failed_delete_from_battle_ids, where f = "\<lambda>_. JsonSuccess"])
        (simp add: delete_api_battle_id_def)
  next
    case GET_awards_catalog
    with a show ?thesis
      by (intro one_query_handler[OF _ failed_select_awards_catalog_order_by_id])
        (simp add: get_api_awards_catalog_def)
  next
    case (POST_awards_catalog b)
    with a show ?thesis
      by (intro one_query_handler[OF _ failed_insert_into_awards_catalog])
        (simp add: post_api_awards_catalog_def Let_def)
  next
    case (POST_awards i b)
    with a show ?thesis
      by (intro one_query_handler[OF _ failed_insert_into_awards])
        (simp add: post_api_awards_def Let_def)
  next
    case (GET_awards i)
    with a show ?thesis
      by (intro one_query_handler[OF _ failed_select_awards_join_catalog])
        (simp add: get_api_awards_def)
  next
    case (POST_rank_change i b)
    with a show ?thesis
      by (intro one_query_handler[OF _ failed_insert_into_rank_changes])
        (simp add: post_api_battle_rank_change_def Let_def)
  next
    case (POST_commendation i b)
    with that show ?thesis by (simp add: is_commendation_def)
  qed
  show "(thrown w' = thrown w \<and> res_status res = 200)
      \<or> (\<exists>e. thrown w' = thrown w @ [e]
             \<and> res = \<lparr>res_status = 500, res_sent = JsonError e\<rparr>
             \<and> (is_commendation r \<or> commit_lost w \<or> same_rows (store w) (store w')))"
  proof (cases "is_commendation r")
    case True
    then obtain i b where "r = POST_commendation i b"
      by (auto simp: is_commendation_def split: request.splits)
    with a commendation_handler[of pg i b w res w'] True show ?thesis by auto
  next
    case False
    with *[OF False] show ?thesis by blast
  qed
next
  assume "handle pg GET_root w = (res, w')"
  then show "res_status res = 200"
    "(thrown w' = thrown w \<and> res_sent res = JsonHealthUp (clock w))
       \<or> (\<exists>e. thrown w' = thrown w @ [e] \<and> res_sent res = JsonHealthDown e)"
    using health_check by blast+
next
  assume a: "legacy_handle pg lr v = (lres, v')"
  show "(thrown v' = thrown v \<and> res_status lres = 200)
      \<or> (\<exists>e. thrown v' = thrown v @ [e]
             \<and> lres = \<lparr>res_status = 500, res_sent = JsonErrorText (legacy_message lr)\<rparr>
             \<and> (commit_lost v \<or> lg_rows (store v') = lg_rows (store v)))"
  proof (cases lr)
    case L_GET_root
    with a show ?thesis by (auto simp: legacy_get_root_def res_json_def)
  next
    case L_GET_battle
    with a show ?thesis
      by (simp only: legacy_message.simps)
        (intro one_query_legacy_handler[OF _ failed_legacy_select],
         simp add: legacy_get_api_battle_def)
  next
    case (L_POST_battle b)
    with a show ?thesis
      by (simp only: legacy_message.simps)
        (intro one_query_legacy_handler[OF _ failed_legacy_insert],
         simp add: legacy_post_api_battle_def Let_def)
  next
    case (L_PUT_battle_id i b)
    with a show ?thesis
      by (simp only: legacy_message.simps)
        (intro one_query_legacy_handler[OF _ failed_legacy_update],
         simp add: legacy_put_api_battle_id_def Let_def)
  next
    case (L_DELETE_battle_id i)
    with a show ?thesis
      by (simp only: legacy_message.simps)
        (intro one_query_legacy_handler[OF _ failed_legacy_delete, where f = "\<lambda>_. JsonSuccess"],
         simp add: legacy_delete_api_battle_id_def)
  qed
next
  assume a: "uncaught s = None"
  then show "occur (handle pg) (Request r) s
        = s\<lparr>srv_world := snd (handle pg r (srv_world s)),
            answers := answers s @ [fst (handle pg r (srv_world s))]\<rparr>"
    "serve (handle pg) (IdleClientError x # os) s = s\<lparr>uncaught := Some x\<rparr>"
    by (rule occur_Request, rule serve_IdleClientError)
  from serve_requests[OF a, of "handle pg" rs]
  show "uncaught (serve (handle pg) (map Request rs) s) = None"
    "length (answers (serve (handle pg) (map Request rs) s)) = length (answers s) + length rs"
    by simp_all
next
  assume a: "uncaught ls = None"
  then show "occur (legacy_handle pg) (Request lr) ls
        = ls\<lparr>srv_world := snd (legacy_handle pg lr (srv_world ls)),
             answers := answers ls @ [fst (legacy_handle pg lr (srv_world ls))]\<rparr>"
    "serve (legacy_handle pg) (IdleClientError x # los) ls = ls\<lparr>uncaught := Some x\<rparr>"
    by (rule occur_Request, rule serve_IdleClientError)
  from serve_requests[OF a, of "legacy_handle pg" lrs]
  show "uncaught (serve (legacy_handle pg) (map Request lrs) ls) = None"
    "length (answers (serve (legacy_handle pg) (map Request lrs) ls))
          = length (answers ls) + length lrs"
    by simp_all
qed

theorem store_failure_is_500_witness:
  "fst (handle pg_decimal (POST_battle Map.empty) example_world)
     = \<lparr>res_status = 500, res_sent = JsonError (NotNullViolation ''battle_ids'' ''name'')\<rparr>
 \<and> thrown (snd (handle pg_decimal (POST_battle Map.empty) example_world))
     = [NotNullViolation ''battle_ids'' ''name'']
 \<and> same_rows (store example_world)
      (store (snd (handle pg_decimal (POST_battle Map.empty) example_world)))
 \<and> fst (handle pg_decimal GET_battle offline_world)
     = \<lparr>res_status = 500, res_sent = JsonError (ConnectionFailure ''ECONNREFUSED'')\<rparr>
 \<and> fst (handle pg_decimal (POST_battle [''name'' \<mapsto> JStr ''Cy'']) severed_world)
     = \<lparr>res_status = 500, res_sent = JsonError (ConnectionFailure ''ECONNRESET'')\<rparr>
 \<and> map_option rows (battle_ids (store (snd
       (handle pg_decimal (POST_battle [''name'' \<mapsto> JStr ''Cy'']) severed_world))))
     = Some [operative 1 ''Ana'' 0 10, operative 2 ''Ben'' 0 20, operative 3 ''Cy'' 0 30]
 \<and> fst (legacy_handle pg_decimal L_GET_battle offline_legacy_world)
     = \<lparr>res_status = 500, res_sent = JsonErrorText Chyba_pri_nacitani_dat\<rparr>
 \<and> lg_rows (store (snd (legacy_handle pg_decimal L_GET_battle offline_legacy_world)))
     = lg_rows (store offline_legacy_world)
 \<and> answers (serve (handle pg_decimal) [Request GET_battle, Request GET_root]
      (listen offline_world))
     = [\<lparr>res_status = 500, res_sent = JsonError (ConnectionFailure ''ECONNREFUSED'')\<rparr>,
        \<lparr>res_status = 200, res_sent = JsonHealthUp 30\<rparr>]
 \<and> uncaught (serve (handle pg_decimal) [Request GET_battle, Request GET_root]
      (listen offline_world)) = None"
proof -
  have e1: "fst (handle pg_decimal (POST_battle Map.empty) example_world)
     = \<lparr>res_status = 500, res_sent = JsonError (NotNullViolation ''battle_ids'' ''name'')\<rparr>"
    "thrown (snd (handle pg_decimal (POST_battle Map.empty) example_world))
     = [NotNullViolation ''battle_ids'' ''name'']"
    "thrown example_world = []" "\<not> commit_lost example_world"
    by (simp_all add: post_api_battle_def field_def js_or_def pool_query_def execute_def raise_def
        insert_into_battle_ids_def bind_date_def nextval_def battle_ids_constraints_def
        res_status_json_def example_world_def example_db_def commit_lost_def Let_def)
  have e2: "fst (handle pg_decimal GET_battle offline_world)
     = \<lparr>res_status = 500, res_sent = JsonError (ConnectionFailure ''ECONNREFUSED'')\<rparr>"
    "snd (handle pg_decimal GET_battle offline_world)
     = example_world\<lparr>thrown := [ConnectionFailure ''ECONNREFUSED'']\<rparr>"
    by (simp_all add: get_api_battle_def pool_query_def raise_def res_status_json_def
        offline_world_def example_world_def)
  have e3: "fst (legacy_handle pg_decimal L_GET_battle offline_legacy_world)
     = \<lparr>res_status = 500, res_sent = JsonErrorText Chyba_pri_nacitani_dat\<rparr>"
    "thrown (snd (legacy_handle pg_decimal L_GET_battle offline_legacy_world))
     \<noteq> thrown offline_legacy_world" "\<not> commit_lost offline_legacy_world"
    by (simp_all add: legacy_get_api_battle_def pool_query_def raise_def res_status_json_def
        offline_legacy_world_def legacy_world_def commit_lost_def)
  have e4: "fst (handle pg_decimal (POST_battle [''name'' \<mapsto> JStr ''Cy'']) severed_world)
     = \<lparr>res_status = 500, res_sent = JsonError (ConnectionFailure ''ECONNRESET'')\<rparr>"
    "map_option rows (battle_ids (store (snd
       (handle pg_decimal (POST_battle [''name'' \<mapsto> JStr ''Cy'']) severed_world))))
     = Some [operative 1 ''Ana'' 0 10, operative 2 ''Ben'' 0 20, operative 3 ''Cy'' 0 30]"
    by (simp_all add: post_api_battle_def field_def js_or_def pool_query_def raise_def
        insert_into_battle_ids_def bind_date_def nextval_def battle_ids_constraints_def
        strikes_levels_def res_status_json_def severed_world_def example_world_def
        example_db_def operative_def Let_def)
  have e5: "handle pg_decimal GET_root (example_world\<lparr>thrown := [ConnectionFailure ''ECONNREFUSED'']\<rparr>)
     = (\<lparr>res_status = 200, res_sent = JsonHealthUp 30\<rparr>,
        example_world\<lparr>thrown := [ConnectionFailure ''ECONNREFUSED'']\<rparr>)"
    by (simp add: get_root_def pool_query_def execute_def select_now_def res_json_def
        example_world_def)
  note t = store_failure_is_500 [where r = "POST_battle Map.empty" and pg = pg_decimal
      and w = example_world
      and res = "fst (handle pg_decimal (POST_battle Map.empty) example_world)"
      and w' = "snd (handle pg_decimal (POST_battle Map.empty) example_world)"
      and lr = L_GET_battle and v = offline_legacy_world
      and lres = "fst (legacy_handle pg_decimal L_GET_battle offline_legacy_world)"
      and v' = "snd (legacy_handle pg_decimal L_GET_battle offline_legacy_world)"]
  from t e1 e3
  have r: "same_rows (store example_world)
      (store (snd (handle pg_decimal (POST_battle Map.empty) example_world)))"
    "lg_rows (store (snd (legacy_handle pg_decimal L_GET_battle offline_legacy_world)))
     = lg_rows (store offline_legacy_world)"
    by (auto simp: is_commendation_def)
  have s: "serve (handle pg_decimal) [Request GET_battle, Request GET_root] (listen offline_world)
     = \<lparr>srv_world = example_world\<lparr>thrown := [ConnectionFailure ''ECONNREFUSED'']\<rparr>,
        uncaught = None,
        answers = [\<lparr>res_status = 500, res_sent = JsonError (ConnectionFailure ''ECONNREFUSED'')\<rparr>,
                   \<lparr>res_status = 200, res_sent = JsonHealthUp 30\<rparr>]\<rparr>"
  proof -
    have "handle pg_decimal GET_battle offline_world
       = (\<lparr>res_status = 500, res_sent = JsonError (ConnectionFailure ''ECONNREFUSED'')\<rparr>,
          example_world\<lparr>thrown := [ConnectionFailure ''ECONNREFUSED'']\<rparr>)"
      using e2 by (simp add: prod_eq_iff)
    with e5 show ?thesis by (simp add: serve_def listen_def)
  qed
  from e1 e2 e3 e4 r s show ?thesis by simp
qed

text \<open>
  C8 as stated fails for the health check: with the connection lost, \<open>GET /\<close> catches the
  error and answers with status 200 and \<open>db: false\<close>. It also fails for a store failure
  outside a request: when an idle client of the pool loses its connection, the process
  exits and the request that follows is not answered, in both servers. And a failed
  request can show in a later one: a rejected insert has taken a value of the sequence,
  so the operative created next gets the id 4 where it would have got 3.
\<close>

theorem health_check_failure_is_200:
  "handle pg_decimal GET_root offline_world
     = (\<lparr>res_status = 200, res_sent = JsonHealthDown (ConnectionFailure ''ECONNREFUSED'')\<rparr>,
        example_world\<lparr>thrown := [ConnectionFailure ''ECONNREFUSED'']\<rparr>)
 \<and> serve (legacy_handle pg_decimal)
      [IdleClientError (ConnectionFailure ''ECONNRESET''), Request L_GET_battle]
      (listen (legacy_world [3, 7, 2] None False))
     = \<lparr>srv_world = legacy_world [3, 7, 2] None False,
        uncaught = Some (ConnectionFailure ''ECONNRESET''), answers = []\<rparr>
 \<and> serve (handle pg_decimal)
      [IdleClientError (ConnectionFailure ''ECONNRESET''), Request GET_battle]
      (listen example_world)
     = \<lparr>srv_world = example_world,
        uncaught = Some (ConnectionFailure ''ECONNRESET''), answers = []\<rparr>
 \<and> fst (serve_all pg_decimal [POST_battle [''name'' \<mapsto> JStr ''Cy'']] example_world)
     = [\<lparr>res_status = 200, res_sent = JsonRow (BattleRow (operative 3 ''Cy'' 0 30))\<rparr>]
 \<and> fst (serve_all pg_decimal [POST_battle Map.empty, POST_battle [''name'' \<mapsto> JStr ''Cy'']]
           example_world)
     = [\<lparr>res_status = 500, res_sent = JsonError (NotNullViolation ''battle_ids'' ''name'')\<rparr>,
        \<lparr>res_status = 200, res_sent = JsonRow (BattleRow (operative 4 ''Cy'' 0 30))\<rparr>]"
proof -
  have 1: "handle pg_decimal GET_root offline_world
     = (\<lparr>res_status = 200, res_sent = JsonHealthDown (ConnectionFailure ''ECONNREFUSED'')\<rparr>,
        example_world\<lparr>thrown := [ConnectionFailure ''ECONNREFUSED'']\<rparr>)"
    by (simp add: get_root_def pool_query_def raise_def res_json_def offline_world_def
        example_world_def)
  have 2: "serve (legacy_handle pg_decimal)
      [IdleClientError (ConnectionFailure ''ECONNRESET''), Request L_GET_battle]
      (listen (legacy_world [3, 7, 2] None False))
     = \<lparr>srv_world = legacy_world [3, 7, 2] None False,
        uncaught = Some (ConnectionFailure ''ECONNRESET''), answers = []\<rparr>"
    "serve (handle pg_decimal)
      [IdleClientError (ConnectionFailure ''ECONNRESET''), Request GET_battle]
      (listen example_world)
     = \<lparr>srv_world = example_world,
        uncaught = Some (ConnectionFailure ''ECONNRESET''), answers = []\<rparr>"
    by (simp_all add: serve_def listen_def)
  have 3: "fst (serve_all pg_decimal [POST_battle [''name'' \<mapsto> JStr ''Cy'']] example_world)
     = [\<lparr>res_status = 200, res_sent = JsonRow (BattleRow (operative 3 ''Cy'' 0 30))\<rparr>]"
    by (simp add: post_api_battle_def field_def js_or_def pool_query_def execute_def
        insert_into_battle_ids_def bind_date_def nextval_def battle_ids_constraints_def
        strikes_levels_def res_json_def rows0_def example_world_def example_db_def
        operative_def Let_def)
  have 4: "fst (serve_all pg_decimal [POST_battle Map.empty, POST_battle [''name'' \<mapsto> JStr ''Cy'']]
           example_world)
     = [\<lparr>res_status = 500, res_sent = JsonError (NotNullViolation ''battle_ids'' ''name'')\<rparr>,
        \<lparr>res_status = 200, res_sent = JsonRow (BattleRow (operative 4 ''Cy'' 0 30))\<rparr>]"
    by (simp add: post_api_battle_def field_def js_or_def pool_query_def execute_def raise_def
        insert_into_battle_ids_def bind_date_def nextval_def battle_ids_constraints_def
        strikes_levels_def res_json_def res_status_json_def rows0_def example_world_def
        example_db_def operative_def Let_def)
  from 1 2 3 4 show ?thesis by simp
qed

section \<open>The commendation grant is two transactions\<close>

lemma pool_query_Inl:
  "pool_query q w = (Inl e, w1) \<Longrightarrow>
   (if commit_lost w then store w1 = snd (q (clock w) (store w))
    else store w1 = store w \<or> q (clock w) (store w) = (Inl e, store w1))"
  by (auto simp: pool_query_def execute_def raise_def commit_lost_def
      split: list.splits option.splits fault.splits prod.splits sum.splits)

lemma insert_into_commendations_Inr:
  assumes "insert_into_commendations pg ps now d = (Inr rs, d')"
  shows "\<exists>r t. rs = [r] \<and> commendations d = Some t
           \<and> d' = d\<lparr>commendations := Some \<lparr>rows = rows t @ [r], next_id = next_id t + 1\<rparr>\<rparr>
           \<and> co_id r = next_id t \<and> co_created_at r = Some now"
  using assms
  by (auto simp: insert_into_commendations_def nextval_def Let_def
      split: option.splits list.splits sum.splits if_splits prod.splits)

lemma update_commendations_count_Inl:
  "update_commendations_count pg ps now d = (Inl e, d') \<Longrightarrow> d' = d"
  by (auto simp: update_commendations_count_def Let_def
      split: option.splits list.splits sum.splits if_splits)

text \<open>
  C10. When the insert of the commendation has succeeded and the update of the counter
  is rejected, the handler answers with status 500 and the error, and the inserted row
  is in the store. \<open>battle_ids\<close> is as it was, the count has not moved, unless the
  connection was lost after the commit of the update: then the store is as the update
  left it. The examples run the handler with the connection lost at the second call,
  before the statement and after its commit, and with the count at 32767, where the
  update overflows the \<open>SMALLINT\<close>.
\<close>

theorem commendation_row_persists_on_error:
  assumes "pool_query (insert_into_commendations pg [JStr i, field b ''level'', field b ''notes'']) w
             = (Inr rs, w1)"
    and "pool_query (update_commendations_count pg [JStr i]) w1 = (Inl e, w2)"
  shows "post_api_battle_commendation pg i b w
           = (\<lparr>res_status = 500, res_sent = JsonError e\<rparr>, w2)
       \<and> (\<exists>r t. rs = [r] \<and> commendations (store w) = Some t
              \<and> map_option rows (commendations (store w2)) = Some (rows t @ [r]))
       \<and> (\<not> commit_lost w1 \<longrightarrow> battle_ids (store w2) = battle_ids (store w))
       \<and> (commit_lost w1 \<longrightarrow>
            store w2 = snd (update_commendations_count pg [JStr i] (clock w1) (store w1)))"
proof -
  from pool_query_Inr[OF assms(1)] insert_into_commendations_Inr
  obtain r t where r: "rs = [r]" "commendations (store w) = Some t"
    "store w1 = (store w)\<lparr>commendations := Some \<lparr>rows = rows t @ [r], next_id = next_id t + 1\<rparr>\<rparr>"
    by blast
  have keep: "commendations (snd (update_commendations_count pg [JStr i] now d)) = commendations d"
    for now d
    by (auto simp: update_commendations_count_def Let_def
        split: option.splits list.splits sum.splits)
  have c: "commendations (store w2) = commendations (store w1)"
  proof (cases "commit_lost w1")
    case True
    with pool_query_Inl[OF assms(2)] keep show ?thesis by simp
  next
    case False
    with pool_query_Inl[OF assms(2)] update_commendations_count_Inl show ?thesis by metis
  qed
  have b: "battle_ids (store w2) = battle_ids (store w)" if "\<not> commit_lost w1"
  proof -
    from that pool_query_Inl[OF assms(2)] update_commendations_count_Inl
    have "store w2 = store w1" by metis
    with r show ?thesis by simp
  qed
  have l: "store w2 = snd (update_commendations_count pg [JStr i] (clock w1) (store w1))"
    if "commit_lost w1"
    using that pool_query_Inl[OF assms(2)] by simp
  from r c b l assms show ?thesis
    by (simp add: post_api_battle_commendation_def Let_def res_status_json_def)
qed

lemma int2_in_2: "int2_in pg_decimal (toString 2) = Some 2"
  by (simp add: pg_decimal_def decimal_in_def digit_of_def toString_def)

theorem commendation_row_persists_on_error_witness:
  "post_api_battle_commendation pg_decimal ''1'' [''level'' \<mapsto> JNum 2] flaky_world
     = (\<lparr>res_status = 500, res_sent = JsonError (ConnectionFailure ''ECONNRESET'')\<rparr>,
        example_world\<lparr>store := example_db\<lparr>commendations :=
                         Some \<lparr>rows = [commendation 1 1 2 30], next_id = 2\<rparr>\<rparr>,
                       thrown := [ConnectionFailure ''ECONNRESET'']\<rparr>)
 \<and> fst (post_api_battle_commendation pg_decimal ''1'' [''level'' \<mapsto> JNum 2] veteran_world)
     = \<lparr>res_status = 500, res_sent = JsonError (NumericValueOutOfRange ''smallint'')\<rparr>
 \<and> map_option rows (commendations (store (snd
       (post_api_battle_commendation pg_decimal ''1'' [''level'' \<mapsto> JNum 2] veteran_world))))
     = Some [commendation 1 1 2 30]
 \<and> post_api_battle_commendation pg_decimal ''1'' [''level'' \<mapsto> JNum 2] torn_world
     = (\<lparr>res_status = 500, res_sent = JsonError (ConnectionFailure ''ECONNRESET'')\<rparr>,
        example_world\<lparr>store := example_db\<lparr>commendations :=
                         Some \<lparr>rows = [commendation 1 1 2 30], next_id = 2\<rparr>,
                         battle_ids := Some \<lparr>rows = [operative 1 ''Ana'' 1 10,
                                                      operative 2 ''Ben'' 0 20],
                                              next_id = 3\<rparr>\<rparr>,
                       thrown := [ConnectionFailure ''ECONNRESET'']\<rparr>)"
proof -
  define w1 where "w1 = example_world\<lparr>store := example_db\<lparr>commendations :=
      Some \<lparr>rows = [commendation 1 1 2 30], next_id = 2\<rparr>\<rparr>,
      faults := [Some (LostBeforeStatement (ConnectionFailure ''ECONNRESET''))]\<rparr>"
  define w2 where "w2 = example_world\<lparr>store := example_db\<lparr>commendations :=
      Some \<lparr>rows = [commendation 1 1 2 30], next_id = 2\<rparr>\<rparr>,
      thrown := [ConnectionFailure ''ECONNRESET'']\<rparr>"
  have a1: "pool_query (insert_into_commendations pg_decimal
        [JStr ''1'', field [''level'' \<mapsto> JNum 2] ''level'', field [''level'' \<mapsto> JNum 2] ''notes''])
        flaky_world = (Inr [commendation 1 1 2 30], w1)"
    by (simp add: int4_in_1 int2_in_2 w1_def flaky_world_def example_world_def example_db_def
        pool_query_def execute_def insert_into_commendations_def bind_int4_def bind_int2_def
        nextval_def references_battle_ids_def field_def empty_table_def commendation_def
        operative_def Let_def)
  have a2: "pool_query (update_commendations_count pg_decimal [JStr ''1'']) w1
        = (Inl (ConnectionFailure ''ECONNRESET''), w2)"
    by (simp add: w1_def w2_def pool_query_def raise_def example_world_def)
  define v1 where "v1 = veteran_world\<lparr>store := veteran_db\<lparr>commendations :=
      Some \<lparr>rows = [commendation 1 1 2 30], next_id = 2\<rparr>\<rparr>\<rparr>"
  have b1: "pool_query (insert_into_commendations pg_decimal
        [JStr ''1'', field [''level'' \<mapsto> JNum 2] ''level'', field [''level'' \<mapsto> JNum 2] ''notes''])
        veteran_world = (Inr [commendation 1 1 2 30], v1)"
    by (simp add: int4_in_1 int2_in_2 v1_def veteran_world_def veteran_db_def example_db_def
        pool_query_def execute_def insert_into_commendations_def bind_int4_def bind_int2_def
        nextval_def references_battle_ids_def field_def empty_table_def commendation_def
        operative_def Let_def)
  have b2: "pool_query (update_commendations_count pg_decimal [JStr ''1'']) v1
        = (Inl (NumericValueOutOfRange ''smallint''),
           v1\<lparr>thrown := [NumericValueOutOfRange ''smallint'']\<rparr>)"
    by (simp add: int4_in_1 v1_def veteran_world_def veteran_db_def example_db_def
        pool_query_def execute_def raise_def update_commendations_count_def bind_int4_def
        operative_def Let_def)
  define t1 where "t1 = example_world\<lparr>store := example_db\<lparr>commendations :=
      Some \<lparr>rows = [commendation 1 1 2 30], next_id = 2\<rparr>\<rparr>,
      faults := [Some (LostAfterCommit (ConnectionFailure ''ECONNRESET''))]\<rparr>"
  define t2 where "t2 = example_world\<lparr>store := example_db\<lparr>commendations :=
        Some \<lparr>rows = [commendation 1 1 2 30], next_id = 2\<rparr>,
        battle_ids := Some \<lparr>rows = [operative 1 ''Ana'' 1 10, operative 2 ''Ben'' 0 20],
                             next_id = 3\<rparr>\<rparr>,
      thrown := [ConnectionFailure ''ECONNRESET'']\<rparr>"
  have c1: "pool_query (insert_into_commendations pg_decimal
        [JStr ''1'', field [''level'' \<mapsto> JNum 2] ''level'', field [''level'' \<mapsto> JNum 2] ''notes''])
        torn_world = (Inr [commendation 1 1 2 30], t1)"
    by (simp add: int4_in_1 int2_in_2 t1_def torn_world_def example_world_def example_db_def
        pool_query_def execute_def insert_into_commendations_def bind_int4_def bind_int2_def
        nextval_def references_battle_ids_def field_def empty_table_def commendation_def
        operative_def Let_def)
  have c2: "pool_query (update_commendations_count pg_decimal [JStr ''1'']) t1
        = (Inl (ConnectionFailure ''ECONNRESET''), t2)"
    by (simp add: int4_in_1 t1_def t2_def pool_query_def raise_def example_world_def
        example_db_def update_commendations_count_def bind_int4_def operative_def Let_def)
  from commendation_row_persists_on_error[OF a1 a2] commendation_row_persists_on_error[OF b1 b2]
    commendation_row_persists_on_error[OF c1 c2]
  show ?thesis
    by (simp add: w2_def v1_def t2_def)
qed

section \<open>Creating an operative\<close>

lemma insert_into_battle_ids_Inr:
  assumes "insert_into_battle_ids pg
      [name, callsign, role, rank, specialty, ethnicity, dob, strikes_level, notes, avatar, status]
      now d = (Inr rs, d')"
  shows "\<exists>t dob'. battle_ids d = Some t \<and> bind_date pg dob = Inr dob'
       \<and> rs = [\<lparr>bi_id = next_id t, bi_name = prepareValue name,
                 bi_callsign = prepareValue callsign,
                 bi_role = prepareValue role, bi_rank = prepareValue rank,
                 bi_specialty = prepareValue specialty,
                 bi_ethnicity = prepareValue ethnicity, bi_dob = dob',
                 bi_strikes_level = prepareValue strikes_level,
                 bi_commendations_count = Some 0,
                 bi_notes = prepareValue notes,
                 bi_avatar = prepareValue avatar,
                 bi_status = prepareValue status,
                 bi_created_at = Some now\<rparr>]
       \<and> d' = d\<lparr>battle_ids := Some \<lparr>rows = rows t @ rs, next_id = next_id t + 1\<rparr>\<rparr>"
  using assms
  by (auto simp: insert_into_battle_ids_def nextval_def Let_def
      split: option.splits sum.splits if_splits prod.splits)

lemma bind_date_Inr:
  "bind_date pg v = Inr d \<Longrightarrow> d = Option.bind (prepareValue v) (date_in pg)"
  by (auto simp: bind_date_def split: option.splits)

text \<open>
  C3, as the code has it. When \<open>POST /api/battle\<close> succeeds, the row it answers with is
  the row appended to \<open>battle_ids\<close>. A body that omits \<open>strikes_level\<close> gives
  \<open>strikes_level\<close> \<open>'0'\<close>, a body that omits \<open>status\<close> gives \<open>status\<close> \<open>'active'\<close>; so does
  any falsy value of these two fields (\<open>null\<close>, the empty string, \<open>0\<close>, \<open>false\<close>), and a
  truthy value is stored as it is sent. The other nine fields are stored as they are
  sent, \<open>dob\<close> as the date its text denotes.
\<close>

theorem post_api_battle_stored:
  assumes "post_api_battle pg b w = (res, w')" and "res_status res = 200"
  shows "\<exists>r t t'. res_sent res = JsonRow (BattleRow r)
       \<and> battle_ids (store w) = Some t \<and> battle_ids (store w') = Some t'
       \<and> rows t' = rows t @ [r]
       \<and> (b ''strikes_level'' = None \<longrightarrow> bi_strikes_level r = Some ''0'')
       \<and> (b ''status'' = None \<longrightarrow> bi_status r = Some ''active'')
       \<and> bi_strikes_level r = (if truthy (field b ''strikes_level'')
                               then prepareValue (field b ''strikes_level'') else Some ''0'')
       \<and> bi_status r = (if truthy (field b ''status'')
                        then prepareValue (field b ''status'') else Some ''active'')
       \<and> bi_name r = prepareValue (field b ''name'')
       \<and> bi_callsign r = prepareValue (field b ''callsign'')
       \<and> bi_role r = prepareValue (field b ''role'')
       \<and> bi_rank r = prepareValue (field b ''rank'')
       \<and> bi_specialty r = prepareValue (field b ''specialty'')
       \<and> bi_ethnicity r = prepareValue (field b ''ethnicity'')
       \<and> bi_dob r = Option.bind (prepareValue (field b ''dob'')) (date_in pg)
       \<and> bi_notes r = prepareValue (field b ''notes'')
       \<and> bi_avatar r = prepareValue (field b ''avatar'')"
proof -
  define ps where "ps = [field b ''name'', field b ''callsign'', field b ''role'',
      field b ''rank'', field b ''specialty'', field b ''ethnicity'', field b ''dob'',
      js_or (field b ''strikes_level'') (JStr ''0''), field b ''notes'', field b ''avatar'',
      js_or (field b ''status'') (JStr ''active'')]"
  obtain q w1 where q: "pool_query (insert_into_battle_ids pg ps) w = (q, w1)" by fastforce
  have h: "post_api_battle pg b w =
      (case (q, w1) of
         (Inl err, w') \<Rightarrow> (res_status_json 500 (JsonError err), w')
       | (Inr rs, w') \<Rightarrow> (res_json (rows0 BattleRow rs), w'))"
    using q by (simp add: post_api_battle_def Let_def ps_def)
  show ?thesis
  proof (cases q)
    case (Inl e)
    with h assms show ?thesis by (simp add: res_status_json_def)
  next
    case (Inr rs)
    with h assms have res: "res = res_json (rows0 BattleRow rs)" "w' = w1" by simp_all
    from pool_query_Inr[OF q[unfolded Inr]]
    have "insert_into_battle_ids pg ps (clock w) (store w) = (Inr rs, store w1)" by simp
    from insert_into_battle_ids_Inr[OF this[unfolded ps_def]]
    obtain t dob' where t: "battle_ids (store w) = Some t"
      "bind_date pg (field b ''dob'') = Inr dob'"
      "rs = [\<lparr>bi_id = next_id t, bi_name = prepareValue (field b ''name''),
                 bi_callsign = prepareValue (field b ''callsign''),
                 bi_role = prepareValue (field b ''role''),
                 bi_rank = prepareValue (field b ''rank''),
                 bi_specialty = prepareValue (field b ''specialty''),
                 bi_ethnicity = prepareValue (field b ''ethnicity''), bi_dob = dob',
                 bi_strikes_level = prepareValue (js_or (field b ''strikes_level'') (JStr ''0'')),
                 bi_commendations_count = Some 0,
                 bi_notes = prepareValue (field b ''notes''),
                 bi_avatar = prepareValue (field b ''avatar''),
                 bi_status = prepareValue (js_or (field b ''status'') (JStr ''active'')),
                 bi_created_at = Some (clock w)\<rparr>]"
      "store w1 = (store w)\<lparr>battle_ids := Some \<lparr>rows = rows t @ rs, next_id = next_id t + 1\<rparr>\<rparr>"
      by blast
    from t res bind_date_Inr[OF t(2)] show ?thesis
      by (simp add: res_json_def rows0_def js_or_def field_def)
  qed
qed


theorem post_api_battle_stored_witness:
  "post_api_battle pg_decimal [''name'' \<mapsto> JStr ''Cy''] example_world
     = (\<lparr>res_status = 200, res_sent = JsonRow (BattleRow (operative 3 ''Cy'' 0 30))\<rparr>,
        example_world\<lparr>store := example_db\<lparr>battle_ids :=
          Some \<lparr>rows = [operative 1 ''Ana'' 0 10, operative 2 ''Ben'' 0 20,
                         operative 3 ''Cy'' 0 30], next_id = 4\<rparr>\<rparr>\<rparr>)
 \<and> bi_strikes_level (operative 3 ''Cy'' 0 30) = Some ''0''
 \<and> bi_status (operative 3 ''Cy'' 0 30) = Some ''active''
 \<and> (\<exists>r. res_sent (fst (post_api_battle pg_decimal
            [''name'' \<mapsto> JStr ''Dee'', ''strikes_level'' \<mapsto> JStr ''2'',
             ''status'' \<mapsto> JStr ''retired''] example_world)) = JsonRow (BattleRow r)
        \<and> bi_name r = Some ''Dee'' \<and> bi_strikes_level r = Some ''2''
        \<and> bi_status r = Some ''retired'')"
proof -
  have e: "post_api_battle pg_decimal [''name'' \<mapsto> JStr ''Cy''] example_world
     = (\<lparr>res_status = 200, res_sent = JsonRow (BattleRow (operative 3 ''Cy'' 0 30))\<rparr>,
        example_world\<lparr>store := example_db\<lparr>battle_ids :=
          Some \<lparr>rows = [operative 1 ''Ana'' 0 10, operative 2 ''Ben'' 0 20,
                         operative 3 ''Cy'' 0 30], next_id = 4\<rparr>\<rparr>\<rparr>)"
    by (simp add: post_api_battle_def field_def js_or_def pool_query_def execute_def
        insert_into_battle_ids_def bind_date_def nextval_def battle_ids_constraints_def
        strikes_levels_def res_json_def rows0_def example_world_def example_db_def
        operative_def Let_def)
  define b where "b = [''name'' \<mapsto> JStr ''Dee'', ''strikes_level'' \<mapsto> JStr ''2'',
             ''status'' \<mapsto> JStr ''retired'']"
  have s: "res_status (fst (post_api_battle pg_decimal b example_world)) = 200"
    by (simp add: b_def post_api_battle_def field_def js_or_def pool_query_def execute_def
        insert_into_battle_ids_def bind_date_def nextval_def battle_ids_constraints_def
        strikes_levels_def res_json_def rows0_def example_world_def example_db_def
        operative_def Let_def)
  from post_api_battle_stored[of pg_decimal b example_world
      "fst (post_api_battle pg_decimal b example_world)"
      "snd (post_api_battle pg_decimal b example_world)", OF _ s]
  have "\<exists>r. res_sent (fst (post_api_battle pg_decimal b example_world)) = JsonRow (BattleRow r)
        \<and> bi_name r = Some ''Dee'' \<and> bi_strikes_level r = Some ''2''
        \<and> bi_status r = Some ''retired''"
    by (auto simp: b_def field_def)
  with e show ?thesis
    by (simp add: b_def operative_def)
qed


text \<open>
  C3 as stated fails for a \<open>status\<close> that is supplied and empty: the row is stored with
  \<open>status\<close> \<open>'active'\<close>, not with the empty string.
\<close>

theorem empty_status_not_stored_as_supplied:
  "post_api_battle pg_decimal [''name'' \<mapsto> JStr ''Cy'', ''status'' \<mapsto> JStr []] example_world
     = (\<lparr>res_status = 200, res_sent = JsonRow (BattleRow (operative 3 ''Cy'' 0 30))\<rparr>,
        example_world\<lparr>store := example_db\<lparr>battle_ids :=
          Some \<lparr>rows = [operative 1 ''Ana'' 0 10, operative 2 ''Ben'' 0 20,
                         operative 3 ''Cy'' 0 30], next_id = 4\<rparr>\<rparr>\<rparr>)
 \<and> bi_status (operative 3 ''Cy'' 0 30) = Some ''active''
 \<and> bi_status (operative 3 ''Cy'' 0 30) \<noteq> Some []"
  by (simp add: post_api_battle_def field_def js_or_def pool_query_def execute_def
      insert_into_battle_ids_def bind_date_def nextval_def battle_ids_constraints_def
      strikes_levels_def res_json_def rows0_def example_world_def example_db_def
      operative_def Let_def)

section \<open>An id that matches no operative\<close>


















section \<open>Granting commendations\<close>













lemma update_commendations_count_Inr:
  assumes "update_commendations_count pg [JStr i] now d = (Inr u, d')"
    and "int4_in pg i = Some n"
  shows "\<exists>bt. battle_ids d = Some bt
       \<and> d' = d\<lparr>battle_ids := Some (bt\<lparr>rows :=
            map (\<lambda>x. if bi_id x = n
                      then x\<lparr>bi_commendations_count :=
                              map_option (\<lambda>c. c + 1) (bi_commendations_count x)\<rparr>
                      else x) (rows bt)\<rparr>)\<rparr>"
  using assms
  by (auto simp: update_commendations_count_def bind_int4_def Let_def
      split: option.splits sum.splits if_splits)







section \<open>The constraints of the schema are kept\<close>

lemma same_rows_consistent: "same_rows d d' \<Longrightarrow> consistent d \<Longrightarrow> consistent d'"
proof -
  have k: "keys f t = keys f t'" if "map_option rows t = map_option rows t'"
    for f :: "'r \<Rightarrow> int" and t t' :: "'r table option"
    using that by (cases t; cases t') (simp_all add: keys_def)
  have r: "refs_ok f t ids = refs_ok f t' ids" if "map_option rows t = map_option rows t'"
    for f :: "'r \<Rightarrow> int option" and t t' :: "'r table option" and ids
    using that by (cases t; cases t') (simp_all add: refs_ok_def)
  assume s: "same_rows d d'" and c: "consistent d"
  from s have e: "map_option rows (battle_ids d) = map_option rows (battle_ids d')"
    "map_option rows (commendations d) = map_option rows (commendations d')"
    "map_option rows (rank_changes d) = map_option rows (rank_changes d')"
    "map_option rows (awards_catalog d) = map_option rows (awards_catalog d')"
    "map_option rows (awards d) = map_option rows (awards d')"
    by (simp_all add: same_rows_def)
  show ?thesis
    using c
    unfolding consistent_def k[OF e(1)] k[OF e(2)] k[OF e(3)] k[OF e(4)] k[OF e(5)]
      r[OF e(2)] r[OF e(3)] r[OF e(5)]
    by simp
qed

lemma refs_ok_mono: "refs_ok f t ids \<Longrightarrow> set ids \<subseteq> set ids' \<Longrightarrow> refs_ok f t ids'"
  by (cases t) (auto simp: refs_ok_def list_all_iff split: option.splits)

lemma consistent_battle_ids:
  assumes "consistent d" and "distinct (keys bi_id T)"
    and "set (keys bi_id (battle_ids d)) \<subseteq> set (keys bi_id T)"
  shows "consistent (d\<lparr>battle_ids := T\<rparr>)"
  using assms by (auto simp: consistent_def intro: refs_ok_mono)

lemma consistent_awards_catalog:
  assumes "consistent d" and "distinct (keys ac_id T)"
    and "set (keys ac_id (awards_catalog d)) \<subseteq> set (keys ac_id T)"
  shows "consistent (d\<lparr>awards_catalog := T\<rparr>)"
  using assms by (auto simp: consistent_def intro: refs_ok_mono)

lemma consistent_commendations:
  assumes "consistent d" and "distinct (keys co_id T)"
    and "refs_ok co_battle_id T (keys bi_id (battle_ids d))"
  shows "consistent (d\<lparr>commendations := T\<rparr>)"
  using assms by (simp add: consistent_def)

lemma consistent_rank_changes:
  assumes "consistent d" and "distinct (keys rc_id T)"
    and "refs_ok rc_battle_id T (keys bi_id (battle_ids d))"
  shows "consistent (d\<lparr>rank_changes := T\<rparr>)"
  using assms by (simp add: consistent_def)

lemma consistent_awards:
  assumes "consistent d" and "distinct (keys aw_id T)"
    and "refs_ok aw_battle_id T (keys bi_id (battle_ids d))"
    and "refs_ok aw_award_id T (keys ac_id (awards_catalog d))"
  shows "consistent (d\<lparr>awards := T\<rparr>)"
  using assms by (simp add: consistent_def)


lemma keys_Some: "keys k (Some t) = map k (rows t)"
  by (simp add: keys_def)

lemma insert_into_battle_ids_fresh:
  assumes "insert_into_battle_ids pg
      [name, callsign, role, rank, specialty, ethnicity, dob, strikes_level, notes, avatar, status]
      now d = (Inr rs, d')"
  shows "\<exists>t t' r. battle_ids d = Some t \<and> d' = d\<lparr>battle_ids := Some t'\<rparr>
       \<and> rows t' = rows t @ [r] \<and> bi_id r \<notin> set (map bi_id (rows t))"
  using assms
  by (auto simp: insert_into_battle_ids_def nextval_def Let_def
      split: option.splits sum.splits if_splits prod.splits)

lemma consistent_insert_into_battle_ids:
  assumes "insert_into_battle_ids pg
      [name, callsign, role, rank, specialty, ethnicity, dob, strikes_level, notes, avatar, status]
      now d = (q, d')" and "consistent d"
  shows "consistent d'"
proof (cases q)
  case (Inl e)
  with assms show ?thesis
    using failed_insert_into_battle_ids same_rows_consistent by blast
next
  case (Inr rs)
  from insert_into_battle_ids_fresh[OF assms(1)[unfolded Inr]]
  obtain t t' r where t: "battle_ids d = Some t" "d' = d\<lparr>battle_ids := Some t'\<rparr>"
    "rows t' = rows t @ [r]" "bi_id r \<notin> set (map bi_id (rows t))"
    by blast
  have "distinct (keys bi_id (battle_ids d))" using assms(2) by (simp add: consistent_def)
  with t show ?thesis
    by (auto intro!: consistent_battle_ids[OF assms(2)] simp: keys_Some)
qed


lemma map_bi_id_update:
  assumes "\<And>r. bi_id (g r) = bi_id r"
  shows "map bi_id (map (\<lambda>r. if P r then g r else r) xs) = map bi_id xs"
  using assms by (induction xs) auto

lemma update_battle_ids_effect:
  assumes "update_battle_ids pg
      [name, callsign, role, rank, specialty, ethnicity, dob, strikes_level, notes, avatar,
       status, ident] now d = (Inr rs, d')"
  shows "\<exists>t t'. battle_ids d = Some t \<and> d' = d\<lparr>battle_ids := Some t'\<rparr>
       \<and> map bi_id (rows t') = map bi_id (rows t)"
  using assms
  by (auto simp: update_battle_ids_def Let_def map_bi_id_update simp del: map_map
      split: option.splits sum.splits list.splits)

lemma consistent_update_battle_ids:
  assumes "update_battle_ids pg
      [name, callsign, role, rank, specialty, ethnicity, dob, strikes_level, notes, avatar,
       status, ident] now d = (q, d')" and "consistent d"
  shows "consistent d'"
proof (cases q)
  case (Inl e)
  with assms show ?thesis
    using failed_update_battle_ids same_rows_consistent by blast
next
  case (Inr rs)
  from update_battle_ids_effect[OF assms(1)[unfolded Inr]]
  obtain t t' where t: "battle_ids d = Some t" "d' = d\<lparr>battle_ids := Some t'\<rparr>"
    "map bi_id (rows t') = map bi_id (rows t)"
    by blast
  have "distinct (keys bi_id (battle_ids d))" using assms(2) by (simp add: consistent_def)
  with t show ?thesis
    by (auto intro!: consistent_battle_ids[OF assms(2)] simp: keys_Some)
qed

lemma consistent_update_commendations_count:
  assumes "update_commendations_count pg [JStr i] now d = (q, d')" and "consistent d"
  shows "consistent d'"
proof (cases q)
  case (Inl e)
  with assms update_commendations_count_Inl show ?thesis by blast
next
  case (Inr u)
  from assms(1)[unfolded Inr] obtain n where "int4_in pg i = Some n"
    by (auto simp: update_commendations_count_def bind_int4_def
        split: option.splits sum.splits)
  from update_commendations_count_Inr[OF assms(1)[unfolded Inr] this]
  obtain bt where bt: "battle_ids d = Some bt"
    "d' = d\<lparr>battle_ids := Some (bt\<lparr>rows :=
            map (\<lambda>x. if bi_id x = n
                      then x\<lparr>bi_commendations_count :=
                              map_option (\<lambda>c. c + 1) (bi_commendations_count x)\<rparr>
                      else x) (rows bt)\<rparr>)\<rparr>"
    by blast
  have "distinct (keys bi_id (battle_ids d))" using assms(2) by (simp add: consistent_def)
  with bt show ?thesis
    by (auto intro!: consistent_battle_ids[OF assms(2)] simp: keys_Some map_bi_id_update
        simp del: map_map)
qed

lemma insert_into_commendations_fresh:
  assumes "insert_into_commendations pg [b, l, x] now d = (Inr rs, d')"
  shows "\<exists>t t' r n. commendations d = Some t \<and> d' = d\<lparr>commendations := Some t'\<rparr>
       \<and> rows t' = rows t @ [r] \<and> co_id r \<notin> set (map co_id (rows t))
       \<and> co_battle_id r = Some n \<and> n \<in> set (keys bi_id (battle_ids d))"
  using assms
  by (auto simp: insert_into_commendations_def nextval_def Let_def references_battle_ids_def
      keys_def
      split: option.splits sum.splits if_splits prod.splits)

lemma consistent_insert_into_commendations:
  assumes "insert_into_commendations pg [b, l, x] now d = (q, d')" and "consistent d"
  shows "consistent d'"
proof (cases q)
  case (Inl e)
  with assms show ?thesis
    using failed_insert_into_commendations same_rows_consistent by blast
next
  case (Inr rs)
  from insert_into_commendations_fresh[OF assms(1)[unfolded Inr]]
  obtain t t' r n where t: "commendations d = Some t" "d' = d\<lparr>commendations := Some t'\<rparr>"
    "rows t' = rows t @ [r]" "co_id r \<notin> set (map co_id (rows t))"
    "co_battle_id r = Some n" "n \<in> set (keys bi_id (battle_ids d))"
    by blast
  have "distinct (keys co_id (commendations d))"
    "refs_ok co_battle_id (commendations d) (keys bi_id (battle_ids d))"
    using assms(2) by (simp_all add: consistent_def)
  with t show ?thesis
    by (auto intro!: consistent_commendations[OF assms(2)] simp: keys_Some refs_ok_def)
qed

lemma insert_into_rank_changes_fresh:
  assumes "insert_into_rank_changes pg [b, c, f, g, x] now d = (Inr rs, d')"
  shows "\<exists>t t' r n. rank_changes d = Some t \<and> d' = d\<lparr>rank_changes := Some t'\<rparr>
       \<and> rows t' = rows t @ [r] \<and> rc_id r \<notin> set (map rc_id (rows t))
       \<and> rc_battle_id r = Some n \<and> n \<in> set (keys bi_id (battle_ids d))"
  using assms
  by (auto simp: insert_into_rank_changes_def nextval_def Let_def references_battle_ids_def
      keys_def
      split: option.splits sum.splits if_splits prod.splits)

lemma consistent_insert_into_rank_changes:
  assumes "insert_into_rank_changes pg [b, c, f, g, x] now d = (q, d')" and "consistent d"
  shows "consistent d'"
proof (cases q)
  case (Inl e)
  with assms show ?thesis
    using failed_insert_into_rank_changes same_rows_consistent by blast
next
  case (Inr rs)
  from insert_into_rank_changes_fresh[OF assms(1)[unfolded Inr]]
  obtain t t' r n where t: "rank_changes d = Some t" "d' = d\<lparr>rank_changes := Some t'\<rparr>"
    "rows t' = rows t @ [r]" "rc_id r \<notin> set (map rc_id (rows t))"
    "rc_battle_id r = Some n" "n \<in> set (keys bi_id (battle_ids d))"
    by blast
  have "distinct (keys rc_id (rank_changes d))"
    "refs_ok rc_battle_id (rank_changes d) (keys bi_id (battle_ids d))"
    using assms(2) by (simp_all add: consistent_def)
  with t show ?thesis
    by (auto intro!: consistent_rank_changes[OF assms(2)] simp: keys_Some refs_ok_def)
qed

lemma insert_into_awards_fresh:
  assumes "insert_into_awards pg [b, a, x] now d = (Inr rs, d')"
  shows "\<exists>t t' r n m. awards d = Some t \<and> d' = d\<lparr>awards := Some t'\<rparr>
       \<and> rows t' = rows t @ [r] \<and> aw_id r \<notin> set (map aw_id (rows t))
       \<and> aw_battle_id r = Some n \<and> n \<in> set (keys bi_id (battle_ids d))
       \<and> aw_award_id r = Some m \<and> m \<in> set (keys ac_id (awards_catalog d))"
  using assms
  by (auto simp: insert_into_awards_def nextval_def Let_def references_battle_ids_def
      references_awards_catalog_def keys_def
      split: option.splits sum.splits if_splits prod.splits)

lemma consistent_insert_into_awards:
  assumes "insert_into_awards pg [b, a, x] now d = (q, d')" and "consistent d"
  shows "consistent d'"
proof (cases q)
  case (Inl e)
  with assms show ?thesis
    using failed_insert_into_awards same_rows_consistent by blast
next
  case (Inr rs)
  from insert_into_awards_fresh[OF assms(1)[unfolded Inr]]
  obtain t t' r n m where t: "awards d = Some t" "d' = d\<lparr>awards := Some t'\<rparr>"
    "rows t' = rows t @ [r]" "aw_id r \<notin> set (map aw_id (rows t))"
    "aw_battle_id r = Some n" "n \<in> set (keys bi_id (battle_ids d))"
    "aw_award_id r = Some m" "m \<in> set (keys ac_id (awards_catalog d))"
    by blast
  have "distinct (keys aw_id (awards d))"
    "refs_ok aw_battle_id (awards d) (keys bi_id (battle_ids d))"
    "refs_ok aw_award_id (awards d) (keys ac_id (awards_catalog d))"
    using assms(2) by (simp_all add: consistent_def)
  with t show ?thesis
    by (auto intro!: consistent_awards[OF assms(2)] simp: keys_Some refs_ok_def)
qed

lemma insert_into_awards_catalog_fresh:
  assumes "insert_into_awards_catalog [c, n, e, u] now d = (Inr rs, d')"
  shows "\<exists>t t' r. awards_catalog d = Some t \<and> d' = d\<lparr>awards_catalog := Some t'\<rparr>
       \<and> rows t' = rows t @ [r] \<and> ac_id r \<notin> set (map ac_id (rows t))"
  using assms
  by (auto simp: insert_into_awards_catalog_def nextval_def Let_def
      split: option.splits sum.splits if_splits prod.splits)

lemma consistent_insert_into_awards_catalog:
  assumes "insert_into_awards_catalog [c, n, e, u] now d = (q, d')" and "consistent d"
  shows "consistent d'"
proof (cases q)
  case (Inl e)
  with assms show ?thesis
    using failed_insert_into_awards_catalog same_rows_consistent by blast
next
  case (Inr rs)
  from insert_into_awards_catalog_fresh[OF assms(1)[unfolded Inr]]
  obtain t t' r where t: "awards_catalog d = Some t" "d' = d\<lparr>awards_catalog := Some t'\<rparr>"
    "rows t' = rows t @ [r]" "ac_id r \<notin> set (map ac_id (rows t))"
    by blast
  have "distinct (keys ac_id (awards_catalog d))" using assms(2) by (simp add: consistent_def)
  with t show ?thesis
    by (auto intro!: consistent_awards_catalog[OF assms(2)] simp: keys_Some)
qed


lemma delete_from_battle_ids_effect:
  assumes "delete_from_battle_ids pg [JStr i] now d = (Inr u, d')"
  shows "\<exists>t n. battle_ids d = Some t \<and> int4_in pg i = Some n
       \<and> d' = d\<lparr>battle_ids := Some (t\<lparr>rows := filter (\<lambda>r. bi_id r \<noteq> n) (rows t)\<rparr>),
                 commendations := map_option
                   (cascade co_battle_id (map bi_id (filter (\<lambda>r. bi_id r = n) (rows t))))
                   (commendations d),
                 rank_changes := map_option
                   (cascade rc_battle_id (map bi_id (filter (\<lambda>r. bi_id r = n) (rows t))))
                   (rank_changes d),
                 awards := map_option
                   (cascade aw_battle_id (map bi_id (filter (\<lambda>r. bi_id r = n) (rows t))))
                   (awards d)\<rparr>"
  using assms
  by (auto simp: delete_from_battle_ids_def bind_int4_def Let_def
      split: option.splits sum.splits)

lemma keys_cascade: "distinct (keys k T) \<Longrightarrow> distinct (keys k (map_option (cascade fk dead) T))"
  by (cases T) (simp_all add: keys_def cascade_def distinct_map_filter)

lemma refs_cascade_other:
  "refs_ok fk T ids \<Longrightarrow> refs_ok fk (map_option (cascade fk' dead) T) ids"
  by (cases T) (auto simp: refs_ok_def cascade_def list_all_iff)

lemma refs_cascade:
  assumes "refs_ok fk T ids" and "n \<in> set ids \<longrightarrow> n \<in> set dead"
  shows "refs_ok fk (map_option (cascade fk dead) T) (filter (\<lambda>x. x \<noteq> n) ids)"
  using assms
  by (cases T) (auto simp: refs_ok_def cascade_def list_all_iff split: option.splits)

lemma keys_filter_battle:
  "keys bi_id (Some (t\<lparr>rows := filter (\<lambda>r. bi_id r \<noteq> n) (rows t)\<rparr>))
     = filter (\<lambda>x. x \<noteq> n) (map bi_id (rows t))"
  by (simp add: keys_def filter_map comp_def)

lemma consistent_delete_from_battle_ids:
  assumes "delete_from_battle_ids pg [JStr i] now d = (q, d')" and "consistent d"
  shows "consistent d'"
proof (cases q)
  case (Inl e)
  with assms show ?thesis
    using failed_delete_from_battle_ids same_rows_consistent by blast
next
  case (Inr u)
  from delete_from_battle_ids_effect[OF assms(1)[unfolded Inr]]
  obtain t n where t: "battle_ids d = Some t" "int4_in pg i = Some n"
    and d': "d' = d\<lparr>battle_ids := Some (t\<lparr>rows := filter (\<lambda>r. bi_id r \<noteq> n) (rows t)\<rparr>),
                 commendations := map_option
                   (cascade co_battle_id (map bi_id (filter (\<lambda>r. bi_id r = n) (rows t))))
                   (commendations d),
                 rank_changes := map_option
                   (cascade rc_battle_id (map bi_id (filter (\<lambda>r. bi_id r = n) (rows t))))
                   (rank_changes d),
                 awards := map_option
                   (cascade aw_battle_id (map bi_id (filter (\<lambda>r. bi_id r = n) (rows t))))
                   (awards d)\<rparr>"
    by blast
  define dead where "dead = map bi_id (filter (\<lambda>r. bi_id r = n) (rows t))"
  have dead: "n \<in> set (map bi_id (rows t)) \<longrightarrow> n \<in> set dead"
    by (auto simp: dead_def)
  from assms(2) t(1) have c: "distinct (map bi_id (rows t))"
    "distinct (keys co_id (commendations d))" "distinct (keys rc_id (rank_changes d))"
    "distinct (keys ac_id (awards_catalog d))" "distinct (keys aw_id (awards d))"
    "refs_ok co_battle_id (commendations d) (map bi_id (rows t))"
    "refs_ok rc_battle_id (rank_changes d) (map bi_id (rows t))"
    "refs_ok aw_battle_id (awards d) (map bi_id (rows t))"
    "refs_ok aw_award_id (awards d) (keys ac_id (awards_catalog d))"
    by (simp_all add: consistent_def keys_Some)
  show ?thesis
    unfolding d' dead_def[symmetric] consistent_def
    using c
    by (auto simp: keys_filter_battle
        intro: keys_cascade refs_cascade_other refs_cascade[OF _ dead])
qed

lemma select_keeps_store:
  "snd (select_battle_ids_order_by_created_at now d) = d"
  "snd (select_battle_ids_where_id pg ps now d) = d"
  "snd (select_awards_catalog_order_by_id now d) = d"
  "snd (select_awards_join_catalog pg ps now d) = d"
  "snd (select_now now d) = d"
  by (simp_all add: select_battle_ids_order_by_created_at_def select_battle_ids_where_id_def
      select_awards_catalog_order_by_id_def select_awards_join_catalog_def select_now_def
      split: option.splits list.splits sum.splits)

lemma consistent_select:
  "select_battle_ids_order_by_created_at now d = (q1, d') \<Longrightarrow> consistent d \<Longrightarrow> consistent d'"
  "select_battle_ids_where_id pg ps now d = (q2, d') \<Longrightarrow> consistent d \<Longrightarrow> consistent d'"
  "select_awards_catalog_order_by_id now d = (q3, d') \<Longrightarrow> consistent d \<Longrightarrow> consistent d'"
  "select_awards_join_catalog pg ps now d = (q4, d') \<Longrightarrow> consistent d \<Longrightarrow> consistent d'"
  "select_now now d = (q5, d') \<Longrightarrow> consistent d \<Longrightarrow> consistent d'"
  using select_keeps_store(1)[of now d] select_keeps_store(2)[of pg ps now d]
    select_keeps_store(3)[of now d] select_keeps_store(4)[of pg ps now d]
    select_keeps_store(5)[of now d]
  by simp_all

lemma pool_query_consistent:
  assumes "\<And>now d q' d'. q now d = (q', d') \<Longrightarrow> consistent d \<Longrightarrow> consistent d'"
    and "consistent (store w)"
  shows "consistent (store (snd (pool_query q w)))"
proof -
  obtain q' d' where e: "q (clock w) (store w) = (q', d')" by fastforce
  from assms(1)[OF e assms(2)] have "consistent d'" .
  with e assms(2) show ?thesis
    by (cases q')
      (auto simp: pool_query_def execute_def raise_def
        split: list.splits option.splits fault.splits)
qed

lemma snd_case_response:
  "snd (case x of (Inl e, w1) \<Rightarrow> (f e, w1) | (Inr v, w1) \<Rightarrow> (g v, w1)) = snd x"
  by (cases x) (auto split: sum.splits)


lemma pool_query_step_consistent:
  assumes "pool_query q w = (x, w1)" and "consistent (store w)"
    and "\<And>now d q' d'. q now d = (q', d') \<Longrightarrow> consistent d \<Longrightarrow> consistent d'"
  shows "consistent (store w1)"
  using pool_query_consistent[of q w, OF assms(3) assms(2)] assms(1) by simp

lemma keys_empty_table: "keys k (Some empty_table) = keys k None"
  by (simp add: keys_def empty_table_def)

lemma refs_ok_empty_table: "refs_ok fk (Some empty_table) ids = refs_ok fk None ids"
  by (simp add: refs_ok_def empty_table_def)

lemma consistent_new_table:
  "battle_ids d = None \<Longrightarrow> consistent d \<Longrightarrow> consistent (d\<lparr>battle_ids := Some empty_table\<rparr>)"
  "commendations d = None \<Longrightarrow> consistent d \<Longrightarrow> consistent (d\<lparr>commendations := Some empty_table\<rparr>)"
  "rank_changes d = None \<Longrightarrow> consistent d \<Longrightarrow> consistent (d\<lparr>rank_changes := Some empty_table\<rparr>)"
  "awards_catalog d = None \<Longrightarrow> consistent d
     \<Longrightarrow> consistent (d\<lparr>awards_catalog := Some empty_table\<rparr>)"
  "awards d = None \<Longrightarrow> consistent d \<Longrightarrow> consistent (d\<lparr>awards := Some empty_table\<rparr>)"
  by (simp_all add: consistent_def keys_empty_table refs_ok_empty_table)

lemma consistent_create_table_battle_ids:
  "create_table_battle_ids now d = (q, d') \<Longrightarrow> consistent d \<Longrightarrow> consistent d'"
  by (cases "battle_ids d") (auto simp: create_table_battle_ids_def consistent_new_table)

lemma consistent_create_table_commendations:
  "create_table_commendations now d = (q, d') \<Longrightarrow> consistent d \<Longrightarrow> consistent d'"
  by (cases "commendations d")
    (auto simp: create_table_commendations_def consistent_new_table split: if_splits)

lemma consistent_create_table_rank_changes:
  "create_table_rank_changes now d = (q, d') \<Longrightarrow> consistent d \<Longrightarrow> consistent d'"
  by (cases "rank_changes d")
    (auto simp: create_table_rank_changes_def consistent_new_table split: if_splits)

lemma consistent_create_table_awards_catalog:
  "create_table_awards_catalog now d = (q, d') \<Longrightarrow> consistent d \<Longrightarrow> consistent d'"
  by (cases "awards_catalog d")
    (auto simp: create_table_awards_catalog_def consistent_new_table)

lemma consistent_create_table_awards:
  "create_table_awards now d = (q, d') \<Longrightarrow> consistent d \<Longrightarrow> consistent d'"
  by (cases "awards d")
    (auto simp: create_table_awards_def consistent_new_table split: if_splits)

lemma consistent_initTables:
  assumes "consistent (store w)"
  shows "consistent (store (initTables w))"
proof -
  obtain x1 w1 where 1: "pool_query create_table_battle_ids w = (x1, w1)" by fastforce
  obtain x2 w2 where 2: "pool_query create_table_commendations w1 = (x2, w2)" by fastforce
  obtain x3 w3 where 3: "pool_query create_table_rank_changes w2 = (x3, w3)" by fastforce
  obtain x4 w4 where 4: "pool_query create_table_awards_catalog w3 = (x4, w4)" by fastforce
  obtain x5 w5 where 5: "pool_query create_table_awards w4 = (x5, w5)" by fastforce
  have c1: "consistent (store w1)"
    by (rule pool_query_step_consistent[OF 1 assms]) (rule consistent_create_table_battle_ids)
  have c2: "consistent (store w2)"
    by (rule pool_query_step_consistent[OF 2 c1]) (rule consistent_create_table_commendations)
  have c3: "consistent (store w3)"
    by (rule pool_query_step_consistent[OF 3 c2]) (rule consistent_create_table_rank_changes)
  have c4: "consistent (store w4)"
    by (rule pool_query_step_consistent[OF 4 c3]) (rule consistent_create_table_awards_catalog)
  have c5: "consistent (store w5)"
    by (rule pool_query_step_consistent[OF 5 c4]) (rule consistent_create_table_awards)
  show ?thesis
    using 1 2 3 4 5 c1 c2 c3 c4 c5
    by (simp add: initTables_def split: sum.splits)
qed

lemma consistent_handle:
  assumes "consistent (store w)"
  shows "consistent (store (snd (handle pg r w)))"
proof (cases r)
  case GET_root
  then show ?thesis
    by (simp add: get_root_def snd_case_response)
      (rule pool_query_consistent[OF _ assms], rule consistent_select(5))
next
  case GET_battle
  then show ?thesis
    by (simp add: get_api_battle_def snd_case_response)
      (rule pool_query_consistent[OF _ assms], rule consistent_select(1))
next
  case (GET_battle_id i)
  then show ?thesis
    by (simp add: get_api_battle_id_def snd_case_response)
      (rule pool_query_consistent[OF _ assms], rule consistent_select(2))
next
  case (POST_battle b)
  then show ?thesis
    by (simp add: post_api_battle_def Let_def snd_case_response)
      (rule pool_query_consistent[OF _ assms], rule consistent_insert_into_battle_ids)
next
  case (PUT_battle_id i b)
  then show ?thesis
    by (simp add: put_api_battle_id_def Let_def snd_case_response)
      (rule pool_query_consistent[OF _ assms], rule consistent_update_battle_ids)
next
  case (DELETE_battle_id i)
  then show ?thesis
    by (simp add: delete_api_battle_id_def snd_case_response)
      (rule pool_query_consistent[OF _ assms], rule consistent_delete_from_battle_ids)
next
  case GET_awards_catalog
  then show ?thesis
    by (simp add: get_api_awards_catalog_def snd_case_response)
      (rule pool_query_consistent[OF _ assms], rule consistent_select(3))
next
  case (POST_awards_catalog b)
  then show ?thesis
    by (simp add: post_api_awards_catalog_def Let_def snd_case_response)
      (rule pool_query_consistent[OF _ assms], rule consistent_insert_into_awards_catalog)
next
  case (POST_awards i b)
  then show ?thesis
    by (simp add: post_api_awards_def Let_def snd_case_response)
      (rule pool_query_consistent[OF _ assms], rule consistent_insert_into_awards)
next
  case (GET_awards i)
  then show ?thesis
    by (simp add: get_api_awards_def snd_case_response)
      (rule pool_query_consistent[OF _ assms], rule consistent_select(4))
next
  case (POST_rank_change i b)
  then show ?thesis
    by (simp add: post_api_battle_rank_change_def Let_def snd_case_response)
      (rule pool_query_consistent[OF _ assms], rule consistent_insert_into_rank_changes)
next
  case (POST_commendation i b)
  obtain x1 w1 where 1: "pool_query (insert_into_commendations pg
      [JStr i, field b ''level'', field b ''notes'']) w = (x1, w1)" by fastforce
  obtain x2 w2 where 2: "pool_query (update_commendations_count pg [JStr i]) w1 = (x2, w2)"
    by fastforce
  have c1: "consistent (store w1)"
    by (rule pool_query_step_consistent[OF 1 assms]) (rule consistent_insert_into_commendations)
  have c2: "consistent (store w2)"
    by (rule pool_query_step_consistent[OF 2 c1]) (rule consistent_update_commendations_count)
  show ?thesis
    using POST_commendation 1 2 c1 c2
    by (simp add: post_api_battle_commendation_def Let_def split: sum.splits)
qed

lemma consistent_example_db: "consistent example_db"
  by (simp add: consistent_def keys_def refs_ok_def example_db_def empty_table_def operative_def
      medal_def grant_def)

text \<open>
  X1. The store with no tables satisfies the constraints of the schema that relate rows
  (unique primary keys, every commendation, rank change and award referencing an
  operative that exists, every award referencing a catalog entry that exists), and
  \<open>initTables\<close> and every sequence of requests keep them, whatever the requests are and
  whichever calls the connection rejects.
\<close>

theorem schema_constraints_preserved:
  "consistent empty_db
 \<and> (consistent (store w) \<longrightarrow>
      consistent (store (initTables w)) \<and> consistent (store (snd (serve_all pg rs w))))"
proof -
  have "consistent (store (snd (serve_all pg rs w)))" if "consistent (store w)"
    using that
  proof (induction rs arbitrary: w)
    case Nil
    then show ?case by simp
  next
    case (Cons r rs)
    obtain res w1 where h: "handle pg r w = (res, w1)" by fastforce
    obtain ress w2 where s: "serve_all pg rs w1 = (ress, w2)" by fastforce
    have "consistent (store w1)"
      using consistent_handle[OF Cons.prems, of pg r] h by simp
    from Cons.IH[OF this] s h show ?case by simp
  qed
  moreover have "consistent empty_db"
    by (simp add: consistent_def empty_db_def keys_def refs_ok_def)
  ultimately show ?thesis
    using consistent_initTables by blast
qed


theorem schema_constraints_preserved_witness:
  "consistent (store example_world)
 \<and> consistent (store (initTables example_world))
 \<and> consistent (store (snd (serve_all pg_decimal
       [POST_commendation ''1'' level2, DELETE_battle_id ''1''] example_world)))"
  using schema_constraints_preserved [of example_world pg_decimal
      "[POST_commendation ''1'' level2, DELETE_battle_id ''1'']"]
  by (simp add: consistent_example_db example_world_def)

section \<open>Deleting an operative\<close>

lemma owned_by_cascade_same:
  "n \<in> set dead \<Longrightarrow> owned_by fk n (map_option (cascade fk dead) T) = []"
  by (cases T) (auto simp: owned_by_def cascade_def filter_empty_conv)

lemma owned_by_cascade_other:
  "m \<notin> set dead \<Longrightarrow> owned_by fk m (map_option (cascade fk dead) T) = owned_by fk m T"
  by (cases T) (auto simp: owned_by_def cascade_def intro: filter_cong)

text \<open>
  X2. When the call reaches the store, \<open>DELETE /api/battle/:id\<close> with the integer id \<open>n\<close>
  answers with the success flag and leaves no operative with id \<open>n\<close>; when there was
  one, no commendation, rank change or award that references \<open>n\<close> is left; and the rows
  that reference any other operative are as they were.
\<close>

theorem delete_cascades:
  assumes "no_faults 1 w" and "int4_in pg i = Some n" and "battle_ids (store w) = Some t"
  shows "fst (delete_api_battle_id pg i w) = \<lparr>res_status = 200, res_sent = JsonSuccess\<rparr>
       \<and> keys bi_id (battle_ids (store (snd (delete_api_battle_id pg i w))))
           = filter (\<lambda>x. x \<noteq> n) (map bi_id (rows t))
       \<and> (n \<in> set (map bi_id (rows t)) \<longrightarrow>
            owned_by co_battle_id n (commendations (store (snd (delete_api_battle_id pg i w)))) = []
          \<and> owned_by rc_battle_id n (rank_changes (store (snd (delete_api_battle_id pg i w)))) = []
          \<and> owned_by aw_battle_id n (awards (store (snd (delete_api_battle_id pg i w)))) = [])
       \<and> (\<forall>m. m \<noteq> n \<longrightarrow>
            owned_by co_battle_id m (commendations (store (snd (delete_api_battle_id pg i w))))
              = owned_by co_battle_id m (commendations (store w))
          \<and> owned_by rc_battle_id m (rank_changes (store (snd (delete_api_battle_id pg i w))))
              = owned_by rc_battle_id m (rank_changes (store w))
          \<and> owned_by aw_battle_id m (awards (store (snd (delete_api_battle_id pg i w))))
              = owned_by aw_battle_id m (awards (store w)))"
proof -
  have nf: "no_faults (Suc 0) w" using assms(1) by simp
  define dead where "dead = map bi_id (filter (\<lambda>r. bi_id r = n) (rows t))"
  define d' where "d' = (store w)\<lparr>battle_ids :=
        Some (t\<lparr>rows := filter (\<lambda>r. bi_id r \<noteq> n) (rows t)\<rparr>),
      commendations := map_option (cascade co_battle_id dead) (commendations (store w)),
      rank_changes := map_option (cascade rc_battle_id dead) (rank_changes (store w)),
      awards := map_option (cascade aw_battle_id dead) (awards (store w))\<rparr>"
  have q: "delete_from_battle_ids pg [JStr i] (clock w) (store w) = (Inr (), d')"
    using assms(2,3)
    by (simp add: delete_from_battle_ids_def bind_int4_def Let_def d'_def dead_def)
  from pool_query_ok(1)[OF nf, of "delete_from_battle_ids pg [JStr i]" "()" d'] q
  have r: "delete_api_battle_id pg i w
      = (\<lparr>res_status = 200, res_sent = JsonSuccess\<rparr>, w\<lparr>faults := tl (faults w), store := d'\<rparr>)"
    by (simp add: delete_api_battle_id_def res_json_def)
  have dead: "n \<in> set (map bi_id (rows t)) \<Longrightarrow> n \<in> set dead" "\<And>m. m \<noteq> n \<Longrightarrow> m \<notin> set dead"
    by (auto simp: dead_def)
  show ?thesis
    unfolding r
    using dead
    by (simp add: d'_def keys_filter_battle owned_by_cascade_same owned_by_cascade_other)
qed

theorem delete_cascades_witness:
  "no_faults 1 example_world \<and> int4_in pg_decimal ''1'' = Some 1
 \<and> owned_by aw_battle_id 1 (awards (store example_world)) = [grant 1 1 2 5, grant 2 1 1 9]
 \<and> owned_by aw_battle_id 1
      (awards (store (snd (delete_api_battle_id pg_decimal ''1'' example_world)))) = []
 \<and> owned_by aw_battle_id 2
      (awards (store (snd (delete_api_battle_id pg_decimal ''1'' example_world))))
     = [grant 3 2 1 7]
 \<and> keys bi_id (battle_ids (store (snd (delete_api_battle_id pg_decimal ''1'' example_world))))
     = [2]"
proof -
  have h: "no_faults 1 example_world" "int4_in pg_decimal ''1'' = Some 1"
    "battle_ids (store example_world)
       = Some \<lparr>rows = [operative 1 ''Ana'' 0 10, operative 2 ''Ben'' 0 20], next_id = 3\<rparr>"
    by (simp_all add: no_faults_def int4_in_1 example_world_def example_db_def)
  have e: "owned_by aw_battle_id 1 (awards (store example_world))
      = [grant 1 1 2 5, grant 2 1 1 9]"
    "owned_by aw_battle_id 2 (awards (store example_world)) = [grant 3 2 1 7]"
    by (simp_all add: owned_by_def example_world_def example_db_def grant_def)
  from delete_cascades[OF h] e h show ?thesis
    by (simp add: operative_def)
qed

end
